(* ===== verification/Prelude.thy ===== *)
theory Prelude
  imports Complex_Main "HOL-Library.Word" "HOL-Library.Multiset"
begin

text \<open>
  Shared vocabulary of the development: the machine integer types of the code, the ways a run of
  the program can fail, the sequencing of fallible operations, and the lemmas on lists, strings and
  multisets that several components use.

  A fallible operation returns \<open>failure + 'a\<close>. A failure is a value, so that every
  \<open>exit\<close>, failed \<open>assert\<close>, uncaught exception and undefined behaviour of the code is a branch
  of the model.
\<close>

section \<open>Types\<close>

type_synonym u8 = "8 word"
type_synonym u16 = "16 word"
type_synonym u32 = "32 word"
type_synonym u64 = "64 word"

text \<open>A \<open>char\<close> of the code is a byte: \<open>std::string\<close> and \<open>std::vector<char>\<close> are byte lists.\<close>

type_synonym byte = char
type_synonym bytes = "char list"

text \<open>
  How a run ends abnormally:
  \<^item> \<open>ExitFailure\<close>: \<open>exit(1)\<close> or \<open>exit(EXIT_FAILURE)\<close> after an error message;
  \<^item> \<open>AssertionFailed\<close>: an \<open>assert\<close> does not hold (\<open>NDEBUG\<close> is never defined by the build);
  \<^item> \<open>BadLexicalCast\<close>, \<open>LengthError\<close>, \<open>DomainError\<close>, \<open>BadAddressCast\<close>, \<open>BadTimeString\<close>,
    \<open>RWPopenEOF\<close>, \<open>SystemError\<close>: an exception, which ends the program unless a caller catches it;
  \<^item> \<open>UndefinedBehaviour\<close>: an access out of range, a null dereference or a read of a variable
    that was never set.
\<close>

datatype failure =
    ExitFailure
  | AssertionFailed
  | BadLexicalCast
  | LengthError
  | DomainError
  | BadAddressCast
  | BadTimeString
  | RWPopenEOF
  | SystemError
  | UndefinedBehaviour

type_synonym 'a result = "failure + 'a"

section \<open>Sequencing of fallible operations\<close>

definition andThen :: "'a result \<Rightarrow> ('a \<Rightarrow> 'b result) \<Rightarrow> 'b result" where
  "andThen m f = (case m of Inl e \<Rightarrow> Inl e | Inr x \<Rightarrow> f x)"

lemma andThen_simps [simp]:
  "andThen (Inl e) f = Inl e"
  "andThen (Inr x) f = f x"
  by (simp_all add: andThen_def)

lemma andThen_Inr_iff: "andThen m f = Inr y \<longleftrightarrow> (\<exists>x. m = Inr x \<and> f x = Inr y)"
  by (cases m) auto

lemma andThen_Inl_iff:
  "andThen m f = Inl e \<longleftrightarrow> m = Inl e \<or> (\<exists>x. m = Inr x \<and> f x = Inl e)"
  by (cases m) auto

lemma andThen_cong [fundef_cong]:
  "m = m' \<Longrightarrow> (\<And>x. m' = Inr x \<Longrightarrow> f x = f' x) \<Longrightarrow> andThen m f = andThen m' f'"
  by (cases m') auto

lemma andThen_assoc: "andThen (andThen m f) g = andThen m (\<lambda>x. andThen (f x) g)"
  by (cases m) auto

text \<open>The guard of an early exit: \<open>require c e\<close> fails with \<open>e\<close> unless \<open>c\<close> holds.\<close>

definition require :: "bool \<Rightarrow> failure \<Rightarrow> unit result" where
  "require c e = (if c then Inr () else Inl e)"

lemma require_simps [simp]:
  "require True e = Inr ()"
  "require False e = Inl e"
  by (simp_all add: require_def)

lemma require_Inr_iff [simp]: "require c e = Inr u \<longleftrightarrow> c"
  by (simp add: require_def)

lemma require_Inl_iff [simp]: "require c e = Inl e' \<longleftrightarrow> \<not> c \<and> e' = e"
  by (auto simp: require_def)

text \<open>Running a fallible operation over a list, stopping at the first failure.\<close>

fun foldResult :: "('s \<Rightarrow> 'a \<Rightarrow> 's result) \<Rightarrow> 's \<Rightarrow> 'a list \<Rightarrow> 's result" where
  "foldResult f s [] = Inr s"
| "foldResult f s (x # xs) = andThen (f s x) (\<lambda>s'. foldResult f s' xs)"

lemma foldResult_append:
  "foldResult f s (xs @ ys) = andThen (foldResult f s xs) (\<lambda>s'. foldResult f s' ys)"
  by (induction xs arbitrary: s) (simp_all add: andThen_assoc)

lemma foldResult_invariant:
  assumes "foldResult f s xs = Inr s'" and "P s"
    and "\<And>s x s'. x \<in> set xs \<Longrightarrow> P s \<Longrightarrow> f s x = Inr s' \<Longrightarrow> P s'"
  shows "P s'"
  using assms
  by (induction xs arbitrary: s) (auto simp: andThen_Inr_iff)

lemma foldResult_upto:
  assumes "foldResult f s [0..<n] = Inr s'" and "P 0 s"
    and "\<And>k s s'. k < n \<Longrightarrow> P k s \<Longrightarrow> f s k = Inr s' \<Longrightarrow> P (Suc k) s'"
  shows "P n s'"
  using assms
proof (induction n arbitrary: s')
  case (Suc n)
  from Suc.prems(1) obtain t where "foldResult f s [0..<n] = Inr t" and "f t n = Inr s'"
    by (auto simp: foldResult_append andThen_Inr_iff)
  then show ?case using Suc.IH [of t] Suc.prems(2,3) by simp
qed simp

section \<open>Vectors\<close>

text \<open>\<open>v[i]\<close> on a \<open>std::vector\<close>: reading past the end is undefined behaviour.\<close>

definition vectorAt :: "'a list \<Rightarrow> nat \<Rightarrow> 'a result" where
  "vectorAt v i = (if i < length v then Inr (v ! i) else Inl UndefinedBehaviour)"

lemma vectorAt_Inr_iff: "vectorAt v i = Inr x \<longleftrightarrow> i < length v \<and> x = v ! i"
  by (auto simp: vectorAt_def)

lemma vectorAt_in: "i < length v \<Longrightarrow> vectorAt v i = Inr (v ! i)"
  by (simp add: vectorAt_def)

lemma vectorAt_out: "length v \<le> i \<Longrightarrow> vectorAt v i = Inl UndefinedBehaviour"
  by (simp add: vectorAt_def)

section \<open>Words\<close>

lemma unat_u32_bound: "unat (w :: u32) < 4294967296"
  by (rule order.strict_trans2 [OF unsigned_less]) simp

lemma unat_of_nat_u32: "n < 4294967296 \<Longrightarrow> unat (of_nat n :: u32) = n"
  by (simp add: unat_of_nat)

lemma unat_of_nat_u16: "n < 65536 \<Longrightarrow> unat (of_nat n :: u16) = n"
  by (simp add: unat_of_nat)

section \<open>Strings\<close>

text \<open>The character classes of the C locale that the code relies on.\<close>

definition isDigit :: "char \<Rightarrow> bool" where
  "isDigit c \<longleftrightarrow> c \<in> set ''0123456789''"

definition isSpace :: "char \<Rightarrow> bool" where
  "isSpace c \<longleftrightarrow> of_char c \<in> {9, 10, 11, 12, 13, 32 :: nat}"

definition isPrefix :: "string \<Rightarrow> string \<Rightarrow> bool" where
  "isPrefix p s \<longleftrightarrow> take (length p) s = p"

lemma isPrefix_append [simp]: "isPrefix p (p @ s)"
  by (simp add: isPrefix_def)

abbreviation newline :: byte where
  "newline \<equiv> CHR 0x0A"

abbreviation carriageReturn :: byte where
  "carriageReturn \<equiv> CHR 0x0D"

text \<open>\<open>c_str()\<close> ends at the first NUL.\<close>

definition c_str :: "string \<Rightarrow> string" where
  "c_str s = takeWhile (\<lambda>c. c \<noteq> CHR 0x00) s"

text \<open>A text of lines, each ended by a newline.\<close>

definition linesText :: "string list \<Rightarrow> bytes" where
  "linesText ls = concat (map (\<lambda>l. l @ [newline]) ls)"

lemma linesText_simps [simp]:
  "linesText [] = []"
  "linesText (l # ls) = l @ newline # linesText ls"
  by (simp_all add: linesText_def)

text \<open>\<open>std::string::compare(0, n, t) == 0\<close>: the first \<open>n\<close> characters (all of them if there are fewer)
  are exactly \<open>t\<close>.\<close>

definition comparePrefix :: "string \<Rightarrow> nat \<Rightarrow> string \<Rightarrow> bool" where
  "comparePrefix s n t \<longleftrightarrow> take n s = t"

lemma comparePrefix_iff: "length t = n \<Longrightarrow> comparePrefix s n t \<longleftrightarrow> (\<exists>u. s = t @ u)"
  unfolding comparePrefix_def
  by (metis append_take_drop_id append_eq_conv_conj)

section \<open>Lists\<close>

lemma takeWhile_until [simp]:
  "c \<notin> set xs \<Longrightarrow> takeWhile (\<lambda>x. x \<noteq> c) (xs @ c # ys) = xs"
  by (induction xs) auto

lemma take_drop_split: "b = a + n \<Longrightarrow> take n (drop a xs) @ drop b xs = drop a xs"
  using append_take_drop_id [of n "drop a xs"] by (simp add: add.commute)

lemma filter_mset_le_partition:
  "filter_mset P M + filter_mset (\<lambda>x. \<not> P x) M = M"
  by (rule multiset_partition [symmetric])

lemma sorted_map_filter_Cons:
  assumes "sorted (map f xs)" and "\<And>y. y \<in> set xs \<Longrightarrow> f x \<le> f y"
  shows "sorted (map f (x # xs))"
  using assms by auto

section \<open>Reachable states\<close>

text \<open>
  A program that is driven by events is a step relation on its states; \<open>inv\<close> is a property that every
  step keeps.
\<close>

locale event_driven =
  fixes step :: "'s \<Rightarrow> 's \<Rightarrow> bool" and inv :: "'s \<Rightarrow> bool"
  assumes inv_step: "step s s' \<Longrightarrow> inv s \<Longrightarrow> inv s'"
begin

lemma inv_reachable: "step\<^sup>*\<^sup>* s s' \<Longrightarrow> inv s \<Longrightarrow> inv s'"
  by (induction rule: rtranclp_induct) (auto intro: inv_step)

end

end
