(* ===== verification/HostMemory.thy ===== *)
theory HostMemory
  imports Prelude
begin

text \<open>
  The byte images of integers in the memory of a host, and the copies between objects and byte
  vectors that the protocol code makes. The code copies structs with \<open>memcpy\<close>, so the images depend
  on the byte order of the host, which is a parameter of the model (\<open>endian\<close>). The structs that are
  copied hold fields of one size each (\<open>MessageHeader\<close>: two of 4 bytes, \<open>ProfileSizes\<close>: four of
  4 bytes), so they have no padding.
\<close>

section \<open>Integer images\<close>

datatype endian = LittleEndian | BigEndian

fun leBytes :: "nat \<Rightarrow> nat \<Rightarrow> bytes" where
  "leBytes 0 v = []"
| "leBytes (Suc n) v = char_of (v mod 256) # leBytes n (v div 256)"

fun leValue :: "bytes \<Rightarrow> nat" where
  "leValue [] = 0"
| "leValue (c # cs) = of_char c + 256 * leValue cs"

fun memBytes :: "endian \<Rightarrow> nat \<Rightarrow> nat \<Rightarrow> bytes" where
  "memBytes LittleEndian n v = leBytes n v"
| "memBytes BigEndian n v = rev (leBytes n v)"

fun memValue :: "endian \<Rightarrow> bytes \<Rightarrow> nat" where
  "memValue LittleEndian bs = leValue bs"
| "memValue BigEndian bs = leValue (rev bs)"

text \<open>What every representation of a fixed-width integer in memory promises.\<close>

locale memory_codec =
  fixes enc :: "nat \<Rightarrow> bytes" and dec :: "bytes \<Rightarrow> nat" and width :: nat
  assumes length_enc: "length (enc v) = width"
    and dec_enc: "v < 256 ^ width \<Longrightarrow> dec (enc v) = v"
    and enc_dec: "length bs = width \<Longrightarrow> enc (dec bs) = bs"
    and dec_bound: "length bs = width \<Longrightarrow> dec bs < 256 ^ width"
begin

lemma dec_field: "v < 256 ^ width \<Longrightarrow> dec (take width (enc v @ rest)) = v"
  by (simp add: length_enc dec_enc)

lemma drop_field: "drop width (enc v @ rest) = rest"
  by (simp add: length_enc)

lemma enc_inj: "v < 256 ^ width \<Longrightarrow> w < 256 ^ width \<Longrightarrow> enc v = enc w \<Longrightarrow> v = w"
  by (metis dec_enc)

end

lemma length_leBytes [simp]: "length (leBytes n v) = n"
  by (induction n arbitrary: v) simp_all

lemma leBytes_4:
  "leBytes 4 v = [char_of (v mod 256), char_of (v div 256 mod 256),
     char_of (v div 256 div 256 mod 256), char_of (v div 256 div 256 div 256 mod 256)]"
proof -
  have four: "4 = Suc (Suc (Suc (Suc 0)))"
    by simp
  show ?thesis
    unfolding four by simp
qed

lemma leBytes_2: "leBytes 2 v = [char_of (v mod 256), char_of (v div 256 mod 256)]"
proof -
  have two: "2 = Suc (Suc 0)"
    by simp
  show ?thesis
    unfolding two by simp
qed

lemma leValue_leBytes: "v < 256 ^ n \<Longrightarrow> leValue (leBytes n v) = v"
proof (induction n arbitrary: v)
  case (Suc n)
  then have "v div 256 < 256 ^ n"
    by (simp add: less_mult_imp_div_less mult.commute)
  then show ?case
    using Suc.IH by (simp add: of_char_of)
qed simp

lemma of_char_bound: "(of_char c :: nat) < 256"
  using nat_of_char_less_256 [of c] .

lemma leBytes_leValue: "leBytes (length bs) (leValue bs) = bs"
  by (induction bs) (simp_all add: of_char_bound mod_add_left_eq)

lemma leValue_bound: "leValue bs < 256 ^ length bs"
proof (induction bs)
  case (Cons c cs)
  have "leValue cs + 1 \<le> 256 ^ length cs"
    using Cons by simp
  then have "256 * leValue cs + 256 \<le> 256 * 256 ^ length cs"
    by simp
  with of_char_bound [of c] have "of_char c + 256 * leValue cs < 256 * 256 ^ length cs"
    by linarith
  then show ?case by simp
qed simp

interpretation mem: memory_codec "memBytes en n" "memValue en" n for en n
proof
  show "length (memBytes en n v) = n" for v
    by (cases en) simp_all
  show "v < 256 ^ n \<Longrightarrow> memValue en (memBytes en n v) = v" for v
    by (cases en) (simp_all add: leValue_leBytes)
  show "length bs = n \<Longrightarrow> memBytes en n (memValue en bs) = bs" for bs
    using leBytes_leValue [of bs] leBytes_leValue [of "rev bs"] by (cases en) auto
  show "length bs = n \<Longrightarrow> memValue en bs < 256 ^ n" for bs
    using leValue_bound [of bs] leValue_bound [of "rev bs"] by (cases en) auto
qed

declare mem.length_enc [simp]

section \<open>Images of machine words\<close>

definition u32Bytes :: "endian \<Rightarrow> u32 \<Rightarrow> bytes" where
  "u32Bytes en w = memBytes en 4 (unat w)"

definition u16Bytes :: "endian \<Rightarrow> u16 \<Rightarrow> bytes" where
  "u16Bytes en w = memBytes en 2 (unat w)"

definition u32Value :: "endian \<Rightarrow> bytes \<Rightarrow> u32" where
  "u32Value en bs = of_nat (memValue en bs)"

definition u16Value :: "endian \<Rightarrow> bytes \<Rightarrow> u16" where
  "u16Value en bs = of_nat (memValue en bs)"

lemma length_u32Bytes [simp]: "length (u32Bytes en w) = 4"
  by (simp add: u32Bytes_def)

lemma length_u16Bytes [simp]: "length (u16Bytes en w) = 2"
  by (simp add: u16Bytes_def)

lemma u32Value_u32Bytes [simp]: "u32Value en (u32Bytes en w) = w"
  using unat_u32_bound [of w] by (simp add: u32Value_def u32Bytes_def mem.dec_enc)

lemma u16Value_u16Bytes [simp]: "u16Value en (u16Bytes en w) = w"
proof -
  have "unat w < 256 ^ 2"
    by (rule order.strict_trans2 [OF unsigned_less]) simp
  then show ?thesis
    by (simp add: u16Value_def u16Bytes_def mem.dec_enc)
qed

lemma u32Bytes_u32Value: "length bs = 4 \<Longrightarrow> u32Bytes en (u32Value en bs) = bs"
  using mem.dec_bound [of bs 4 en]
  by (simp add: u32Bytes_def u32Value_def unat_of_nat_u32 mem.enc_dec)

lemma u16Bytes_u16Value: "length bs = 2 \<Longrightarrow> u16Bytes en (u16Value en bs) = bs"
  using mem.dec_bound [of bs 2 en]
  by (simp add: u16Bytes_def u16Value_def unat_of_nat_u16 mem.enc_dec)

section \<open>Copies between objects and vectors\<close>

text \<open>
  \<open>memcpyTo buf off src\<close> is \<open>memcpy(&buf[off], src, n)\<close>; writing past the vector is undefined
  behaviour. \<open>bytesAt buf off n\<close> reads \<open>n\<close> bytes from \<open>&buf[off]\<close>. The address \<open>&buf[buf.size()]\<close>
  is the end pointer, from which zero bytes may be copied.
\<close>

definition memcpyTo :: "bytes \<Rightarrow> nat \<Rightarrow> bytes \<Rightarrow> bytes result" where
  "memcpyTo buf off src =
     (if off + length src \<le> length buf
      then Inr (take off buf @ src @ drop (off + length src) buf)
      else Inl UndefinedBehaviour)"

definition bytesAt :: "bytes \<Rightarrow> nat \<Rightarrow> nat \<Rightarrow> bytes result" where
  "bytesAt buf off n =
     (if off + n \<le> length buf then Inr (take n (drop off buf)) else Inl UndefinedBehaviour)"

text \<open>
  \<open>std::string(&buf[off], n)\<close> with \<open>n\<close> converted to \<open>size_t\<close>: a negative \<open>n\<close> becomes a size above
  \<open>max_size()\<close>, for which the constructor throws \<open>std::length_error\<close>.
\<close>

definition stringAt :: "bytes \<Rightarrow> nat \<Rightarrow> int \<Rightarrow> string result" where
  "stringAt buf off n = (if n < 0 then Inl LengthError else bytesAt buf off (nat n))"

lemma bytesAt_append [simp]:
  "bytesAt (pre @ s @ rest) (length pre) (length s) = Inr s"
  by (simp add: bytesAt_def)

lemma bytesAt_Inr_iff:
  "bytesAt buf off n = Inr s \<longleftrightarrow> off + n \<le> length buf \<and> s = take n (drop off buf)"
  by (auto simp: bytesAt_def)

text \<open>The idiom \<open>memcpy(&bits[copied], ...); copied += n\<close>.\<close>

definition putField :: "bytes \<times> nat \<Rightarrow> bytes \<Rightarrow> (bytes \<times> nat) result" where
  "putField st src =
     andThen (memcpyTo (fst st) (snd st) src) (\<lambda>bits. Inr (bits, snd st + length src))"

lemma putField_blank:
  "putField (pre @ replicate k z, length pre) src =
     (if length src \<le> k
      then Inr ((pre @ src) @ replicate (k - length src) z, length (pre @ src))
      else Inl UndefinedBehaviour)"
  by (simp add: putField_def memcpyTo_def)

text \<open>Filling a blank vector field by field concatenates the fields, or runs past its end.\<close>

lemma putFields_blank:
  "foldResult putField (pre @ replicate k z, length pre) fs =
     (if length (concat fs) \<le> k
      then Inr (pre @ concat fs @ replicate (k - length (concat fs)) z, length pre + length (concat fs))
      else Inl UndefinedBehaviour)"
proof (induction fs arbitrary: pre k)
  case (Cons f fs)
  show ?case
    using Cons [of "pre @ f" "k - length f"]
    by (auto simp: putField_blank)
qed simp

lemma putFields_exact:
  "foldResult putField (replicate k z, 0) fs =
     (if length (concat fs) \<le> k
      then Inr (concat fs @ replicate (k - length (concat fs)) z, length (concat fs))
      else Inl UndefinedBehaviour)"
  using putFields_blank [of "[]" k z fs] by simp

end
