(* ===== verification/Protocol.thy ===== *)
theory Protocol
  imports HostMemory
begin

text \<open>
  The messages of \<open>src/src/protocol.h\<close> and \<open>src/src/protocol.cpp\<close>: their classes, \<open>toBits\<close> and
  the constructors from a header and a body that \<open>Message::fromBits\<close> selects by opcode.
\<close>

section \<open>Types of protocol.h\<close>

type_synonym opcodeType = u32
type_synonym messageSizeType = u32
type_synonym timeUnit = u32

record MessageHeader =
  opcode :: opcodeType
  bodySize :: messageSizeType

definition headerSize :: nat where
  "headerSize = 8"

definition opcode_DhtType :: opcodeType where "opcode_DhtType = 1"
definition opcode_Profile :: opcodeType where "opcode_Profile = 2"
definition opcode_Start :: opcodeType where "opcode_Start = 3"
definition opcode_Report :: opcodeType where "opcode_Report = 4"
definition opcode_Finish :: opcodeType where "opcode_Finish = 5"

lemmas opcode_defs =
  opcode_DhtType_def opcode_Profile_def opcode_Start_def opcode_Report_def opcode_Finish_def

definition ReportAndFinishTimeout :: int where
  "ReportAndFinishTimeout = 90"

datatype Message =
    DhtType string
  | Profile string string string string
  | Start timeUnit string u16 u16
  | Report string string
  | Finish

fun messageOpcode :: "Message \<Rightarrow> opcodeType" where
  "messageOpcode (DhtType type) = opcode_DhtType"
| "messageOpcode (Profile joinProfile leaveProfile putProfile getProfile) = opcode_Profile"
| "messageOpcode (Start duration host entryPointPortOffset selfPortOffset) = opcode_Start"
| "messageOpcode (Report type val) = opcode_Report"
| "messageOpcode Finish = opcode_Finish"

section \<open>Serialisation: toBits\<close>

definition headerBytes :: "endian \<Rightarrow> MessageHeader \<Rightarrow> bytes" where
  "headerBytes en h = u32Bytes en (opcode h) @ u32Bytes en (bodySize h)"

definition headerOfBytes :: "endian \<Rightarrow> bytes \<Rightarrow> MessageHeader" where
  "headerOfBytes en bs =
     \<lparr>opcode = u32Value en (take 4 bs), bodySize = u32Value en (take 4 (drop 4 bs))\<rparr>"

text \<open>\<open>std::vector<char> bits(headerSize + header.bodySize, 0)\<close>.\<close>

definition blankBits :: "MessageHeader \<Rightarrow> bytes" where
  "blankBits h = replicate (headerSize + unat (bodySize h)) (CHR 0x00)"

definition toBits_DhtType :: "endian \<Rightarrow> string \<Rightarrow> bytes result" where
  "toBits_DhtType en type =
     (let header = \<lparr>opcode = opcode_DhtType, bodySize = of_nat (length type)\<rparr>;
          bits = blankBits header
      in andThen (memcpyTo bits 0 (headerBytes en header)) (\<lambda>bits.
         memcpyTo bits headerSize type))"

definition toBits_Profile ::
    "endian \<Rightarrow> string \<Rightarrow> string \<Rightarrow> string \<Rightarrow> string \<Rightarrow> bytes result" where
  "toBits_Profile en joinProfile leaveProfile putProfile getProfile =
     (let header = \<lparr>opcode = opcode_Profile,
            bodySize = of_nat (16 + length joinProfile + length leaveProfile
                                  + length putProfile + length getProfile)\<rparr>;
          profileSizes = u32Bytes en (of_nat (length joinProfile))
            @ u32Bytes en (of_nat (length leaveProfile))
            @ u32Bytes en (of_nat (length putProfile))
            @ u32Bytes en (of_nat (length getProfile));
          bits = blankBits header
      in andThen (foldResult putField (bits, 0)
           [headerBytes en header, profileSizes, joinProfile, leaveProfile, putProfile, getProfile])
         (\<lambda>(bits, copied).
         andThen (require (copied = length bits) AssertionFailed) (\<lambda>_. Inr bits)))"

definition toBits_Start :: "endian \<Rightarrow> timeUnit \<Rightarrow> string \<Rightarrow> u16 \<Rightarrow> u16 \<Rightarrow> bytes result" where
  "toBits_Start en duration entryPointHost entryPointPortOffset selfPortOffset =
     (let header = \<lparr>opcode = opcode_Start, bodySize = of_nat (4 + 2 + 2 + length entryPointHost)\<rparr>;
          bits = blankBits header
      in andThen (foldResult putField (bits, 0)
           [headerBytes en header, u32Bytes en duration, u16Bytes en entryPointPortOffset,
            u16Bytes en selfPortOffset, entryPointHost])
         (\<lambda>(bits, copied).
         andThen (require (copied = length bits) AssertionFailed) (\<lambda>_. Inr bits)))"

definition toBits_Report :: "endian \<Rightarrow> string \<Rightarrow> string \<Rightarrow> bytes result" where
  "toBits_Report en type val =
     (let header = \<lparr>opcode = opcode_Report, bodySize = of_nat (length type + length val + 1)\<rparr>;
          bits = blankBits header
      in andThen (foldResult putField (bits, 0) [headerBytes en header, type, '' '', val])
         (\<lambda>(bits, copied).
         andThen (require (copied = length bits) AssertionFailed) (\<lambda>_. Inr bits)))"

definition toBits_Finish :: "endian \<Rightarrow> bytes result" where
  "toBits_Finish en =
     (let header = \<lparr>opcode = opcode_Finish, bodySize = 0\<rparr>
      in memcpyTo (blankBits header) 0 (headerBytes en header))"

fun toBits :: "endian \<Rightarrow> Message \<Rightarrow> bytes result" where
  "toBits en (DhtType type) = toBits_DhtType en type"
| "toBits en (Profile joinProfile leaveProfile putProfile getProfile) =
     toBits_Profile en joinProfile leaveProfile putProfile getProfile"
| "toBits en (Start duration host entryPointPortOffset selfPortOffset) =
     toBits_Start en duration host entryPointPortOffset selfPortOffset"
| "toBits en (Report type val) = toBits_Report en type val"
| "toBits en Finish = toBits_Finish en"

section \<open>Parsing: the constructors from bits\<close>

definition DhtType_fromBits :: "MessageHeader \<Rightarrow> bytes \<Rightarrow> Message result" where
  "DhtType_fromBits header body =
     andThen (stringAt body 0 (uint (bodySize header))) (\<lambda>type. Inr (DhtType type))"

text \<open>
  One step of the profile parser: \<open>profile = std::string(&body[copied], size); copied += size\<close>.
  \<open>size\<close> is an \<open>int32_t\<close> and \<open>copied\<close> an \<open>unsigned int\<close>.
\<close>

definition takeProfile :: "bytes \<Rightarrow> u32 \<Rightarrow> u32 \<Rightarrow> (string \<times> u32) result" where
  "takeProfile body copied n =
     andThen (stringAt body (unat copied) (sint n)) (\<lambda>s. Inr (s, copied + n))"

definition Profile_fromBits :: "endian \<Rightarrow> MessageHeader \<Rightarrow> bytes \<Rightarrow> Message result" where
  "Profile_fromBits en header body =
     andThen (bytesAt body 0 16) (\<lambda>profileSizes.
     let join = u32Value en (take 4 profileSizes);
         leave = u32Value en (take 4 (drop 4 profileSizes));
         put = u32Value en (take 4 (drop 8 profileSizes));
         get = u32Value en (take 4 (drop 12 profileSizes));
         copied = 16
     in andThen (takeProfile body copied join) (\<lambda>(joinProfile, copied).
        andThen (takeProfile body copied leave) (\<lambda>(leaveProfile, copied).
        andThen (takeProfile body copied put) (\<lambda>(putProfile, copied).
        andThen (takeProfile body copied get) (\<lambda>(getProfile, copied).
        andThen (require (copied = bodySize header) AssertionFailed) (\<lambda>_.
        Inr (Profile joinProfile leaveProfile putProfile getProfile)))))))"

text \<open>
  \<open>header.bodySize - copied\<close> is computed in \<open>size_t\<close>: for a body size below 8 it wraps to a size
  above \<open>max_size()\<close>, so the string constructor throws \<open>std::length_error\<close>.
\<close>

definition Start_fromBits :: "endian \<Rightarrow> MessageHeader \<Rightarrow> bytes \<Rightarrow> Message result" where
  "Start_fromBits en header body =
     andThen (bytesAt body 0 4) (\<lambda>duration.
     andThen (bytesAt body 4 2) (\<lambda>entryPointPortOffset.
     andThen (bytesAt body 6 2) (\<lambda>selfPortOffset.
     andThen (stringAt body 8 (uint (bodySize header) - 8)) (\<lambda>entryPointHost.
     Inr (Start (u32Value en duration) entryPointHost
            (u16Value en entryPointPortOffset) (u16Value en selfPortOffset))))))"

definition Report_fromBits :: "MessageHeader \<Rightarrow> bytes \<Rightarrow> Message result" where
  "Report_fromBits header body =
     andThen (require (CHR '' '' \<in> set body) ExitFailure) (\<lambda>_.
     let type = takeWhile (\<lambda>c. c \<noteq> CHR '' '') body;
         val = drop (length type + 1) body
     in andThen (require (unat (bodySize header) = length body) AssertionFailed) (\<lambda>_.
        Inr (Report type val)))"

definition Finish_fromBits :: "MessageHeader \<Rightarrow> bytes \<Rightarrow> Message result" where
  "Finish_fromBits header body =
     andThen (require (bodySize header = 0) AssertionFailed) (\<lambda>_. Inr Finish)"

definition fromBits :: "endian \<Rightarrow> MessageHeader \<Rightarrow> bytes \<Rightarrow> Message result" where
  "fromBits en header body =
     (if opcode header = opcode_DhtType then DhtType_fromBits header body
      else if opcode header = opcode_Profile then Profile_fromBits en header body
      else if opcode header = opcode_Start then Start_fromBits en header body
      else if opcode header = opcode_Report then Report_fromBits header body
      else if opcode header = opcode_Finish then Finish_fromBits header body
      else Inl ExitFailure)"

section \<open>What the classes give out\<close>

text \<open>
  The accessors of the subclasses. Their callers hold a \<open>Message*\<close> and cast it to the subclass without a
  check, which is undefined for an object of another class.
\<close>

fun getType :: "Message \<Rightarrow> string result" where
  "getType (DhtType type) = Inr type"
| "getType _ = Inl UndefinedBehaviour"

fun Message_getProfiles :: "Message \<Rightarrow> (string \<times> string \<times> string \<times> string) result" where
  "Message_getProfiles (Profile joinProfile leaveProfile putProfile getProfile) =
     Inr (joinProfile, leaveProfile, putProfile, getProfile)"
| "Message_getProfiles _ = Inl UndefinedBehaviour"

fun Start_duration :: "Message \<Rightarrow> timeUnit result" where
  "Start_duration (Start duration host entryPointPortOffset selfPortOffset) = Inr duration"
| "Start_duration _ = Inl UndefinedBehaviour"

fun Start_entryPointHost :: "Message \<Rightarrow> string result" where
  "Start_entryPointHost (Start duration host entryPointPortOffset selfPortOffset) = Inr host"
| "Start_entryPointHost _ = Inl UndefinedBehaviour"

fun Start_entryPointPortOffset :: "Message \<Rightarrow> u16 result" where
  "Start_entryPointPortOffset (Start duration host entryPointPortOffset selfPortOffset) = Inr entryPointPortOffset"
| "Start_entryPointPortOffset _ = Inl UndefinedBehaviour"

fun Start_selfPortOffset :: "Message \<Rightarrow> u16 result" where
  "Start_selfPortOffset (Start duration host entryPointPortOffset selfPortOffset) = Inr selfPortOffset"
| "Start_selfPortOffset _ = Inl UndefinedBehaviour"

fun Report_type :: "Message \<Rightarrow> string result" where
  "Report_type (Report type val) = Inr type"
| "Report_type _ = Inl UndefinedBehaviour"

fun Report_value :: "Message \<Rightarrow> string result" where
  "Report_value (Report type val) = Inr val"
| "Report_value _ = Inl UndefinedBehaviour"

section \<open>The layout of a message\<close>

text \<open>The body that the comments of \<open>protocol.cpp\<close> describe, as a specification of \<open>toBits\<close>.\<close>

fun bodyBytes :: "endian \<Rightarrow> Message \<Rightarrow> bytes" where
  "bodyBytes en (DhtType type) = type"
| "bodyBytes en (Profile join leave put get) =
     u32Bytes en (of_nat (length join)) @ u32Bytes en (of_nat (length leave)) @
     u32Bytes en (of_nat (length put)) @ u32Bytes en (of_nat (length get)) @
     join @ leave @ put @ get"
| "bodyBytes en (Start duration host entryOffset selfOffset) =
     u32Bytes en duration @ u16Bytes en entryOffset @ u16Bytes en selfOffset @ host"
| "bodyBytes en (Report type val) = type @ '' '' @ val"
| "bodyBytes en Finish = []"

definition messageHeader :: "endian \<Rightarrow> Message \<Rightarrow> MessageHeader" where
  "messageHeader en m =
     \<lparr>opcode = messageOpcode m, bodySize = of_nat (length (bodyBytes en m))\<rparr>"

text \<open>What a message needs to survive the trip: its body fits the 32-bit size, each profile string
  fits its \<open>int32_t\<close> size, and the type of a report has no space.\<close>

fun fieldsFit :: "Message \<Rightarrow> bool" where
  "fieldsFit (Profile join leave put get) =
     (\<forall>p \<in> set [join, leave, put, get]. length p < 2147483648)"
| "fieldsFit (Report type val) = (CHR '' '' \<notin> set type)"
| "fieldsFit m = True"

definition sendable :: "endian \<Rightarrow> Message \<Rightarrow> bool" where
  "sendable en m \<longleftrightarrow> length (bodyBytes en m) < 4294967296 \<and> fieldsFit m"

lemma length_headerBytes [simp]: "length (headerBytes en h) = 8"
  by (simp add: headerBytes_def)

lemma headerOfBytes_headerBytes [simp]: "headerOfBytes en (headerBytes en h) = h"
  by (simp add: headerOfBytes_def headerBytes_def)

lemma bodySize_wraps:
  "unat (of_nat n :: u32) < n \<longleftrightarrow> 4294967296 \<le> n"
proof -
  have "unat (of_nat n :: u32) = n mod 4294967296"
    by (simp add: unat_of_nat)
  then show ?thesis
    by (cases "n < 4294967296") (auto simp: not_less intro: order.strict_trans2)
qed

lemma wide_body: "\<not> n \<le> unat (of_nat n :: u32) \<longleftrightarrow> 4294967296 \<le> n"
  using bodySize_wraps [of n] by (simp add: not_le)

text \<open>Filling the blank vector with the header and the fields of the body.\<close>

lemma putFields_message:
  assumes "length (concat fs) = n"
  shows "foldResult putField (blankBits \<lparr>opcode = oc, bodySize = of_nat n\<rparr>, 0)
           (headerBytes en \<lparr>opcode = oc, bodySize = of_nat n\<rparr> # fs) =
         (if n < 4294967296
          then Inr (headerBytes en \<lparr>opcode = oc, bodySize = of_nat n\<rparr> @ concat fs, 8 + n)
          else Inl UndefinedBehaviour)"
  using wide_body [of n] assms unat_of_nat_u32 [of n]
  by (auto simp: blankBits_def headerSize_def putFields_exact simp del: foldResult.simps)

lemma toBits_layout:
  "toBits en m =
     (if length (bodyBytes en m) < 4294967296
      then Inr (headerBytes en (messageHeader en m) @ bodyBytes en m)
      else Inl UndefinedBehaviour)"
proof (cases m)
  case (DhtType type)
  then show ?thesis
    using wide_body [of "length type"] unat_of_nat_u32 [of "length type"]
    by (auto simp: toBits_DhtType_def Let_def memcpyTo_def blankBits_def headerSize_def
        messageHeader_def)
next
  case (Profile join leave put get)
  let ?fs = "[u32Bytes en (of_nat (length join)) @ u32Bytes en (of_nat (length leave)) @
     u32Bytes en (of_nat (length put)) @ u32Bytes en (of_nat (length get)), join, leave, put, get]"
  have "length (concat ?fs) = 16 + length join + length leave + length put + length get"
    by simp
  from putFields_message [OF this, of opcode_Profile en] show ?thesis
    using Profile
    by (simp add: toBits_Profile_def Let_def messageHeader_def add.assoc del: foldResult.simps)
next
  case (Start duration host eo so)
  let ?fs = "[u32Bytes en duration, u16Bytes en eo, u16Bytes en so, host]"
  have "length (concat ?fs) = 4 + 2 + 2 + length host"
    by simp
  from putFields_message [OF this, of opcode_Start en] show ?thesis
    using Start
    by (simp add: toBits_Start_def Let_def messageHeader_def add.assoc del: foldResult.simps)
next
  case (Report type val)
  have "length (concat [type, '' '', val]) = length type + length val + 1"
    by simp
  from putFields_message [OF this, of opcode_Report en] show ?thesis
    using Report
    by (simp add: toBits_Report_def Let_def messageHeader_def del: foldResult.simps)
next
  case Finish
  then show ?thesis
    by (simp add: toBits_Finish_def Let_def memcpyTo_def blankBits_def headerSize_def
        messageHeader_def)
qed

section \<open>Parsing a layout\<close>

lemma stringAt_append:
  "off = length pre \<Longrightarrow> n = int (length s) \<Longrightarrow> stringAt (pre @ s @ rest) off n = Inr s"
  by (simp add: stringAt_def)

lemma stringAt_Inr_iff:
  "stringAt body off n = Inr s \<longleftrightarrow>
     0 \<le> n \<and> off + nat n \<le> length body \<and> s = take (nat n) (drop off body)"
  by (auto simp: stringAt_def bytesAt_Inr_iff)

lemma sint_of_nat_u32: "n < 2147483648 \<Longrightarrow> sint (of_nat n :: u32) = int n"
  by (simp add: sint_uint signed_take_bit_int_eq_self unat_of_nat_u32 uint_nat)

lemma takeProfile_append:
  assumes "length p < 2147483648" and "length pre + length p < 4294967296"
  shows "takeProfile (pre @ p @ rest) (of_nat (length pre)) (of_nat (length p)) =
         Inr (p, of_nat (length pre + length p))"
  using assms by (simp add: takeProfile_def sint_of_nat_u32 unat_of_nat_u32 stringAt_append)

lemma takeProfile_Inr_iff:
  "takeProfile body copied n = Inr (s, copied') \<longleftrightarrow>
     stringAt body (unat copied) (sint n) = Inr s \<and> copied' = copied + n"
  by (auto simp: takeProfile_def andThen_Inr_iff)

lemma takeProfile_Inr:
  assumes "takeProfile body copied n = Inr (s, copied')" and "length body < 4294967296"
  shows "length s < 2147483648 \<and> n = of_nat (length s) \<and> unat copied + length s \<le> length body
       \<and> s = take (length s) (drop (unat copied) body) \<and> unat copied' = unat copied + length s"
proof -
  from assms(1) have n: "0 \<le> sint n" and le: "unat copied + nat (sint n) \<le> length body"
    and s: "s = take (nat (sint n)) (drop (unat copied) body)" and c: "copied' = copied + n"
    by (simp_all add: takeProfile_Inr_iff stringAt_Inr_iff)
  have len: "length s = nat (sint n)"
    using le s by simp
  have lt: "sint n < 2147483648"
    using sint_lt [of n] by simp
  have nw: "n = of_nat (length s)"
    using len of_nat_nat [OF n, where ?'a = u32] by simp
  have "length s < 4294967296"
    using len le assms(2) by linarith
  then have "unat n = length s"
    by (subst nw) (rule unat_of_nat_u32)
  then have "unat copied' = unat copied + length s"
    using c len le assms(2) by (simp add: unat_word_ariths)
  moreover have "length s < 2147483648"
    using len lt by linarith
  moreover have "unat copied + length s \<le> length body"
      and "s = take (length s) (drop (unat copied) body)"
    using le s unfolding len by simp_all
  ultimately show ?thesis
    using nw by blast
qed

lemma profile_lengths:
  assumes "sendable en (Profile join leave put get)"
  shows "length join < 2147483648" "length leave < 2147483648"
    "length put < 2147483648" "length get < 2147483648"
    "16 + length join + length leave + length put + length get < 4294967296"
  using assms by (simp_all add: sendable_def)

lemma Profile_fromBits_layout:
  assumes "sendable en (Profile join leave put get)"
  shows "Profile_fromBits en (messageHeader en (Profile join leave put get))
           (bodyBytes en (Profile join leave put get)) = Inr (Profile join leave put get)"
proof -
  note len = profile_lengths [OF assms]
  let ?sizes = "u32Bytes en (of_nat (length join)) @ u32Bytes en (of_nat (length leave)) @
     u32Bytes en (of_nat (length put)) @ u32Bytes en (of_nat (length get))"
  let ?body = "?sizes @ join @ leave @ put @ get"
  have "takeProfile ?body 16 (of_nat (length join)) = Inr (join, of_nat (16 + length join))"
    using takeProfile_append [of join "?sizes" "leave @ put @ get"] len by simp
  moreover have "takeProfile ?body (of_nat (16 + length join)) (of_nat (length leave)) =
      Inr (leave, of_nat (16 + length join + length leave))"
    using takeProfile_append [of leave "?sizes @ join" "put @ get"] len
    by (simp add: add.assoc)
  moreover have "takeProfile ?body (of_nat (16 + length join + length leave)) (of_nat (length put)) =
      Inr (put, of_nat (16 + length join + length leave + length put))"
    using takeProfile_append [of put "?sizes @ join @ leave" "get"] len
    by (simp add: add.assoc)
  moreover have "takeProfile ?body (of_nat (16 + length join + length leave + length put))
        (of_nat (length get)) =
      Inr (get, of_nat (16 + length join + length leave + length put + length get))"
    using takeProfile_append [of get "?sizes @ join @ leave @ put" "[]"] len
    by (simp add: add.assoc)
  ultimately show ?thesis
    by (simp add: Profile_fromBits_def bytesAt_def messageHeader_def Let_def add.assoc)
qed

lemma fromBits_layout:
  assumes "sendable en m"
  shows "fromBits en (messageHeader en m) (bodyBytes en m) = Inr m"
proof (cases m)
  case (DhtType type)
  then show ?thesis
    using assms by (simp add: fromBits_def opcode_defs DhtType_fromBits_def messageHeader_def
        stringAt_def bytesAt_def sendable_def unat_of_nat_u32 flip: unat_eq_nat_uint)
next
  case (Profile join leave put get)
  then show ?thesis
    using Profile_fromBits_layout [of en join leave put get] assms
    by (simp add: fromBits_def opcode_defs messageHeader_def)
next
  case (Start duration host eo so)
  have "uint (of_nat (8 + length host) :: u32) = int (8 + length host)"
    using assms Start by (simp add: sendable_def uint_nat unat_of_nat_u32 del: of_nat_add)
  then show ?thesis
    using Start by (simp add: fromBits_def opcode_defs Start_fromBits_def messageHeader_def
        bytesAt_def stringAt_def)
next
  case (Report type val)
  then show ?thesis
    using assms unat_of_nat_u32 [of "Suc (length type + length val)"]
    by (simp add: fromBits_def opcode_defs Report_fromBits_def messageHeader_def sendable_def
        Let_def)
next
  case Finish
  then show ?thesis
    by (simp add: fromBits_def opcode_defs Finish_fromBits_def messageHeader_def)
qed

section \<open>What a parse accepts\<close>

lemma header_eqI:
  "opcode h = oc \<Longrightarrow> n = unat (bodySize h) \<Longrightarrow> \<lparr>opcode = oc, bodySize = of_nat n\<rparr> = (h :: MessageHeader)"
  by (cases h) simp

lemma DhtType_fromBits_sound:
  assumes "DhtType_fromBits header body = Inr m" and "length body = unat (bodySize header)"
  shows "m = DhtType body"
  using assms
  by (auto simp: DhtType_fromBits_def andThen_Inr_iff stringAt_Inr_iff)

lemma Profile_fromBits_sound:
  assumes "Profile_fromBits en header body = Inr m" and len: "length body = unat (bodySize header)"
  shows "bodyBytes en m = body \<and> fieldsFit m \<and> messageOpcode m = opcode_Profile"
proof -
  have b: "length body < 4294967296"
    using unat_u32_bound len by simp
  from assms(1) obtain join leave put get c1 c2 c3 where
    sizes: "16 \<le> length body"
    and j: "takeProfile body 16 (u32Value en (take 4 body)) = Inr (join, c1)"
    and l: "takeProfile body c1 (u32Value en (take 4 (drop 4 body))) = Inr (leave, c2)"
    and p: "takeProfile body c2 (u32Value en (take 4 (drop 8 body))) = Inr (put, c3)"
    and g: "takeProfile body c3 (u32Value en (take 4 (drop 12 body))) = Inr (get, bodySize header)"
    and m: "m = Profile join leave put get"
    by (auto simp: Profile_fromBits_def andThen_Inr_iff bytesAt_Inr_iff Let_def split_def
        take_drop min_def)
  note jl = takeProfile_Inr [OF j b] and ll = takeProfile_Inr [OF l b]
    and pl = takeProfile_Inr [OF p b] and gl = takeProfile_Inr [OF g b]
  have c: "unat c1 = 16 + length join" "unat c2 = 16 + length join + length leave"
      "unat c3 = 16 + length join + length leave + length put"
      "length body = 16 + length join + length leave + length put + length get"
    using jl ll pl gl len by simp_all
  have sixteen: "unat (16 :: u32) = 16"
    by simp
  have "get = drop (unat c3) body"
    using gl c by simp
  then have tail: "join @ leave @ put @ get = drop 16 body"
    using jl ll pl c
    by (metis take_drop_split sixteen append.assoc)
  have field: "u32Bytes en (of_nat (length x)) = take 4 (drop k body)"
    if "u32Value en (take 4 (drop k body)) = of_nat (length x)" and "k + 4 \<le> 16" for k x
    using that sizes u32Bytes_u32Value [of "take 4 (drop k body)" en] by simp
  have f: "u32Bytes en (of_nat (length join)) = take 4 (drop 0 body)"
    by (rule field) (use jl in simp_all)
  moreover have "u32Bytes en (of_nat (length leave)) = take 4 (drop 4 body)"
      "u32Bytes en (of_nat (length put)) = take 4 (drop 8 body)"
      "u32Bytes en (of_nat (length get)) = take 4 (drop 12 body)"
    using ll pl gl by (auto intro!: field)
  ultimately have "bodyBytes en m = body"
    using m tail
    by (simp add: take_drop_split [of 16 12 4] take_drop_split [of 12 8 4] take_drop_split [of 8 4 4])
  then show ?thesis
    using m jl ll pl gl by simp
qed

lemma Start_fromBits_sound:
  assumes "Start_fromBits en header body = Inr m" and len: "length body = unat (bodySize header)"
  shows "bodyBytes en m = body \<and> fieldsFit m \<and> messageOpcode m = opcode_Start"
proof -
  from assms(1) have b: "8 \<le> length body" and "8 \<le> uint (bodySize header)" and
    m: "m = Start (u32Value en (take 4 body)) (take (nat (uint (bodySize header) - 8)) (drop 8 body))
          (u16Value en (take 2 (drop 4 body))) (u16Value en (take 2 (drop 6 body)))"
    by (auto simp: Start_fromBits_def andThen_Inr_iff stringAt_Inr_iff bytesAt_Inr_iff)
  then have host: "take (nat (uint (bodySize header) - 8)) (drop 8 body) = drop 8 body"
    using len by (simp add: nat_diff_distrib)
  have "u32Bytes en (u32Value en (take 4 body)) = take 4 body"
    using b by (simp add: u32Bytes_u32Value)
  moreover have "u16Bytes en (u16Value en (take 2 (drop k body))) = take 2 (drop k body)"
    if "k + 2 \<le> 8" for k
    using b that by (simp add: u16Bytes_u16Value)
  ultimately show ?thesis
    using m host by (simp add: take_drop_split [of 8 6 2] take_drop_split [of 6 4 2])
qed

lemma Report_fromBits_sound:
  assumes "Report_fromBits header body = Inr m"
  shows "bodyBytes en m = body \<and> fieldsFit m \<and> messageOpcode m = opcode_Report"
proof -
  let ?P = "\<lambda>c. c \<noteq> CHR '' ''"
  from assms have sp: "CHR '' '' \<in> set body"
    and m: "m = Report (takeWhile ?P body) (drop (length (takeWhile ?P body) + 1) body)"
    by (auto simp: Report_fromBits_def andThen_Inr_iff Let_def)
  then obtain xs ys where body: "body = xs @ CHR '' '' # ys" and "CHR '' '' \<notin> set xs"
    by (meson split_list_first)
  with m show ?thesis by simp
qed

lemma fromBits_opcode:
  assumes "fromBits en header body = Inr m"
  shows "messageOpcode m = opcode header"
  using assms
  by (auto simp: fromBits_def DhtType_fromBits_def Profile_fromBits_def Start_fromBits_def Report_fromBits_def
      Finish_fromBits_def andThen_Inr_iff Let_def split: if_splits prod.splits)

lemma fromBits_sound:
  assumes "fromBits en header body = Inr m" and "length body = unat (bodySize header)"
  shows "sendable en m \<and> messageHeader en m = header \<and> bodyBytes en m = body"
proof -
  have "bodyBytes en m = body \<and> fieldsFit m \<and> messageOpcode m = opcode header"
    using assms
    by (auto simp: fromBits_def Finish_fromBits_def andThen_Inr_iff split: if_splits
        dest: DhtType_fromBits_sound Profile_fromBits_sound Start_fromBits_sound
          Report_fromBits_sound)
  then show ?thesis
    using assms(2) unat_u32_bound [of "bodySize header"]
    by (auto simp: sendable_def messageHeader_def intro: header_eqI)
qed

section \<open>Properties\<close>

text \<open>
  C7. Round trip of the wire protocol: every message whose body fits the 32-bit size field, whose
  profile strings fit their \<open>int32_t\<close> sizes and whose report type has no space is serialised by
  \<open>toBits\<close> without a failure, and on a host of the same byte order the header read back from the
  first 8 bytes and the rest of the bytes as body give \<open>fromBits\<close> the same message.
\<close>

theorem protocol_roundtrip:
  assumes "sendable en m"
  shows "\<exists>bits. toBits en m = Inr bits
    \<and> unat (bodySize (headerOfBytes en (take headerSize bits))) = length (drop headerSize bits)
    \<and> fromBits en (headerOfBytes en (take headerSize bits)) (drop headerSize bits) = Inr m"
proof -
  have "length (bodyBytes en m) < 4294967296"
    using assms by (simp add: sendable_def)
  then show ?thesis
    using fromBits_layout [OF assms]
    by (simp add: toBits_layout headerSize_def messageHeader_def unat_of_nat_u32)
qed

theorem protocol_roundtrip_witness:
  "sendable LittleEndian (Start 40 ''10.0.0.1'' 0 1)
   \<and> (\<exists>bits. toBits LittleEndian (Start 40 ''10.0.0.1'' 0 1) = Inr bits
       \<and> fromBits LittleEndian (headerOfBytes LittleEndian (take headerSize bits)) (drop headerSize bits)
         = Inr (Start 40 ''10.0.0.1'' 0 1))"
proof -
  have "sendable LittleEndian (Start 40 ''10.0.0.1'' 0 1)"
    by (simp add: sendable_def)
  from this protocol_roundtrip [OF this] show ?thesis by blast
qed

text \<open>
  C23. \<open>fromBits\<close> accepts nothing but the bytes of a message: whenever it returns a message for a
  header and a body of the announced size, that message is a well-formed one and \<open>toBits\<close> of it
  is exactly the header and the body that were parsed.
\<close>

theorem fromBits_canonical:
  assumes "fromBits en header body = Inr m" and "length body = unat (bodySize header)"
  shows "sendable en m \<and> toBits en m = Inr (headerBytes en header @ body)"
  using fromBits_sound [OF assms] by (auto simp: toBits_layout sendable_def)

theorem fromBits_canonical_witness:
  "sendable BigEndian (Report ''JoinLatency'' ''a b'')
   \<and> toBits BigEndian (Report ''JoinLatency'' ''a b'') =
       Inr (headerBytes BigEndian \<lparr>opcode = 4, bodySize = 15\<rparr> @ ''JoinLatency a b'')"
proof -
  have "fromBits BigEndian \<lparr>opcode = 4, bodySize = 15\<rparr> ''JoinLatency a b'' =
      Inr (Report ''JoinLatency'' ''a b'')"
    by (simp add: fromBits_def opcode_defs Report_fromBits_def Let_def)
  from fromBits_canonical [OF this] show ?thesis by simp
qed

text \<open>
  C37. The size field is 32 bits wide and \<open>toBits\<close> allocates its vector from it: for a body of
  2^32 bytes or more the vector is too small and the copies run past its end, for every message
  with that much content; for smaller bodies the result is the header and the documented layout.
\<close>

theorem toBits_fails_iff_body_too_large:
  "(toBits en m = Inl UndefinedBehaviour \<longleftrightarrow> 2 ^ 32 \<le> length (bodyBytes en m))
   \<and> (toBits en m = Inr (headerBytes en (messageHeader en m) @ bodyBytes en m)
        \<longleftrightarrow> length (bodyBytes en m) < 2 ^ 32)"
  by (simp add: toBits_layout)

text \<open>
  C16. The casts to subclasses are safe: the class of what \<open>fromBits\<close> returns is the one of the header's
  opcode, so after the callers' test of the opcode the accessors of that class are defined, and every
  accessor of another class would be undefined behaviour.
\<close>

theorem message_casts:
  assumes "fromBits en header body = Inr m"
  shows "messageOpcode m = opcode header
    \<and> ((\<exists>type. getType m = Inr type) \<longleftrightarrow> opcode header = opcode_DhtType)
    \<and> ((\<exists>profiles. Message_getProfiles m = Inr profiles) \<longleftrightarrow> opcode header = opcode_Profile)
    \<and> ((\<exists>d host entryOffset selfOffset. Start_duration m = Inr d \<and> Start_entryPointHost m = Inr host
          \<and> Start_entryPointPortOffset m = Inr entryOffset \<and> Start_selfPortOffset m = Inr selfOffset)
        \<longleftrightarrow> opcode header = opcode_Start)
    \<and> ((\<exists>type val. Report_type m = Inr type \<and> Report_value m = Inr val) \<longleftrightarrow> opcode header = opcode_Report)"
proof -
  have "messageOpcode m = opcode header"
    using assms by (rule fromBits_opcode)
  then show ?thesis
    by (cases m) (simp_all add: opcode_defs eq_commute [of _ "opcode header"])
qed

theorem message_casts_witness:
  "\<exists>m. fromBits LittleEndian \<lparr>opcode = opcode_Report, bodySize = 15\<rparr> ''JoinLatency a b'' = Inr m
     \<and> Report_type m = Inr ''JoinLatency'' \<and> Report_value m = Inr ''a b'' \<and> \<not> (\<exists>type. getType m = Inr type)"
proof -
  let ?h = "\<lparr>opcode = opcode_Report, bodySize = 15\<rparr>"
  have m: "fromBits LittleEndian ?h ''JoinLatency a b'' = Inr (Report ''JoinLatency'' ''a b'')"
    by (simp add: fromBits_def opcode_defs Report_fromBits_def Let_def)
  from message_casts [OF this] have "\<not> (\<exists>type. getType (Report ''JoinLatency'' ''a b'') = Inr type)"
    by (simp add: opcode_defs)
  with m show ?thesis
    by simp
qed

text \<open>
  The structs are copied in host byte order, so hosts of different byte order do not
  understand each other: the header of any message written on one is read on the other with an
  opcode that \<open>fromBits\<close> rejects, whatever the body.
\<close>

lemma mixed_endian_rejected:
  "fromBits BigEndian (headerOfBytes BigEndian (headerBytes LittleEndian (messageHeader en m))) body
     = Inl ExitFailure
   \<and> fromBits LittleEndian (headerOfBytes LittleEndian (headerBytes BigEndian (messageHeader en m))) body
     = Inl ExitFailure"
proof -
  have "u32Value BigEndian (u32Bytes LittleEndian (messageOpcode m)) \<notin> {1, 2, 3, 4, 5}"
    and "u32Value LittleEndian (u32Bytes BigEndian (messageOpcode m)) \<notin> {1, 2, 3, 4, 5}"
    by (cases m; simp add: opcode_defs u32Bytes_def u32Value_def leBytes_4 of_char_of)+
  then show ?thesis
    by (auto simp: fromBits_def headerOfBytes_def headerBytes_def messageHeader_def opcode_defs)
qed

end
