(* ===== verification/PriorityQueue.thy ===== *)
theory PriorityQueue
  imports Prelude
begin

text \<open>
  \<open>std::priority_queue<T, std::vector<T>, std::greater<T> >\<close>, the container behind \<open>EventQueue\<close>.
  The C++ standard defines it by the binary heap operations on the vector (\<open>push_back\<close> and
  \<open>push_heap\<close>, \<open>pop_heap\<close> and \<open>pop_back\<close>) with \<open>operator>\<close> as the comparison, which compares one
  key of the elements (the time of an event). The standard leaves the order of elements with equal
  keys open, so the clients use the interface \<open>priority_queue\<close> below, whose laws do not mention it.
\<close>

section \<open>The interface\<close>

locale priority_queue =
  fixes empty :: "'q" and isEmpty :: "'q \<Rightarrow> bool" and push :: "'a \<Rightarrow> 'q \<Rightarrow> 'q"
    and top :: "'q \<Rightarrow> 'a" and pop :: "'q \<Rightarrow> 'q"
    and key :: "'a \<Rightarrow> 'k::linorder" and valid :: "'q \<Rightarrow> bool" and elems :: "'q \<Rightarrow> 'a multiset"
  assumes valid_empty: "valid empty"
    and elems_empty: "elems empty = {#}"
    and isEmpty_iff: "valid q \<Longrightarrow> isEmpty q \<longleftrightarrow> elems q = {#}"
    and valid_push: "valid q \<Longrightarrow> valid (push x q)"
    and elems_push: "valid q \<Longrightarrow> elems (push x q) = add_mset x (elems q)"
    and top_in: "valid q \<Longrightarrow> elems q \<noteq> {#} \<Longrightarrow> top q \<in># elems q"
    and top_least: "valid q \<Longrightarrow> x \<in># elems q \<Longrightarrow> key (top q) \<le> key x"
    and valid_pop: "valid q \<Longrightarrow> elems q \<noteq> {#} \<Longrightarrow> valid (pop q)"
    and elems_pop: "valid q \<Longrightarrow> elems q \<noteq> {#} \<Longrightarrow> elems (pop q) = elems q - {#top q#}"
begin

lemma size_pop: "valid q \<Longrightarrow> elems q \<noteq> {#} \<Longrightarrow> size (elems (pop q)) < size (elems q)"
  by (simp add: elems_pop top_in size_Diff1_less)

text \<open>
  A loop that pops while the key of the top is at most a limit takes exactly the elements up to the
  limit, in the order of their keys, and leaves the others. The loop is given by its equation.
\<close>

lemma drain_correct:
  assumes loop: "\<And>q. valid q \<Longrightarrow>
      f q = (if \<not> isEmpty q \<and> key (top q) \<le> limit
             then (top q # fst (f (pop q)), snd (f (pop q))) else ([], q))"
    and "valid q"
  shows "mset (fst (f q)) = filter_mset (\<lambda>x. key x \<le> limit) (elems q)
    \<and> sorted (map key (fst (f q)))
    \<and> valid (snd (f q)) \<and> elems (snd (f q)) = filter_mset (\<lambda>x. limit < key x) (elems q)"
  using \<open>valid q\<close>
proof (induction "size (elems q)" arbitrary: q rule: less_induct)
  case less
  show ?case
  proof (cases "\<not> isEmpty q \<and> key (top q) \<le> limit")
    case True
    then have ne: "elems q \<noteq> {#}" and le: "key (top q) \<le> limit"
      using less.prems by (simp_all add: isEmpty_iff)
    define E where "E = elems q - {#top q#}"
    have q: "elems q = add_mset (top q) E" and p: "elems (pop q) = E"
      using less.prems ne by (simp_all add: E_def top_in elems_pop)
    have rest: "fst (f q) = top q # fst (f (pop q))" "snd (f q) = snd (f (pop q))"
      using loop [OF less.prems] True by simp_all
    have ih: "mset (fst (f (pop q))) = filter_mset (\<lambda>x. key x \<le> limit) E"
        "sorted (map key (fst (f (pop q))))" "valid (snd (f (pop q)))"
        "elems (snd (f (pop q))) = filter_mset (\<lambda>x. limit < key x) E"
      using less.hyps [of "pop q"] size_pop [OF less.prems ne] valid_pop [OF less.prems ne] p
      by simp_all
    have "key (top q) \<le> key y" if "y \<in> set (fst (f (pop q)))" for y
    proof -
      have "y \<in># mset (fst (f (pop q)))"
        using that by simp
      then have "y \<in># E"
        unfolding ih by simp
      then show ?thesis
        using less.prems q top_least by simp
    qed
    then show ?thesis
      using rest ih q le by simp
  next
    case False
    then have "f q = ([], q)" and none: "elems q = {#} \<or> limit < key (top q)"
      using loop [OF less.prems] less.prems by (auto simp: isEmpty_iff)
    have late: "limit < key x" if "x \<in># elems q" for x
      using none that top_least [OF less.prems that] by auto
    then have "filter_mset (\<lambda>x. limit < key x) (elems q) = elems q"
      by (simp add: filter_mset_eq_conv)
    then show ?thesis
      using less.prems late \<open>f q = ([], q)\<close> by (auto simp: filter_mset_eq_mempty_iff not_le)
  qed
qed

end

section \<open>Binary heaps on vectors\<close>

definition parent :: "nat \<Rightarrow> nat" where
  "parent i = (i - 1) div 2"

definition swapAt :: "'a list \<Rightarrow> nat \<Rightarrow> nat \<Rightarrow> 'a list" where
  "swapAt h i j = h[i := h ! j, j := h ! i]"

function siftUp :: "('a \<Rightarrow> 'k::linorder) \<Rightarrow> 'a list \<Rightarrow> nat \<Rightarrow> 'a list" where
  "siftUp f h i =
     (if 0 < i \<and> f (h ! i) < f (h ! parent i) then siftUp f (swapAt h i (parent i)) (parent i) else h)"
  by pat_completeness auto
termination
  by (relation "measure (\<lambda>(f, h, i). i)") (auto simp: parent_def)

declare siftUp.simps [simp del]

definition smallerChild :: "('a \<Rightarrow> 'k::linorder) \<Rightarrow> 'a list \<Rightarrow> nat \<Rightarrow> nat" where
  "smallerChild f h i =
     (if 2 * i + 2 < length h \<and> f (h ! (2 * i + 2)) < f (h ! (2 * i + 1)) then 2 * i + 2 else 2 * i + 1)"

lemma length_swapAt [simp]: "length (swapAt h i j) = length h"
  by (simp add: swapAt_def)

lemma smallerChild_greater: "i < smallerChild f h i"
  by (simp add: smallerChild_def)

function siftDown :: "('a \<Rightarrow> 'k::linorder) \<Rightarrow> 'a list \<Rightarrow> nat \<Rightarrow> 'a list" where
  "siftDown f h i =
     (let c = smallerChild f h i
      in if 2 * i + 1 < length h \<and> f (h ! c) < f (h ! i) then siftDown f (swapAt h i c) c else h)"
  by pat_completeness auto
termination
  by (relation "measure (\<lambda>(f, h, i). length h - i)")
    (auto simp: intro!: diff_less_mono2 smallerChild_greater)

declare siftDown.simps [simp del]

definition heapPush :: "('a \<Rightarrow> 'k::linorder) \<Rightarrow> 'a \<Rightarrow> 'a list \<Rightarrow> 'a list" where
  "heapPush f x h = siftUp f (h @ [x]) (length h)"

text \<open>\<open>pop_heap\<close> swaps the first element with the last one, which \<open>pop_back\<close> removes.\<close>

definition heapPop :: "('a \<Rightarrow> 'k::linorder) \<Rightarrow> 'a list \<Rightarrow> 'a list" where
  "heapPop f h = siftDown f (butlast (swapAt h 0 (length h - 1))) 0"

section \<open>Correctness of the heap\<close>

definition isHeap :: "('a \<Rightarrow> 'k::linorder) \<Rightarrow> 'a list \<Rightarrow> bool" where
  "isHeap f h \<longleftrightarrow> (\<forall>j. 0 < j \<longrightarrow> j < length h \<longrightarrow> f (h ! parent j) \<le> f (h ! j))"

text \<open>A heap but for the edge above \<open>i\<close>, respectively the edges below \<open>i\<close>.\<close>

definition heapButUp :: "('a \<Rightarrow> 'k::linorder) \<Rightarrow> 'a list \<Rightarrow> nat \<Rightarrow> bool" where
  "heapButUp f h i \<longleftrightarrow> (\<forall>j. 0 < j \<longrightarrow> j < length h \<longrightarrow>
     (j \<noteq> i \<longrightarrow> f (h ! parent j) \<le> f (h ! j)) \<and>
     (parent j = i \<longrightarrow> 0 < i \<longrightarrow> f (h ! parent i) \<le> f (h ! j)))"

definition heapButDown :: "('a \<Rightarrow> 'k::linorder) \<Rightarrow> 'a list \<Rightarrow> nat \<Rightarrow> bool" where
  "heapButDown f h i \<longleftrightarrow> (\<forall>j. 0 < j \<longrightarrow> j < length h \<longrightarrow>
     (parent j \<noteq> i \<longrightarrow> f (h ! parent j) \<le> f (h ! j)) \<and>
     (parent j = i \<longrightarrow> 0 < i \<longrightarrow> f (h ! parent i) \<le> f (h ! j)))"

lemma parent_less: "0 < j \<Longrightarrow> parent j < j"
  by (simp add: parent_def)

lemma parent_eq_iff: "0 < j \<Longrightarrow> parent j = i \<longleftrightarrow> j = 2 * i + 1 \<or> j = 2 * i + 2"
  by (auto simp: parent_def)

lemma nth_swapAt:
  "i < length h \<Longrightarrow> j < length h \<Longrightarrow>
   swapAt h i j ! k = (if k = i then h ! j else if k = j then h ! i else h ! k)"
  by (auto simp: swapAt_def nth_list_update)

lemma mset_swapAt: "i < length h \<Longrightarrow> j < length h \<Longrightarrow> mset (swapAt h i j) = mset h"
  unfolding swapAt_def by (metis mset_swap)

lemma smallerChild_less: "2 * i + 1 < length h \<Longrightarrow> smallerChild f h i < length h"
  by (simp add: smallerChild_def)

lemma smallerChild_least:
  "0 < j \<Longrightarrow> j < length h \<Longrightarrow> parent j = i \<Longrightarrow> f (h ! smallerChild f h i) \<le> f (h ! j)"
  by (auto simp: smallerChild_def parent_eq_iff)

lemma parent_smallerChild: "parent (smallerChild f h i) = i"
  by (simp add: smallerChild_def parent_def)

lemma siftUp_step:
  assumes "heapButUp f h i" and "i < length h" and "0 < i" and "f (h ! i) < f (h ! parent i)"
  shows "heapButUp f (swapAt h i (parent i)) (parent i)"
  unfolding heapButUp_def
proof (intro allI impI conjI)
  fix j
  assume j: "0 < j" "j < length (swapAt h i (parent i))"
  have p: "parent i < i" "parent i < length h"
    using assms parent_less [of i] by auto
  have edge: "f (h ! parent k) \<le> f (h ! k)" if "0 < k" "k < length h" "k \<noteq> i" for k
    using assms(1) that by (simp add: heapButUp_def)
  have over: "f (h ! parent i) \<le> f (h ! k)" if "0 < k" "k < length h" "parent k = i" for k
    using assms(1,3) that by (simp add: heapButUp_def)
  show "f (swapAt h i (parent i) ! parent j) \<le> f (swapAt h i (parent i) ! j)" if "j \<noteq> parent i"
    using j that p assms(2,4) edge [of j] over [of j] parent_less [of j]
    by (auto simp: nth_swapAt)
  show "f (swapAt h i (parent i) ! parent (parent i)) \<le> f (swapAt h i (parent i) ! j)"
    if "parent j = parent i" "0 < parent i"
    using j that p assms(2) edge [of j] edge [of "parent i"] parent_less [of "parent i"]
    by (auto simp: nth_swapAt)
qed

lemma siftUp_correct:
  assumes "heapButUp f h i" and "i < length h"
  shows "isHeap f (siftUp f h i) \<and> mset (siftUp f h i) = mset h"
  using assms
proof (induction f h i rule: siftUp.induct)
  case (1 f h i)
  show ?case
  proof (cases "0 < i \<and> f (h ! i) < f (h ! parent i)")
    case True
    with "1.prems" have "parent i < length h"
      using parent_less [of i] by simp
    with True "1.IH" "1.prems" show ?thesis
      by (simp add: siftUp.simps [of f h i] siftUp_step mset_swapAt)
  next
    case False
    then have "f (h ! parent i) \<le> f (h ! i)" if "0 < i"
      using that by auto
    with False "1.prems" show ?thesis
      by (auto simp: siftUp.simps [of f h i] heapButUp_def isHeap_def)
  qed
qed

lemma siftDown_step:
  assumes "heapButDown f h i" and "2 * i + 1 < length h" and "c = smallerChild f h i"
    and "f (h ! c) < f (h ! i)"
  shows "heapButDown f (swapAt h i c) c"
  unfolding heapButDown_def
proof (intro allI impI conjI)
  fix j
  assume j: "0 < j" "j < length (swapAt h i c)"
  have c: "i < c" "c < length h" "parent c = i"
    using assms(2,3) by (simp_all add: smallerChild_greater smallerChild_less parent_smallerChild)
  have edge: "f (h ! parent k) \<le> f (h ! k)" if "0 < k" "k < length h" "parent k \<noteq> i" for k
    using assms(1) that by (simp add: heapButDown_def)
  have over: "f (h ! parent i) \<le> f (h ! k)" if "0 < k" "k < length h" "parent k = i" "0 < i" for k
    using assms(1) that by (simp add: heapButDown_def)
  have least: "f (h ! c) \<le> f (h ! k)" if "0 < k" "k < length h" "parent k = i" for k
    using smallerChild_least [OF that] assms(3) by simp
  show "f (swapAt h i c ! parent j) \<le> f (swapAt h i c ! j)" if "parent j \<noteq> c"
    using j that c assms(4) edge [of j] over [of c] least [of j] parent_less [of j]
    by (auto simp: nth_swapAt)
  show "f (swapAt h i c ! parent c) \<le> f (swapAt h i c ! j)" if "parent j = c"
    using j that c edge [of j] parent_less [of j] by (auto simp: nth_swapAt)
qed

lemma siftDown_stop:
  assumes "heapButDown f h i" and "\<not> (2 * i + 1 < length h \<and> f (h ! smallerChild f h i) < f (h ! i))"
  shows "isHeap f h"
  unfolding isHeap_def
proof (intro allI impI)
  fix j
  assume j: "0 < j" "j < length h"
  show "f (h ! parent j) \<le> f (h ! j)"
  proof (cases "parent j = i")
    case True
    then have "2 * i + 1 < length h"
      using j by (auto simp: parent_eq_iff)
    then have "f (h ! i) \<le> f (h ! smallerChild f h i)"
      using assms(2) by auto
    with smallerChild_least [OF j True] True show ?thesis
      using order.trans by blast
  qed (use assms(1) j in \<open>auto simp: heapButDown_def\<close>)
qed

lemma siftDown_correct:
  assumes "heapButDown f h i"
  shows "isHeap f (siftDown f h i) \<and> mset (siftDown f h i) = mset h"
  using assms
proof (induction f h i rule: siftDown.induct)
  case (1 f h i)
  let ?c = "smallerChild f h i"
  show ?case
  proof (cases "2 * i + 1 < length h \<and> f (h ! ?c) < f (h ! i)")
    case True
    then have "?c < length h" and "i < length h"
      by (simp_all add: smallerChild_less)
    with True "1.IH" "1.prems" show ?thesis
      by (simp add: siftDown.simps [of f h i] Let_def siftDown_step mset_swapAt)
  next
    case False
    then have "siftDown f h i = h"
      by (auto simp: siftDown.simps [of f h i] Let_def)
    with siftDown_stop [OF "1.prems" False] show ?thesis by simp
  qed
qed

lemma isHeap_root: "isHeap f h \<Longrightarrow> i < length h \<Longrightarrow> f (h ! 0) \<le> f (h ! i)"
proof (induction i rule: less_induct)
  case (less i)
  show ?case
  proof (cases "i = 0")
    case False
    then have "f (h ! 0) \<le> f (h ! parent i)" and "f (h ! parent i) \<le> f (h ! i)"
      using less parent_less [of i] by (auto simp: isHeap_def)
    then show ?thesis by (rule order.trans)
  qed simp
qed

lemma heapPush_correct:
  assumes "isHeap f h"
  shows "isHeap f (heapPush f x h) \<and> mset (heapPush f x h) = add_mset x (mset h)"
proof -
  have "heapButUp f (h @ [x]) (length h)"
    unfolding heapButUp_def
  proof (intro allI impI conjI)
    fix j
    assume j: "0 < j" "j < length (h @ [x])"
    show "f ((h @ [x]) ! parent j) \<le> f ((h @ [x]) ! j)" if "j \<noteq> length h"
      using assms j that parent_less [of j] by (auto simp: isHeap_def nth_append)
    show "f ((h @ [x]) ! parent (length h)) \<le> f ((h @ [x]) ! j)" if "parent j = length h"
      using j that parent_less [of j] by simp
  qed
  from siftUp_correct [OF this] show ?thesis
    by (simp add: heapPush_def)
qed

lemma heapPop_correct:
  assumes "isHeap f h" and "h \<noteq> []"
  shows "isHeap f (heapPop f h) \<and> mset (heapPop f h) = mset h - {#h ! 0#}"
proof -
  let ?n = "length h - 1"
  define s where "s = swapAt h 0 ?n"
  let ?g = "butlast s"
  have n: "?n < length h" "0 < length h" and len: "length s = length h"
    using assms(2) by (simp_all add: s_def)
  have s_nth: "s ! k = (if k = 0 then h ! ?n else if k = ?n then h ! 0 else h ! k)" for k
    using n by (simp add: s_def nth_swapAt)
  have "s \<noteq> []"
    using n len by auto
  then have "last s = h ! 0"
    using n len s_nth by (simp add: last_conv_nth)
  then have "mset s = add_mset (h ! 0) (mset ?g)"
    using append_butlast_last_id [OF \<open>s \<noteq> []\<close>]
    by (metis add_mset_add_single mset_append mset_single_iff_right)
  moreover have "mset s = mset h"
    using n by (simp add: s_def mset_swapAt)
  moreover have "heapButDown f ?g 0"
    unfolding heapButDown_def
  proof (intro allI impI conjI)
    fix j
    assume j: "0 < j" "j < length ?g"
    show "f (?g ! parent j) \<le> f (?g ! j)" if "parent j \<noteq> 0"
      using assms(1) j that len parent_less [of j] by (simp add: isHeap_def nth_butlast s_nth)
  qed simp
  ultimately show ?thesis
    using siftDown_correct [of f ?g 0] add_mset_remove_trivial [of "h ! 0" "mset ?g"]
    by (simp add: heapPop_def s_def)
qed

interpretation heap: priority_queue "[]" "\<lambda>h. h = []" "heapPush f" "\<lambda>h. h ! 0" "heapPop f"
    f "isHeap f" mset for f :: "'a \<Rightarrow> 'k::linorder"
proof
  show "isHeap f []"
    by (simp add: isHeap_def)
  show "mset q \<noteq> {#} \<Longrightarrow> q ! 0 \<in># mset q" for q :: "'a list"
    by simp
  show "isHeap f q \<Longrightarrow> x \<in># mset q \<Longrightarrow> f (q ! 0) \<le> f x" for q x
    by (metis in_set_conv_nth isHeap_root set_mset_mset)
qed (simp_all add: heapPush_correct heapPop_correct)

end
