(* ===== verification/Events.thy ===== *)
theory Events
  imports Protocol PriorityQueue
begin

text \<open>
  The DHT operations of \<open>src/src/common.h\<close>, the event classes of \<open>src/src/events.h\<close> and
  \<open>events.cpp\<close>, and the class template \<open>EventQueue\<close>. The four event classes derive from \<open>DhtEvent\<close>
  and are the constructors of one datatype; a template instance holds events of one of them.
\<close>

section \<open>Operations and events\<close>

datatype DhtOperation = Join | Leave | Put | Get

text \<open>The enumeration as a finite type, so that statements over all operations compute.\<close>

instantiation DhtOperation :: enum
begin

definition enum_DhtOperation :: "DhtOperation list" where
  "enum_DhtOperation = [Join, Leave, Put, Get]"

definition enum_all_DhtOperation :: "(DhtOperation \<Rightarrow> bool) \<Rightarrow> bool" where
  "enum_all_DhtOperation P \<longleftrightarrow> P Join \<and> P Leave \<and> P Put \<and> P Get"

definition enum_ex_DhtOperation :: "(DhtOperation \<Rightarrow> bool) \<Rightarrow> bool" where
  "enum_ex_DhtOperation P \<longleftrightarrow> P Join \<or> P Leave \<or> P Put \<or> P Get"

instance
proof
  show univ: "(UNIV :: DhtOperation set) = set enum_class.enum"
    by (auto simp: enum_DhtOperation_def intro: DhtOperation.exhaust)
  show "distinct (enum_class.enum :: DhtOperation list)"
    by (simp add: enum_DhtOperation_def)
  show "enum_class.enum_all P = Ball UNIV P" for P :: "DhtOperation \<Rightarrow> bool"
    unfolding univ by (simp add: enum_DhtOperation_def enum_all_DhtOperation_def)
  show "enum_class.enum_ex P = Bex UNIV P" for P :: "DhtOperation \<Rightarrow> bool"
    unfolding univ by (simp add: enum_DhtOperation_def enum_ex_DhtOperation_def)
qed

end

datatype DhtEvent =
    DhtJoinEvent (time: timeUnit)
  | DhtLeaveEvent (time: timeUnit)
  | DhtPutEvent (time: timeUnit) (key: string) (val: string)
  | DhtGetEvent (time: timeUnit) (key: string)

text \<open>The class of an event, that is the argument \<open>T\<close> of the template whose queue may hold it.\<close>

fun eventKind :: "DhtEvent \<Rightarrow> DhtOperation" where
  "eventKind (DhtJoinEvent t) = Join"
| "eventKind (DhtLeaveEvent t) = Leave"
| "eventKind (DhtPutEvent t k v) = Put"
| "eventKind (DhtGetEvent t k) = Get"

definition DhtEvent_greater :: "DhtEvent \<Rightarrow> DhtEvent \<Rightarrow> bool" where
  "DhtEvent_greater a b \<longleftrightarrow> time a > time b"

section \<open>EventQueue\<close>

type_synonym EventQueue = "DhtEvent list"

definition EventQueue_empty :: EventQueue where
  "EventQueue_empty = []"

definition EventQueue_push :: "DhtEvent \<Rightarrow> EventQueue \<Rightarrow> EventQueue" where
  "EventQueue_push element queue = heapPush time element queue"

text \<open>\<open>pop()\<close> is called on a queue that is not empty only.\<close>

definition EventQueue_pop :: "EventQueue \<Rightarrow> DhtEvent \<times> EventQueue" where
  "EventQueue_pop queue = (queue ! 0, heapPop time queue)"

definition getNextEventTime :: "EventQueue \<Rightarrow> timeUnit" where
  "getNextEventTime queue = (if queue = [] then 0 else time (queue ! 0))"

lemma length_siftDown [simp]: "length (siftDown f h i) = length h"
proof (induction f h i rule: siftDown.induct)
  case (1 f h i)
  then show ?case
    by (subst siftDown.simps) (simp add: Let_def)
qed

lemma length_heapPop [simp]: "length (heapPop f h) = length h - 1"
  by (simp add: heapPop_def)

function popEvents :: "EventQueue \<Rightarrow> timeUnit \<Rightarrow> DhtEvent list \<times> EventQueue" where
  "popEvents queue currentTime =
     (if queue \<noteq> [] \<and> time (queue ! 0) \<le> currentTime
      then (let (e, queue') = EventQueue_pop queue;
                (ret, queue'') = popEvents queue' currentTime
            in (e # ret, queue''))
      else ([], queue))"
  by pat_completeness auto
termination
  by (relation "measure (\<lambda>(queue, currentTime). length queue)") (auto simp: EventQueue_pop_def)

declare popEvents.simps [simp del]

definition validQueue :: "EventQueue \<Rightarrow> bool" where
  "validQueue queue \<longleftrightarrow> isHeap time queue"

section \<open>The interface of the queue to the profiles\<close>

locale event_queue =
  fixes empty :: "'q" and push :: "'e \<Rightarrow> 'q \<Rightarrow> 'q" and nextTime :: "'q \<Rightarrow> timeUnit"
    and popUpTo :: "'q \<Rightarrow> timeUnit \<Rightarrow> 'e list \<times> 'q"
    and due :: "'e \<Rightarrow> timeUnit" and valid :: "'q \<Rightarrow> bool" and pending :: "'q \<Rightarrow> 'e multiset"
  assumes valid_empty: "valid empty" and pending_empty: "pending empty = {#}"
    and valid_push: "valid q \<Longrightarrow> valid (push e q)"
    and pending_push: "valid q \<Longrightarrow> pending (push e q) = add_mset e (pending q)"
    and next_empty: "valid q \<Longrightarrow> pending q = {#} \<Longrightarrow> nextTime q = 0"
    and next_in: "valid q \<Longrightarrow> pending q \<noteq> {#} \<Longrightarrow> \<exists>e. e \<in># pending q \<and> due e = nextTime q"
    and next_least: "valid q \<Longrightarrow> e \<in># pending q \<Longrightarrow> nextTime q \<le> due e"
    and pop_taken: "valid q \<Longrightarrow> popUpTo q t = (es, q') \<Longrightarrow> mset es = filter_mset (\<lambda>e. due e \<le> t) (pending q)"
    and pop_sorted: "valid q \<Longrightarrow> popUpTo q t = (es, q') \<Longrightarrow> sorted (map due es)"
    and pop_rest: "valid q \<Longrightarrow> popUpTo q t = (es, q') \<Longrightarrow>
          valid q' \<and> pending q' = filter_mset (\<lambda>e. t < due e) (pending q)"
begin

lemma next_zero_iff:
  assumes "valid q" and "\<And>e. e \<in># pending q \<Longrightarrow> 0 < due e"
  shows "nextTime q = 0 \<longleftrightarrow> pending q = {#}"
  using assms next_empty next_in by fastforce

text \<open>After the events up to \<open>t\<close> are taken, the queue is empty or its next event is later than \<open>t\<close>.\<close>

lemma next_after_pop:
  assumes "valid q" and "popUpTo q t = (es, q')"
  shows "nextTime q' = 0 \<or> t < nextTime q'"
proof (cases "pending q' = {#}")
  case False
  have "valid q'" and "pending q' = filter_mset (\<lambda>e. t < due e) (pending q)"
    using pop_rest [OF assms] by simp_all
  with next_in [OF _ False] show ?thesis by auto
next
  case True
  with pop_rest [OF assms] next_empty show ?thesis by simp
qed

lemma pop_none:
  assumes "valid q" and "t < nextTime q" and "popUpTo q t = (es, q')"
  shows "es = [] \<and> pending q' = pending q"
proof -
  have late: "t < due e" if "e \<in># pending q" for e
    using next_least [OF assms(1) that] assms(2) by simp
  then have "mset es = {#}"
    using pop_taken [OF assms(1,3)] by (auto simp: filter_mset_eq_mempty_iff not_le)
  moreover have "pending q' = pending q"
    using pop_rest [OF assms(1,3)] late by (simp add: filter_mset_eq_conv)
  ultimately show ?thesis by simp
qed

text \<open>Taking the events in two visits takes the same events as one visit at the later time.\<close>

lemma pop_twice:
  assumes "valid q" and "t \<le> u" and "popUpTo q t = (es, q')" and "popUpTo q' u = (fs, q'')"
  shows "mset (es @ fs) = filter_mset (\<lambda>e. due e \<le> u) (pending q)"
    and "pending q'' = filter_mset (\<lambda>e. u < due e) (pending q)"
proof -
  note r = pop_rest [OF assms(1,3)]
  have "filter_mset (\<lambda>e. due e \<le> u) (pending q) =
      filter_mset (\<lambda>e. due e \<le> t) (pending q) + filter_mset (\<lambda>e. due e \<le> u \<and> t < due e) (pending q)"
    using assms(2) by (intro multiset_eqI) auto
  moreover have "mset fs = filter_mset (\<lambda>e. due e \<le> u \<and> t < due e) (pending q)"
    using pop_taken [of q' u fs q''] r assms(4) by (simp add: filter_filter_mset conj_commute)
  ultimately show "mset (es @ fs) = filter_mset (\<lambda>e. due e \<le> u) (pending q)"
    using pop_taken [OF assms(1,3)] by simp
  show "pending q'' = filter_mset (\<lambda>e. u < due e) (pending q)"
    using pop_rest [of q' u fs q''] r assms(2,4)
    by (auto simp: filter_filter_mset intro!: filter_mset_cong)
qed

end

lemma popEvents_heap:
  assumes "validQueue q"
  shows "mset (fst (popEvents q t)) = filter_mset (\<lambda>e. time e \<le> t) (mset q)
    \<and> sorted (map time (fst (popEvents q t)))
    \<and> validQueue (snd (popEvents q t))
    \<and> mset (snd (popEvents q t)) = filter_mset (\<lambda>e. t < time e) (mset q)"
  unfolding validQueue_def
proof (rule heap.drain_correct)
  show "isHeap time q"
    using assms by (simp add: validQueue_def)
  show "popEvents q t =
      (if q \<noteq> [] \<and> time (q ! 0) \<le> t
       then (q ! 0 # fst (popEvents (heapPop time q) t), snd (popEvents (heapPop time q) t))
       else ([], q))" for q
    by (subst popEvents.simps) (simp add: EventQueue_pop_def split_def Let_def)
qed

interpretation evq: event_queue EventQueue_empty EventQueue_push getNextEventTime popEvents
    time validQueue mset
proof
  show "validQueue EventQueue_empty" "mset EventQueue_empty = {#}"
    by (simp_all add: validQueue_def EventQueue_empty_def heap.valid_empty)
  show "validQueue q \<Longrightarrow> validQueue (EventQueue_push e q)"
      "validQueue q \<Longrightarrow> mset (EventQueue_push e q) = add_mset e (mset q)" for e q
    by (simp_all add: validQueue_def EventQueue_push_def heapPush_correct)
  show "mset q = {#} \<Longrightarrow> getNextEventTime q = 0" for q
    by (simp add: getNextEventTime_def)
  show "mset q \<noteq> {#} \<Longrightarrow> \<exists>e. e \<in># mset q \<and> time e = getNextEventTime q" for q
    by (auto simp: getNextEventTime_def intro: exI [of _ "q ! 0"])
  show "validQueue q \<Longrightarrow> e \<in># mset q \<Longrightarrow> getNextEventTime q \<le> time e" for q e
    using heap.top_least [of time q e] by (auto simp: getNextEventTime_def validQueue_def)
qed (use popEvents_heap in \<open>force simp: prod_eq_iff\<close>)+

section \<open>Properties\<close>

text \<open>
  C14. \<open>popEvents\<close> on the binary heap of the standard library returns exactly the events that are due,
  in order of time, and leaves exactly the others, in a heap again; a push adds one event.
\<close>

theorem popEvents_due_sorted:
  assumes "validQueue queue"
  shows "mset (fst (popEvents queue t)) = filter_mset (\<lambda>e. time e \<le> t) (mset queue)
    \<and> sorted (map time (fst (popEvents queue t)))
    \<and> validQueue (snd (popEvents queue t))
    \<and> mset (snd (popEvents queue t)) = filter_mset (\<lambda>e. t < time e) (mset queue)
    \<and> validQueue (EventQueue_push e queue) \<and> mset (EventQueue_push e queue) = add_mset e (mset queue)"
  using popEvents_heap [OF assms] evq.valid_push [OF assms] evq.pending_push [OF assms] by blast

theorem popEvents_due_sorted_witness:
  "mset (fst (popEvents (EventQueue_push (DhtJoinEvent 3) (EventQueue_push (DhtJoinEvent 9) EventQueue_empty)) 5))
     = {#DhtJoinEvent 3#}"
proof -
  have "validQueue (EventQueue_push (DhtJoinEvent 3) (EventQueue_push (DhtJoinEvent 9) EventQueue_empty))"
    by (intro evq.valid_push evq.valid_empty)
  from popEvents_due_sorted [OF this, of 5] show ?thesis
    by (simp add: evq.pending_push evq.valid_push evq.valid_empty evq.pending_empty)
qed

text \<open>
  \<open>getNextEventTime\<close> is the earliest time in the queue, and 0 for an empty queue, so that an
  event at time 0 and an empty queue look the same: the answer is not 0 exactly when there are
  events and all of them are later than 0.
\<close>

lemma getNextEventTime_earliest:
  assumes "validQueue queue"
  shows "(getNextEventTime queue \<noteq> 0 \<longleftrightarrow> queue \<noteq> [] \<and> (\<forall>e \<in> set queue. time e \<noteq> 0))
    \<and> (queue \<noteq> [] \<longrightarrow> getNextEventTime queue = Min (time ` set queue))"
proof -
  have least: "getNextEventTime queue \<le> time e" if "e \<in> set queue" for e
    using evq.next_least [OF assms] that by simp
  have attained: "\<exists>e \<in> set queue. time e = getNextEventTime queue" if "queue \<noteq> []"
    using evq.next_in [OF assms] that by auto
  have "getNextEventTime queue = 0" if "queue = []"
    using that by (simp add: getNextEventTime_def)
  moreover have "getNextEventTime queue = Min (time ` set queue)" if "queue \<noteq> []"
    using attained [OF that] least
    by (intro Min_eqI [symmetric]) (auto intro: rev_image_eqI)
  ultimately show ?thesis
    using least attained by (metis word_le_0_iff)
qed

lemma getNextEventTime_earliest_witness:
  "getNextEventTime (EventQueue_push (DhtJoinEvent 0) EventQueue_empty) = 0
   \<and> EventQueue_push (DhtJoinEvent 0) EventQueue_empty \<noteq> []"
proof -
  have push: "EventQueue_push (DhtJoinEvent 0) EventQueue_empty = [DhtJoinEvent 0]"
    by code_simp
  have "validQueue (EventQueue_push (DhtJoinEvent 0) EventQueue_empty)"
    by (intro evq.valid_push evq.valid_empty)
  from getNextEventTime_earliest [OF this] show ?thesis
    by (simp add: push)
qed

end
