(* ===== verification/Decimal.thy ===== *)
theory Decimal
  imports Prelude
begin

text \<open>
  Decimal text of the C and C++ standard library: \<open>operator<<\<close> on integers, the conversion \<open>%d\<close> of
  \<open>sscanf\<close> and \<open>operator>>\<close> of a \<open>std::stringstream\<close>. The program uses them for time strings, for
  the counters it reports and for the ports in the commands it writes.
\<close>

section \<open>Printing\<close>

definition digitChar :: "nat \<Rightarrow> char" where
  "digitChar d = char_of (48 + d)"

definition digitVal :: "char \<Rightarrow> nat" where
  "digitVal c = of_char c - 48"

fun showNat :: "nat \<Rightarrow> string" where
  "showNat n = (if n < 10 then [digitChar n] else showNat (n div 10) @ [digitChar (n mod 10)])"

declare showNat.simps [simp del]

definition showInt :: "int \<Rightarrow> string" where
  "showInt i = (if i < 0 then CHR ''-'' # showNat (nat (- i)) else showNat (nat i))"

section \<open>Scanning\<close>

definition readNat :: "string \<Rightarrow> nat" where
  "readNat ds = foldl (\<lambda>a c. 10 * a + digitVal c) 0 ds"

definition skipSpace :: "string \<Rightarrow> string" where
  "skipSpace s = dropWhile isSpace s"

definition scanDigits :: "string \<Rightarrow> (nat \<times> string) option" where
  "scanDigits s = (if takeWhile isDigit s = [] then None
     else Some (readNat (takeWhile isDigit s), dropWhile isDigit s))"

text \<open>An optional sign and at least one digit, after white space; the rest is not consumed.\<close>

definition scanInt :: "string \<Rightarrow> (int \<times> string) option" where
  "scanInt s =
     (case skipSpace s of
        [] \<Rightarrow> None
      | c # r \<Rightarrow>
          if c = CHR ''-'' then map_option (\<lambda>(n, r'). (- int n, r')) (scanDigits r)
          else if c = CHR ''+'' then map_option (\<lambda>(n, r'). (int n, r')) (scanDigits r)
          else map_option (\<lambda>(n, r'). (int n, r')) (scanDigits (c # r)))"

section \<open>The interface of a printed and scanned value\<close>

text \<open>
  \<open>delimits rest\<close> says that \<open>rest\<close> cannot be mistaken for more of the value: it is the end of the
  text or starts with a character that is no part of one.
\<close>

locale text_codec =
  fixes print :: "'a \<Rightarrow> string" and scan :: "string \<Rightarrow> ('a \<times> string) option"
    and delimits :: "string \<Rightarrow> bool"
  assumes delimits_end: "delimits []"
    and delimits_space: "delimits (CHR '' '' # s)"
    and scan_print: "delimits rest \<Longrightarrow> scan (print x @ rest) = Some (x, rest)"
    and scan_space: "scan (CHR '' '' # s) = scan s"
    and print_no_space: "CHR '' '' \<notin> set (print x)"
begin

lemma scan_print_end: "scan (print x) = Some (x, [])"
  using scan_print [OF delimits_end] by simp

lemma print_inj: "print x = print y \<Longrightarrow> x = y"
  using scan_print_end by (metis option.inject prod.inject)

text \<open>Two values written with a space between them are scanned one after the other.\<close>

lemma scan_pair:
  "scan (print x @ CHR '' '' # print y @ rest) = Some (x, CHR '' '' # print y @ rest)"
  "delimits rest \<Longrightarrow> scan (CHR '' '' # print y @ rest) = Some (y, rest)"
  by (simp_all add: scan_print delimits_space scan_space)

end

section \<open>Decimal integers are such values\<close>

lemma digitVal_digitChar [simp]: "d < 10 \<Longrightarrow> digitVal (digitChar d) = d"
  by (simp add: digitVal_def digitChar_def)

lemma isDigit_iff: "isDigit c \<longleftrightarrow> 48 \<le> (of_char c :: nat) \<and> (of_char c :: nat) \<le> 57"
proof
  assume "isDigit c"
  then show "48 \<le> (of_char c :: nat) \<and> (of_char c :: nat) \<le> 57"
    by (auto simp: isDigit_def)
next
  assume r: "48 \<le> (of_char c :: nat) \<and> (of_char c :: nat) \<le> 57"
  have "48 \<le> n \<and> n \<le> 57 \<Longrightarrow> n \<in> {48, 49, 50, 51, 52, 53, 54, 55, 56, 57}" for n :: nat
    by simp presburger
  then have "(of_char c :: nat) \<in> {48, 49, 50, 51, 52, 53, 54, 55, 56, 57}"
    using r by blast
  then have "(of_char c :: nat) \<in> of_char ` set ''0123456789''"
    by simp
  then show "isDigit c"
    unfolding isDigit_def by (auto simp only: image_iff of_char_eq_iff)
qed

lemma isDigit_digitChar [simp]: "d < 10 \<Longrightarrow> isDigit (digitChar d)"
  by (simp add: isDigit_iff digitChar_def)

lemma showNat_digits: "c \<in> set (showNat n) \<Longrightarrow> isDigit c"
proof (induction n rule: showNat.induct)
  case (1 n)
  show ?case
  proof (cases "n < 10")
    case True
    with 1 show ?thesis by (simp add: showNat.simps [of n])
  next
    case False
    with 1 show ?thesis by (auto simp: showNat.simps [of n])
  qed
qed

lemma showNat_not_empty [simp]: "showNat n \<noteq> []"
  by (subst showNat.simps) simp

lemma readNat_append_digit: "readNat (ds @ [c]) = 10 * readNat ds + digitVal c"
  by (simp add: readNat_def)

lemma readNat_showNat [simp]: "readNat (showNat n) = n"
proof (induction n rule: showNat.induct)
  case (1 n)
  show ?case
  proof (cases "n < 10")
    case True
    then show ?thesis by (simp add: showNat.simps [of n] readNat_def)
  next
    case False
    with 1 show ?thesis by (simp add: showNat.simps [of n] readNat_append_digit)
  qed
qed

lemma scanDigits_showNat:
  assumes "rest = [] \<or> \<not> isDigit (hd rest)"
  shows "scanDigits (showNat n @ rest) = Some (n, rest)"
proof -
  have "takeWhile isDigit (showNat n @ rest) = showNat n"
    and "dropWhile isDigit (showNat n @ rest) = rest"
    using assms showNat_digits [of _ n] by (cases rest; auto simp: takeWhile_append dropWhile_append)+
  then show ?thesis
    by (simp add: scanDigits_def)
qed

lemma showNat_Cons: "\<exists>c r. showNat n = c # r \<and> isDigit c"
  using showNat_digits [of _ n] by (cases "showNat n") auto

lemma digit_not_special: "isDigit c \<Longrightarrow> \<not> isSpace c \<and> c \<noteq> CHR ''-'' \<and> c \<noteq> CHR ''+''"
  by (auto simp: isDigit_iff isSpace_def)

lemma scanInt_showInt:
  assumes "rest = [] \<or> \<not> isDigit (hd rest)"
  shows "scanInt (showInt i @ rest) = Some (i, rest)"
proof (cases "i < 0")
  case True
  then show ?thesis
    using scanDigits_showNat [OF assms]
    by (simp add: showInt_def scanInt_def skipSpace_def isSpace_def)
next
  case False
  obtain c r where c: "showNat (nat i) = c # r" "isDigit c"
    using showNat_Cons by blast
  then show ?thesis
    using False scanDigits_showNat [OF assms, of "nat i"] digit_not_special [OF c(2)]
    by (simp add: showInt_def scanInt_def skipSpace_def)
qed

lemma showInt_no_space: "c \<in> set (showInt i) \<Longrightarrow> \<not> isSpace c"
  using showNat_digits digit_not_special
  by (fastforce simp: showInt_def isSpace_def split: if_splits)

interpretation decimal: text_codec showInt scanInt "\<lambda>rest. rest = [] \<or> \<not> isDigit (hd rest)"
proof
  show "scanInt (CHR '' '' # s) = scanInt s" for s
    by (simp add: scanInt_def skipSpace_def isSpace_def)
  show "CHR '' '' \<notin> set (showInt x)" for x
    using showInt_no_space by (fastforce simp: isSpace_def)
qed (use scanInt_showInt in \<open>auto simp: isDigit_def\<close>)

section \<open>Input streams\<close>

text \<open>
  The text left of a \<open>std::stringstream\<close> and its fail bit. A failed extraction of an integer stores
  0, one out of range stores the nearest value of the type; both set the fail bit, after which an
  extraction leaves its variable as it was.
\<close>

record istream =
  unread :: string
  failbit :: bool

definition istreamOf :: "string \<Rightarrow> istream" where
  "istreamOf s = \<lparr>unread = s, failbit = False\<rparr>"

definition extractInt :: "nat \<Rightarrow> int \<Rightarrow> istream \<Rightarrow> int \<times> istream" where
  "extractInt bits old st =
     (if failbit st then (old, st)
      else (case scanInt (unread st) of
              None \<Rightarrow> (0, st\<lparr>failbit := True\<rparr>)
            | Some (i, r) \<Rightarrow>
                if i < - (2 ^ (bits - 1)) then (- (2 ^ (bits - 1)), \<lparr>unread = r, failbit = True\<rparr>)
                else if 2 ^ (bits - 1) \<le> i then (2 ^ (bits - 1) - 1, \<lparr>unread = r, failbit = True\<rparr>)
                else (i, \<lparr>unread = r, failbit = False\<rparr>)))"

lemma extractInt_showInt:
  assumes "- (2 ^ (bits - 1)) \<le> i" and "i < 2 ^ (bits - 1)" and "r = [] \<or> \<not> isDigit (hd r)"
  shows "extractInt bits old \<lparr>unread = showInt i @ r, failbit = False\<rparr> = (i, \<lparr>unread = r, failbit = False\<rparr>)"
  using assms by (simp add: extractInt_def scanInt_showInt)

lemma extractInt_space_showInt:
  assumes "- (2 ^ (bits - 1)) \<le> i" and "i < 2 ^ (bits - 1)" and "r = [] \<or> \<not> isDigit (hd r)"
  shows "extractInt bits old \<lparr>unread = CHR '' '' # showInt i @ r, failbit = False\<rparr>
    = (i, \<lparr>unread = r, failbit = False\<rparr>)"
  using assms by (simp add: extractInt_def decimal.scan_space scanInt_showInt)

text \<open>\<open>stream >> word\<close>: the next word of a stream of characters, empty at the end of the input.\<close>

definition nextWord :: "string \<Rightarrow> string \<times> string" where
  "nextWord s = (takeWhile (\<lambda>c. \<not> isSpace c) (skipSpace s), dropWhile (\<lambda>c. \<not> isSpace c) (skipSpace s))"

end
