(* ===== verification/ThirdParty.thy ===== *)
theory ThirdParty
  imports Decimal
begin

text \<open>
  The Boost functions that the program calls. Their code is not part of the repository, so they are
  a parameter of the model: a record of functions that is the first argument \<open>B\<close> of every
  definition that uses one of them. What their documentation promises, and the program relies on, is
  stated as named predicates on the record; \<open>refBoost\<close> is a concrete record that satisfies them.

  A draw from a random distribution has the number of draws made before it in the run as an
  argument: the draws of one run are a fixed but unknown sequence, and the count is threaded through
  the code that draws.
\<close>

datatype ipAddress = V4 string | V6 string

text \<open>Times and durations of \<open>boost::posix_time\<close> are counts of microseconds.\<close>

record boost =
  boostSplit :: "string \<Rightarrow> string \<Rightarrow> string list"
  boostJoin :: "string list \<Rightarrow> string \<Rightarrow> string"
  lexicalCastUnsigned :: "string \<Rightarrow> u32 option"
  lexicalCastDouble :: "string \<Rightarrow> real option"
  uniformInt :: "int \<Rightarrow> int \<Rightarrow> nat \<Rightarrow> int"
  poissonInt :: "real \<Rightarrow> nat \<Rightarrow> int"
  weibullQuantile :: "real \<Rightarrow> real \<Rightarrow> nat \<Rightarrow> real"
  toIsoString :: "int \<Rightarrow> string"
  fromIsoString :: "string \<Rightarrow> int option"
  toSimpleString :: "int \<Rightarrow> string"
  durationFromString :: "string \<Rightarrow> int option"
  regexMatch :: "string \<Rightarrow> string \<Rightarrow> string list option"
  resolveHost :: "string \<Rightarrow> ipAddress list option"
  hostName :: string
  urandomOpens :: bool  (* of the system: whether the program can open /dev/urandom *)

text \<open>\<open>boost::lexical_cast\<close> with its exception.\<close>

definition castUnsigned :: "'b boost_scheme \<Rightarrow> string \<Rightarrow> u32 result" where
  "castUnsigned B s = (case lexicalCastUnsigned B s of None \<Rightarrow> Inl BadLexicalCast | Some w \<Rightarrow> Inr w)"

definition castDouble :: "'b boost_scheme \<Rightarrow> string \<Rightarrow> real result" where
  "castDouble B s = (case lexicalCastDouble B s of None \<Rightarrow> Inl BadLexicalCast | Some x \<Rightarrow> Inr x)"

section \<open>Documented behaviour\<close>

text \<open>\<open>boost::split\<close> with \<open>is_any_of\<close> and no token compression cuts the text at every separator.\<close>

fun splitOn :: "string \<Rightarrow> string \<Rightarrow> string list" where
  "splitOn seps [] = [[]]"
| "splitOn seps (c # cs) =
     (if c \<in> set seps then [] # splitOn seps cs
      else (case splitOn seps cs of [] \<Rightarrow> [[c]] | w # ws \<Rightarrow> (c # w) # ws))"

fun joinWith :: "string list \<Rightarrow> string \<Rightarrow> string" where
  "joinWith [] sep = []"
| "joinWith [w] sep = w"
| "joinWith (w # v # ws) sep = w @ sep @ joinWith (v # ws) sep"

definition split_documented :: "'b boost_scheme \<Rightarrow> bool" where
  "split_documented B \<longleftrightarrow> (\<forall>seps s. boostSplit B seps s = splitOn seps s)"

definition join_documented :: "'b boost_scheme \<Rightarrow> bool" where
  "join_documented B \<longleftrightarrow> (\<forall>ws sep. boostJoin B ws sep = joinWith ws sep)"

text \<open>\<open>lexical_cast<unsigned>\<close> of the decimal digits of a 32-bit number gives that number.\<close>

definition cast_documented :: "'b boost_scheme \<Rightarrow> bool" where
  "cast_documented B \<longleftrightarrow> (\<forall>n. lexicalCastUnsigned B (showNat (unat n)) = Some n)"

text \<open>
  \<open>uniform_int(lo, hi)\<close> draws from the closed interval; the other draws are not negative; the device
  that seeds the generators is there.
\<close>

definition random_documented :: "'b boost_scheme \<Rightarrow> bool" where
  "random_documented B \<longleftrightarrow> urandomOpens B \<and>
     (\<forall>lo hi k. lo \<le> hi \<longrightarrow> lo \<le> uniformInt B lo hi k \<and> uniformInt B lo hi k \<le> hi)
     \<and> (\<forall>mean k. 0 \<le> poissonInt B mean k)
     \<and> (\<forall>shape scale k. 0 \<le> weibullQuantile B shape scale k)"

text \<open>The text forms of times and durations are read back to the same value and have no spaces.\<close>

definition time_documented :: "'b boost_scheme \<Rightarrow> bool" where
  "time_documented B \<longleftrightarrow>
     (\<forall>t. fromIsoString B (toIsoString B t) = Some t \<and> toIsoString B t \<noteq> [] \<and> CHR '' '' \<notin> set (toIsoString B t))
     \<and> (\<forall>d. durationFromString B (toSimpleString B d) = Some d \<and> toSimpleString B d \<noteq> []
            \<and> CHR '' '' \<notin> set (toSimpleString B d))"

text \<open>
  \<open>boost::regex_match\<close> on the six patterns of the workload file, for lines without a newline: the
  whole line has to match, and the result is the list of the captured groups.
\<close>

definition backslash :: char where
  "backslash = CHR 0x5C"

definition nodesPattern :: string where "nodesPattern = ''^nodes ('' @ backslash # ''d+)$''"
definition durationPattern :: string where "durationPattern = ''^duration ('' @ backslash # ''d+)$''"
definition profilePattern :: string where "profilePattern = ''^profile ('' @ backslash # ''w+)$''"
definition operationPattern :: string where
  "operationPattern = ''^(join|leave|put|get) ('' @ backslash # ''w+.*)$''"
definition defaultPattern :: string where "defaultPattern = ''^default-profile ('' @ backslash # ''w+)$''"
definition nodePattern :: string where "nodePattern = ''^node ('' @ backslash # ''w+) ('' @ backslash # ''w+)$''"

definition isWordChar :: "char \<Rightarrow> bool" where
  "isWordChar c \<longleftrightarrow> isDigit c \<or> c \<in> set ''abcdefghijklmnopqrstuvwxyzABCDEFGHIJKLMNOPQRSTUVWXYZ_''"

definition matchRest :: "string \<Rightarrow> (char \<Rightarrow> bool) \<Rightarrow> string \<Rightarrow> string list option" where
  "matchRest keyword ok s =
     (let rest = drop (length keyword) s
      in if isPrefix keyword s \<and> rest \<noteq> [] \<and> list_all ok rest then Some [rest] else None)"

definition firstWord :: "string \<Rightarrow> string" where
  "firstWord s = takeWhile (\<lambda>c. c \<noteq> CHR '' '') s"

definition matchOperation :: "string \<Rightarrow> string list option" where
  "matchOperation s =
     (let op = firstWord s; rest = drop (length op + 1) s
      in if op \<in> {''join'', ''leave'', ''put'', ''get''} \<and> rest \<noteq> [] \<and> isWordChar (hd rest) then Some [op, rest] else None)"

definition matchNode :: "string \<Rightarrow> string list option" where
  "matchNode s =
     (let rest = drop 5 s; a = firstWord rest; b = drop (length a + 1) rest
      in if isPrefix ''node '' s \<and> a \<noteq> [] \<and> list_all isWordChar a \<and> b \<noteq> [] \<and> list_all isWordChar b
         then Some [a, b] else None)"

definition regex_documented :: "'b boost_scheme \<Rightarrow> bool" where
  "regex_documented B \<longleftrightarrow> (\<forall>s. newline \<notin> set s \<longrightarrow>
     regexMatch B nodesPattern s = matchRest ''nodes '' isDigit s
     \<and> regexMatch B durationPattern s = matchRest ''duration '' isDigit s
     \<and> regexMatch B profilePattern s = matchRest ''profile '' isWordChar s
     \<and> regexMatch B operationPattern s = matchOperation s
     \<and> regexMatch B defaultPattern s = matchRest ''default-profile '' isWordChar s
     \<and> regexMatch B nodePattern s = matchNode s)"

section \<open>Lemmas on split and join\<close>

lemma splitOn_not_empty [simp]: "splitOn seps s \<noteq> []"
  by (cases s) (auto split: list.splits)

lemma splitOn_word: "\<forall>c \<in> set w. c \<notin> set seps \<Longrightarrow> splitOn seps w = [w]"
  by (induction w) auto

lemma splitOn_word_sep:
  "\<forall>c \<in> set w. c \<notin> set seps \<Longrightarrow> c \<in> set seps \<Longrightarrow> splitOn seps (w @ c # s) = w # splitOn seps s"
  by (induction w) auto

lemma splitOn_no_sep: "w \<in> set (splitOn seps s) \<Longrightarrow> \<forall>c \<in> set w. c \<notin> set seps"
proof (induction s arbitrary: w)
  case (Cons c cs)
  obtain v vs where v: "splitOn seps cs = v # vs"
    using splitOn_not_empty by (meson neq_Nil_conv)
  show ?case
  proof (cases "c \<in> set seps")
    case True
    then have "w = [] \<or> w \<in> set (splitOn seps cs)"
      using Cons.prems by auto
    then show ?thesis using Cons.IH by auto
  next
    case False
    then have "w = c # v \<or> w \<in> set vs"
      using Cons.prems v by simp
    then show ?thesis using Cons.IH [of v] Cons.IH [of w] False v by auto
  qed
qed simp

lemma splitOn_joinWith:
  assumes "c \<in> set seps" and "\<forall>w \<in> set ws. \<forall>x \<in> set w. x \<notin> set seps" and "ws \<noteq> []"
  shows "splitOn seps (joinWith ws [c]) = ws"
  using assms(2,3)
proof (induction ws)
  case (Cons w ws)
  have w: "\<forall>x \<in> set w. x \<notin> set seps"
    using Cons.prems(1) by simp
  have IH: "ws \<noteq> [] \<Longrightarrow> splitOn seps (joinWith ws [c]) = ws"
    using Cons.IH Cons.prems(1) by simp
  show ?case
  proof (cases ws)
    case Nil
    then show ?thesis using splitOn_word [OF w] by simp
  next
    case (Cons v vs)
    then show ?thesis
      using splitOn_word_sep [OF w assms(1)] IH by simp
  qed
qed simp

section \<open>A concrete instance\<close>

definition refBoost :: boost where
  "refBoost =
     \<lparr>boostSplit = splitOn, boostJoin = joinWith,
      lexicalCastUnsigned = (\<lambda>s. case scanDigits s of
         Some (n, []) \<Rightarrow> (if n < 4294967296 then Some (of_nat n) else None) | _ \<Rightarrow> None),
      lexicalCastDouble = (\<lambda>s. case scanInt s of Some (i, []) \<Rightarrow> Some (of_int i) | _ \<Rightarrow> None),
      uniformInt = (\<lambda>lo hi k. lo + int k mod (hi - lo + 1)),
      poissonInt = (\<lambda>mean k. int k),
      weibullQuantile = (\<lambda>shape scale k. real k),
      toIsoString = showInt,
      fromIsoString = (\<lambda>s. map_option fst (scanInt s)),
      toSimpleString = showInt,
      durationFromString = (\<lambda>s. map_option fst (scanInt s)),
      regexMatch = (\<lambda>pattern s.
        if pattern = nodesPattern then matchRest ''nodes '' isDigit s
        else if pattern = durationPattern then matchRest ''duration '' isDigit s
        else if pattern = profilePattern then matchRest ''profile '' isWordChar s
        else if pattern = operationPattern then matchOperation s
        else if pattern = defaultPattern then matchRest ''default-profile '' isWordChar s
        else if pattern = nodePattern then matchNode s
        else None),
      resolveHost = (\<lambda>host. Some [V4 host]),
      hostName = ''localhost'', urandomOpens = True\<rparr>"

lemma refBoost_split: "split_documented refBoost"
  by (simp add: split_documented_def refBoost_def)

lemma refBoost_join: "join_documented refBoost"
  by (simp add: join_documented_def refBoost_def)

lemma refBoost_cast: "cast_documented refBoost"
  using scanDigits_showNat [of "[]"] unat_u32_bound
  by (simp add: cast_documented_def refBoost_def)

lemma refBoost_random: "random_documented refBoost"
proof -
  have "lo \<le> lo + int k mod (hi - lo + 1) \<and> lo + int k mod (hi - lo + 1) \<le> hi"
    if "lo \<le> hi" for lo hi :: int and k :: nat
    using that pos_mod_bound [of "hi - lo + 1" "int k"] pos_mod_sign [of "hi - lo + 1" "int k"] by linarith
  then show ?thesis
    by (simp add: random_documented_def refBoost_def)
qed

lemma refBoost_time: "time_documented refBoost"
  using decimal.print_no_space
  by (simp add: time_documented_def refBoost_def decimal.scan_print_end) (simp add: showInt_def)

lemmas pattern_defs =
  nodesPattern_def durationPattern_def profilePattern_def operationPattern_def defaultPattern_def nodePattern_def

lemma refBoost_regex: "regex_documented refBoost"
  by (simp add: regex_documented_def refBoost_def pattern_defs)

lemmas refBoost_documented =
  refBoost_split refBoost_join refBoost_cast refBoost_random refBoost_time refBoost_regex

end
