(* ===== verification/Utils.thy ===== *)
theory Utils
  imports Events ThirdParty HostMemory
begin

text \<open>
  \<open>src/src/controller/Utils.cpp\<close>: the dictionary, the random sources, the time strings of the
  profiles and the small helpers on vectors, directories and host names. The count \<open>k\<close> that several
  definitions take and return is the number of random draws made so far.
\<close>

section \<open>The dictionary and the random sources\<close>

definition dictionary :: "string list" where
  "dictionary =
    [''refuse'', ''punch'', ''couple'', ''index'', ''banknote'', ''silverberry'', ''Manchu'',
     ''open'', ''overcome'', ''warfighter'', ''round'', ''angle'', ''German'', ''disturb'',
     ''Schmidt'', ''selfless'', ''bioptic'', ''rally'', ''osteoarthropathy'', ''August'',
     ''desist'', ''dessjatines'', ''ads'', ''catodi'', ''gutsing'', ''hinder'', ''furrow'',
     ''saponify'', ''relief'', ''complicated'', ''blizzarded'', ''endure'', ''wonder'', ''marvel'',
     ''beget'', ''lay'', ''delirium'', ''Palmiro'', ''I'', ''royalty'', ''spilths'',
     ''conferencegoers'', ''reservoirs'', ''transient'', ''taqwa'', ''giant'', ''clicky'',
     ''static_line'', ''coexistences'', ''transducer'', ''ghits'', ''rattletrap'', ''comedogenic'',
     ''propelling_pencil'', ''neutrality'', ''calendrers'', ''glossed_over'', ''coexisted'',
     ''chafed'', ''dyspareunia'', ''fictionalizes'', ''high-water_mark'', ''beach_head'',
     ''potsies'', ''bummer'', ''scraps'', ''aird-guitared'', ''preordered'', ''quadrantanopia'',
     ''Sacramentarians'', ''kinesthesiologists'', ''flounced'', ''timber_wolf'', ''loblolly'',
     ''way_back_when'', ''agricultural_liens'', ''in_the_nick_of_time'', ''Baldwin's_phosphorus'',
     ''Eichmann'', ''papillote'', ''hackleback'', ''Magha_Puja'', ''sectored'', ''bell_ringers'',
     ''eyeopening'', ''omphalomancy'', ''noncitrus'', ''uncovers'', ''chopins'', ''microlenders'',
     ''marginal_benefits'', ''err_on_the_side_of_caution'', ''loveliest'', ''unanchor'',
     ''Trenchardian'', ''kangaroo_paw'', ''commissural'', ''diminished_radix_complement'',
     ''casters'', ''ET743'', ''firebases'', ''unpunished'', ''replayable'', ''hotshot'',
     ''eigendecomposition'', ''Fennicism'', ''prima_ballerinas'', ''subdural'', ''scaggning'',
     ''audio_cassete'', ''athletic'', ''giaour'', ''buccal_cavity'', ''nonchromatically'',
     ''booting_up'', ''dosed'', ''cat's_pajamas'', ''epiphenomenalism'',
     ''glass_transition_temperature'', ''honing'']"

definition dictionarySize :: nat where
  "dictionarySize = length dictionary"

lemma dictionarySize_eq: "dictionarySize = 120"
  by (simp add: dictionarySize_def dictionary_def)

text \<open>
  The device that seeds the generators. Each generator below is seeded from one of its own; the draws
  are the parameters of the model, so the seed itself is not kept.
\<close>

definition newRandomDevice :: "'b boost_scheme \<Rightarrow> unit result" where
  "newRandomDevice B = require (urandomOpens B) ExitFailure"

text \<open>
  \<open>operator()\<close> on the bytes that the device still gives: a read that comes up short leaves the local
  variable \<open>ret\<close> as it is, which is uninitialised.
\<close>

definition RandomDevice_call :: "endian \<Rightarrow> bytes \<Rightarrow> (u32 \<times> bytes) result" where
  "RandomDevice_call en device =
     (if length device < 4 then Inl UndefinedBehaviour
      else Inr (u32Value en (take 4 device), drop 4 device))"

lemma RandomDevice_call_word: "RandomDevice_call en (u32Bytes en w @ device) = Inr (w, device)"
  by (simp add: RandomDevice_call_def)

text \<open>The upper bound of the distribution is all the state that a \<open>RandomDictionary\<close> keeps.\<close>

record RandomDictionary =
  upperBound :: u32

text \<open>
  \<open>distribution_(0, size)\<close> converts the size to \<open>int\<close>; a negative upper bound violates the
  precondition of \<open>uniform_int\<close>. The size is checked in the body, after that.
\<close>

definition newRandomDictionary :: "'b boost_scheme \<Rightarrow> u32 \<Rightarrow> RandomDictionary result" where
  "newRandomDictionary B setSize =
     andThen (newRandomDevice B) (\<lambda>_.
     andThen (require (unat setSize < 2147483648) UndefinedBehaviour) (\<lambda>_.
     andThen (require (\<not> dictionarySize \<le> unat setSize) ExitFailure) (\<lambda>_.
     Inr \<lparr>upperBound = setSize\<rparr>)))"

definition getRandomWord :: "'b boost_scheme \<Rightarrow> RandomDictionary \<Rightarrow> nat \<Rightarrow> (string \<times> nat) result" where
  "getRandomWord B d k =
     (let i = uniformInt B 0 (int (unat (upperBound d))) k
      in if i < 0 then Inl UndefinedBehaviour
         else andThen (vectorAt dictionary (nat i)) (\<lambda>w. Inr (w, k + 1)))"

text \<open>A uniform distribution requires an interval that is not empty.\<close>

record UniformRandomNumber =
  uniformMin :: int
  uniformMax :: int

definition newUniformRandomNumber :: "'b boost_scheme \<Rightarrow> int \<Rightarrow> int \<Rightarrow> UniformRandomNumber result" where
  "newUniformRandomNumber B lo hi =
     andThen (newRandomDevice B) (\<lambda>_.
     andThen (require (lo \<le> hi) UndefinedBehaviour) (\<lambda>_.
     Inr \<lparr>uniformMin = lo, uniformMax = hi\<rparr>))"

definition UniformRandomNumber_get :: "'b boost_scheme \<Rightarrow> UniformRandomNumber \<Rightarrow> nat \<Rightarrow> int \<times> nat" where
  "UniformRandomNumber_get B r k = (uniformInt B (uniformMin r) (uniformMax r) k, k + 1)"

text \<open>A Poisson distribution requires a positive mean.\<close>

record PoissonRandomNumber =
  poissonMean :: real

definition newPoissonRandomNumber :: "'b boost_scheme \<Rightarrow> real \<Rightarrow> PoissonRandomNumber result" where
  "newPoissonRandomNumber B mean =
     andThen (newRandomDevice B) (\<lambda>_.
     andThen (require (0 < mean) UndefinedBehaviour) (\<lambda>_.
     Inr \<lparr>poissonMean = mean\<rparr>))"

definition PoissonRandomNumber_get :: "'b boost_scheme \<Rightarrow> PoissonRandomNumber \<Rightarrow> nat \<Rightarrow> int \<times> nat" where
  "PoissonRandomNumber_get B r k = (poissonInt B (poissonMean r) k, k + 1)"

text \<open>A Weibull distribution requires a positive shape and scale (\<open>std::domain_error\<close>).\<close>

record WeibullRandomNumber =
  weibullShape :: real
  weibullScale :: real

definition newWeibullRandomNumber :: "'b boost_scheme \<Rightarrow> real \<Rightarrow> real \<Rightarrow> WeibullRandomNumber result" where
  "newWeibullRandomNumber B shape scale =
     andThen (newRandomDevice B) (\<lambda>_.
     andThen (require (0 < shape \<and> 0 < scale) DomainError) (\<lambda>_.
     Inr \<lparr>weibullShape = shape, weibullScale = scale\<rparr>))"

definition WeibullRandomNumber_get :: "'b boost_scheme \<Rightarrow> WeibullRandomNumber \<Rightarrow> nat \<Rightarrow> real \<times> nat" where
  "WeibullRandomNumber_get B r k = (weibullQuantile B (weibullShape r) (weibullScale r) k, k + 1)"

section \<open>Vectors of words\<close>

definition vectorErase :: "'a list \<Rightarrow> nat \<Rightarrow> 'a list" where
  "vectorErase v i = take i v @ drop (Suc i) v"

primrec removeEmptyLoop :: "nat \<Rightarrow> string list \<Rightarrow> string list" where
  "removeEmptyLoop 0 v = v"
| "removeEmptyLoop (Suc i) v =
     removeEmptyLoop i (if v ! i = [] then vectorErase v i else v)"

definition removeEmptyStringsFromVector :: "string list \<Rightarrow> string list" where
  "removeEmptyStringsFromVector v = removeEmptyLoop (length v) v"

section \<open>Time strings\<close>

definition fitsInt :: "int \<Rightarrow> bool" where
  "fitsInt i \<longleftrightarrow> - 2147483648 \<le> i \<and> i < 2147483648"

text \<open>
  \<open>sscanf(s, "%d-%d", &min, &max)\<close>. \<open>ScanEOF\<close> is the return value -1 of an input that ends before
  the first conversion; a number that does not fit an \<open>int\<close> is undefined behaviour.
\<close>

datatype scanResult = ScanEOF | ScanNone | ScanOne int | ScanTwo int int

definition scanTime :: "string \<Rightarrow> scanResult result" where
  "scanTime s =
     (if skipSpace s = [] then Inr ScanEOF
      else (case scanInt s of
              None \<Rightarrow> Inr ScanNone
            | Some (lo, r) \<Rightarrow>
                andThen (require (fitsInt lo) UndefinedBehaviour) (\<lambda>_.
                if r \<noteq> [] \<and> hd r = CHR ''-''
                then (case scanInt (tl r) of
                        None \<Rightarrow> Inr (ScanOne lo)
                      | Some (hi, r') \<Rightarrow>
                          andThen (require (fitsInt hi) UndefinedBehaviour) (\<lambda>_. Inr (ScanTwo lo hi)))
                else Inr (ScanOne lo))))"

definition getTimeFromString :: "'b boost_scheme \<Rightarrow> string \<Rightarrow> nat \<Rightarrow> (int \<times> nat) result" where
  "getTimeFromString B timeString k =
     andThen (scanTime (c_str timeString)) (\<lambda>rc.
     case rc of
       ScanNone \<Rightarrow> Inl ExitFailure
     | ScanOne lo \<Rightarrow> Inr (lo, k)
     | ScanTwo lo hi \<Rightarrow>
         if lo \<ge> hi then Inl ExitFailure
         else andThen (newUniformRandomNumber B lo hi) (\<lambda>r. Inr (UniformRandomNumber_get B r k))
     | ScanEOF \<Rightarrow> Inl UndefinedBehaviour)"

section \<open>Directories and hosts\<close>

datatype fsEntry = Directory | OtherFile

text \<open>
  The file system with the working directory of the program, and which of the calls fail that the
  program makes on it and on its process group.
\<close>

record fileSystem =
  entryAt :: "string \<Rightarrow> fsEntry option"
  statDenied :: "string \<Rightarrow> bool"
  mkdirDenied :: "string \<Rightarrow> bool"
  chdirDenied :: "string \<Rightarrow> bool"
  setpgidDenied :: bool
  workingDirectory :: "string list"
  leadsGroup :: bool

definition mkdir_p :: "string \<Rightarrow> fileSystem \<Rightarrow> fileSystem result" where
  "mkdir_p dirName fs =
     (if statDenied fs dirName then Inl ExitFailure
      else (case entryAt fs dirName of
              None \<Rightarrow>
                if mkdirDenied fs dirName then Inl ExitFailure
                else Inr (fs\<lparr>entryAt := (entryAt fs)(dirName \<mapsto> Directory)\<rparr>)
            | Some OtherFile \<Rightarrow> Inl ExitFailure
            | Some Directory \<Rightarrow> Inr fs))"

definition getHostIp :: "'b boost_scheme \<Rightarrow> string \<Rightarrow> string result" where
  "getHostIp B host =
     (case resolveHost B host of
        None \<Rightarrow> Inl ExitFailure
      | Some [] \<Rightarrow> Inl ExitFailure
      | Some (V4 a # _) \<Rightarrow> Inr a
      | Some (V6 a # _) \<Rightarrow> Inl BadAddressCast)"

definition getSelfIp :: "'b boost_scheme \<Rightarrow> string result" where
  "getSelfIp B = getHostIp B (hostName B)"

section \<open>Lemmas\<close>

lemma removeEmptyLoop_filter:
  "i \<le> length v \<Longrightarrow> removeEmptyLoop i v = filter (\<lambda>s. s \<noteq> []) (take i v) @ drop i v"
proof (induction i arbitrary: v)
  case (Suc i)
  then have i: "i < length v"
    by simp
  then have split: "take (Suc i) v = take i v @ [v ! i]"
    by (rule take_Suc_conv_app_nth)
  show ?case
  proof (cases "v ! i = []")
    case True
    then show ?thesis
      using Suc.IH [of "vectorErase v i"] i split by (simp add: vectorErase_def min_def)
  next
    case False
    then show ?thesis
      using Suc.IH [of v] i split by (simp add: Cons_nth_drop_Suc)
  qed
qed simp

lemma removeEmpty_filter: "removeEmptyStringsFromVector v = filter (\<lambda>s. s \<noteq> []) v"
  by (simp add: removeEmptyStringsFromVector_def removeEmptyLoop_filter)

lemma getRandomWord_word:
  assumes "random_documented B" and "unat (upperBound d) < dictionarySize"
  shows "\<exists>i. i \<le> unat (upperBound d) \<and> getRandomWord B d k = Inr (dictionary ! i, k + 1)"
proof -
  define i where "i = uniformInt B 0 (uint (upperBound d)) k"
  have "0 \<le> i \<and> i \<le> uint (upperBound d)"
    using assms(1) by (simp add: random_documented_def i_def)
  moreover from this have "nat i \<le> unat (upperBound d)"
    by (simp add: nat_le_iff)
  ultimately show ?thesis
    using assms(2) by (intro exI [of _ "nat i"])
      (simp add: getRandomWord_def i_def [symmetric] Let_def vectorAt_in dictionarySize_def)
qed

lemma scanTime_showInt:
  assumes "fitsInt t"
  shows "scanTime (showInt t) = Inr (ScanOne t)"
proof -
  have "scanInt (showInt t) = Some (t, [])"
    by (rule decimal.scan_print_end)
  moreover from this have "skipSpace (showInt t) \<noteq> []"
    by (auto simp: scanInt_def)
  ultimately show ?thesis
    using assms by (simp add: scanTime_def)
qed

lemma c_str_showInt [simp]: "c_str (showInt t) = showInt t"
proof -
  have "CHR 0x00 \<notin> set (showInt t)"
    using showNat_digits by (fastforce simp: showInt_def isDigit_iff split: if_splits)
  then show ?thesis
    by (simp add: c_str_def takeWhile_eq_all_conv) blast
qed

section \<open>Properties\<close>

text \<open>
  The loop of \<open>removeEmptyStringsFromVector\<close>, which walks the vector from the end and erases in
  place, removes exactly the empty strings and keeps the order of the others.
\<close>

theorem removeEmptyStrings_is_filter:
  "removeEmptyStringsFromVector v = filter (\<lambda>s. s \<noteq> []) v"
  by (rule removeEmpty_filter)

text \<open>
  C36. A \<open>RandomDictionary\<close> that its constructor accepts never reads outside the dictionary: every
  draw is one of the first \<open>size + 1\<close> words (one more than the set of \<open>size\<close> words that the
  comment in the header announces), and the constructor accepts exactly the sizes below 120.
\<close>

theorem RandomDictionary_in_bounds:
  assumes "random_documented B"
  shows "((\<exists>d. newRandomDictionary B setSize = Inr d) \<longleftrightarrow> unat setSize < 120)
    \<and> (newRandomDictionary B setSize = Inr d \<longrightarrow>
         (\<exists>i. i \<le> unat setSize \<and> getRandomWord B d k = Inr (dictionary ! i, k + 1)))"
  using getRandomWord_word [OF assms, of d k] assms
  by (auto simp: random_documented_def newRandomDevice_def newRandomDictionary_def andThen_Inr_iff dictionarySize_eq)

theorem RandomDictionary_in_bounds_witness:
  "(\<exists>d. newRandomDictionary refBoost 100 = Inr d)
   \<and> (\<exists>i. i \<le> 100 \<and> getRandomWord refBoost \<lparr>upperBound = 100\<rparr> 7 = Inr (dictionary ! i, 8))"
proof -
  have new: "newRandomDictionary refBoost 100 = Inr \<lparr>upperBound = 100\<rparr>"
    using refBoost_random by (simp add: random_documented_def newRandomDevice_def newRandomDictionary_def dictionarySize_eq)
  from RandomDictionary_in_bounds [OF refBoost_random, of 100 "\<lparr>upperBound = 100\<rparr>" 7] new show ?thesis
    by simp
qed

text \<open>
  Time strings: the decimal text of an \<open>int\<close> is that time, without a draw; \<open>lo-hi\<close> with
  \<open>lo < hi\<close> is one draw from the closed interval; \<open>lo-hi\<close> with \<open>lo \<ge> hi\<close> ends the program.
\<close>

theorem getTimeFromString_spec:
  assumes "random_documented B" and "fitsInt lo" and "fitsInt hi"
  shows "getTimeFromString B (showInt lo) k = Inr (lo, k)
    \<and> (if lo < hi
       then \<exists>t. getTimeFromString B (showInt lo @ ''-'' @ showInt hi) k = Inr (t, k + 1) \<and> lo \<le> t \<and> t \<le> hi
       else getTimeFromString B (showInt lo @ ''-'' @ showInt hi) k = Inl ExitFailure)"
proof -
  have "scanInt (showInt lo @ CHR ''-'' # showInt hi) = Some (lo, CHR ''-'' # showInt hi)"
    by (rule decimal.scan_print) (simp add: isDigit_def)
  moreover from this have "skipSpace (showInt lo @ CHR ''-'' # showInt hi) \<noteq> []"
    by (auto simp: scanInt_def)
  ultimately have scan: "scanTime (showInt lo @ ''-'' @ showInt hi) = Inr (ScanTwo lo hi)"
    using assms(2,3) by (simp add: scanTime_def decimal.scan_print_end)
  have c: "c_str (showInt lo @ ''-'' @ showInt hi) = showInt lo @ ''-'' @ showInt hi"
    using c_str_showInt [of lo] c_str_showInt [of hi]
    by (simp add: c_str_def takeWhile_append takeWhile_eq_all_conv)
  show ?thesis
    using assms scan
    by (auto simp: getTimeFromString_def scanTime_showInt c UniformRandomNumber_get_def newUniformRandomNumber_def newRandomDevice_def
        random_documented_def
        simp del: append.simps)
qed

theorem getTimeFromString_spec_witness:
  "getTimeFromString refBoost ''30'' 0 = Inr (30, 0)
   \<and> (\<exists>t. getTimeFromString refBoost ''30-40'' 0 = Inr (t, 1) \<and> 30 \<le> t \<and> t \<le> 40)"
proof -
  have "showInt 30 = ''30''" and "showInt 40 = ''40''"
    by code_simp+
  with getTimeFromString_spec [OF refBoost_random, of 30 40 0] show ?thesis
    by (simp add: fitsInt_def)
qed

text \<open>
  A time string without a number is not always refused: on one of white space only, \<open>sscanf\<close>
  reports the end of the input, which the check of its result does not handle, and the interval
  that is drawn from is read from variables that were never set.
\<close>

lemma getTimeFromString_blank:
  "(\<forall>c \<in> set (c_str s). isSpace c) \<longleftrightarrow> getTimeFromString B s k = Inl UndefinedBehaviour
      \<and> scanTime (c_str s) = Inr ScanEOF"
proof -
  have "scanTime (c_str s) = Inr ScanEOF \<longleftrightarrow> skipSpace (c_str s) = []"
    by (auto simp: scanTime_def andThen_Inr_iff split: option.splits)
  then show ?thesis
    by (auto simp: getTimeFromString_def skipSpace_def dropWhile_eq_Nil_conv)
qed

lemma getTimeFromString_blank_witness:
  "getTimeFromString refBoost '' '' 0 = Inl UndefinedBehaviour \<and> getTimeFromString refBoost '''' 0 = Inl UndefinedBehaviour"
proof -
  have "\<forall>c \<in> set (c_str '' ''). isSpace c" "\<forall>c \<in> set (c_str ''''). isSpace c"
    by (simp_all add: c_str_def isSpace_def)
  then show ?thesis
    using getTimeFromString_blank [of "'' ''" refBoost 0] getTimeFromString_blank [of "''''" refBoost 0] by blast
qed

end
