(* ===== verification/Profiles.thy ===== *)
theory Profiles
  imports Utils
begin

text \<open>
  The profiles of \<open>src/src/controller/Profile.h\<close> and \<open>src/src/controller/profiles\<close>: the class
  template \<open>Profile\<close> and its eight subclasses, one group of definitions for each. The template argument
  is the field \<open>eventType\<close>: a member function that is specialised for put or get events has one
  definition for the template and one for each specialisation, and a definition that selects. The
  subclass with its own members is the field \<open>impl\<close>. Constructors and operations that can draw random
  numbers take and return the number \<open>k\<close> of draws made.
\<close>

section \<open>Data\<close>

record IntervalMembers =
  intervalDictionary :: RandomDictionary
  intervalLast :: timeUnit
  intervalFrequency :: timeUnit
  intervalRepetitions :: u32

record NTimesRandomMembers =
  ntimesDictionary :: RandomDictionary

record PoissonRandomMembers =
  poissonLast :: timeUnit
  poissonDictionary :: RandomDictionary
  poissonNumber :: PoissonRandomNumber

record WeibullRandomMembers =
  weibullDictionary :: RandomDictionary
  weibullNumber :: WeibullRandomNumber

datatype profileImpl =
    Exact
  | FullDictionary
  | Interval IntervalMembers
  | NoneProfile
  | Now
  | NTimesRandom NTimesRandomMembers
  | PoissonRandom PoissonRandomMembers
  | WeibullRandom WeibullRandomMembers

record EventProfile =
  eventType :: DhtOperation
  impl :: profileImpl
  eventQueue :: EventQueue

definition separators :: string where
  "separators = [CHR 0x09, CHR '' '']"

definition paramsVector :: "'b boost_scheme \<Rightarrow> string \<Rightarrow> string list" where
  "paramsVector B params = removeEmptyStringsFromVector (boostSplit B separators params)"

text \<open>\<open>EventType(time)\<close> of the generic templates, which are used for join and leave events only.\<close>

definition plainEvent :: "DhtOperation \<Rightarrow> timeUnit \<Rightarrow> DhtEvent" where
  "plainEvent op t = (if op = Join then DhtJoinEvent t else DhtLeaveEvent t)"

text \<open>\<open>for (i = 0; i < n; i++)\<close> around a step that may fail.\<close>

primrec repeatResult :: "nat \<Rightarrow> ('s \<Rightarrow> 's result) \<Rightarrow> 's \<Rightarrow> 's result" where
  "repeatResult 0 f s = Inr s"
| "repeatResult (Suc n) f s = andThen (f s) (repeatResult n f)"

text \<open>One word drawn and pushed, as a put and as a get: what the specialisations repeat.\<close>

definition pushRandomPut ::
    "'b boost_scheme \<Rightarrow> RandomDictionary \<Rightarrow> timeUnit \<Rightarrow> EventQueue \<times> nat \<Rightarrow> (EventQueue \<times> nat) result" where
  "pushRandomPut B d t = (\<lambda>(queue, k).
     andThen (getRandomWord B d k) (\<lambda>(w, k').
     Inr (EventQueue_push (DhtPutEvent t w (w @ ''_value'')) queue, k')))"

definition pushRandomGet ::
    "'b boost_scheme \<Rightarrow> RandomDictionary \<Rightarrow> timeUnit \<Rightarrow> EventQueue \<times> nat \<Rightarrow> (EventQueue \<times> nat) result" where
  "pushRandomGet B d t = (\<lambda>(queue, k).
     andThen (getRandomWord B d k) (\<lambda>(w, k').
     Inr (EventQueue_push (DhtGetEvent t w) queue, k')))"

section \<open>Exact\<close>

definition Exact_pushPlain ::
    "'b boost_scheme \<Rightarrow> DhtOperation \<Rightarrow> string list \<Rightarrow> EventQueue \<times> nat \<times> nat \<Rightarrow> (EventQueue \<times> nat \<times> nat) result" where
  "Exact_pushPlain B op params = (\<lambda>(queue, i, k).
     andThen (vectorAt params i) (\<lambda>timeString.
     andThen (getTimeFromString B timeString k) (\<lambda>(t, k').
     Inr (EventQueue_push (plainEvent op (word_of_int t)) queue, i + 1, k'))))"

definition Exact_pushPut ::
    "'b boost_scheme \<Rightarrow> string list \<Rightarrow> EventQueue \<times> nat \<times> nat \<Rightarrow> (EventQueue \<times> nat \<times> nat) result" where
  "Exact_pushPut B params = (\<lambda>(queue, i, k).
     andThen (vectorAt params i) (\<lambda>timeString.
     andThen (getTimeFromString B timeString k) (\<lambda>(t, k').
     andThen (vectorAt params (i + 1)) (\<lambda>key.
     andThen (vectorAt params (i + 2)) (\<lambda>val.
     Inr (EventQueue_push (DhtPutEvent (word_of_int t) key val) queue, i + 3, k'))))))"

definition Exact_pushGet ::
    "'b boost_scheme \<Rightarrow> string list \<Rightarrow> EventQueue \<times> nat \<times> nat \<Rightarrow> (EventQueue \<times> nat \<times> nat) result" where
  "Exact_pushGet B params = (\<lambda>(queue, i, k).
     andThen (vectorAt params i) (\<lambda>timeString.
     andThen (getTimeFromString B timeString k) (\<lambda>(t, k').
     andThen (vectorAt params (i + 1)) (\<lambda>key.
     Inr (EventQueue_push (DhtGetEvent (word_of_int t) key) queue, i + 2, k')))))"

definition Exact_pushElement ::
    "'b boost_scheme \<Rightarrow> DhtOperation \<Rightarrow> string list \<Rightarrow> EventQueue \<times> nat \<times> nat \<Rightarrow> (EventQueue \<times> nat \<times> nat) result" where
  "Exact_pushElement B op params st =
     (case op of
        Put \<Rightarrow> Exact_pushPut B params st
      | Get \<Rightarrow> Exact_pushGet B params st
      | _ \<Rightarrow> Exact_pushPlain B op params st)"

lemmas Exact_push_defs = Exact_pushElement_def Exact_pushPlain_def Exact_pushPut_def Exact_pushGet_def

lemma Exact_pushElement_advances:
  "Exact_pushElement B op params (queue, i, k) = Inr (queue', i', k') \<Longrightarrow> i < i'"
  by (auto simp: Exact_push_defs andThen_Inr_iff split: DhtOperation.splits)

function Exact_loop ::
    "'b boost_scheme \<Rightarrow> DhtOperation \<Rightarrow> string list \<Rightarrow> EventQueue \<Rightarrow> nat \<Rightarrow> nat \<Rightarrow> (EventQueue \<times> nat) result" where
  "Exact_loop B op params queue i k =
     (if i < length params
      then (case Exact_pushElement B op params (queue, i, k) of
              Inl e \<Rightarrow> Inl e
            | Inr (queue', i', k') \<Rightarrow> Exact_loop B op params queue' i' k')
      else Inr (queue, k))"
  by pat_completeness auto
termination
proof (relation "measure (\<lambda>(B, op, params, queue, i, k). length params - i)")
  fix B :: "'b boost_scheme" and op params queue i k st queue' p i' k'
  assume "i < length params" and "Exact_pushElement B op params (queue, i, k) = Inr st"
    and "(queue', p) = st" and "(i', k') = p"
  then have "i < i'"
    using Exact_pushElement_advances by blast
  then show "((B, op, params, queue', i', k'), B, op, params, queue, i, k)
      \<in> measure (\<lambda>(B, op, params, queue, i, k). length params - i)"
    using \<open>i < length params\<close> by simp
qed simp

declare Exact_loop.simps [simp del]

definition newExact :: "'b boost_scheme \<Rightarrow> DhtOperation \<Rightarrow> string \<Rightarrow> nat \<Rightarrow> (EventProfile \<times> nat) result" where
  "newExact B op params k =
     andThen (Exact_loop B op (paramsVector B params) EventQueue_empty 0 k) (\<lambda>(queue, k').
     Inr (\<lparr>eventType = op, impl = Exact, eventQueue = queue\<rparr>, k'))"

definition Exact_scheduleNextEvent :: "EventQueue \<Rightarrow> timeUnit" where
  "Exact_scheduleNextEvent queue = getNextEventTime queue"

section \<open>FullDictionary\<close>

definition FullDictionary_pushPlain :: "timeUnit \<Rightarrow> EventQueue \<Rightarrow> string \<Rightarrow> EventQueue result" where
  "FullDictionary_pushPlain t queue w = Inl ExitFailure"

definition FullDictionary_pushPut :: "timeUnit \<Rightarrow> EventQueue \<Rightarrow> string \<Rightarrow> EventQueue result" where
  "FullDictionary_pushPut t queue w = Inr (EventQueue_push (DhtPutEvent t w (w @ ''_value'')) queue)"

definition FullDictionary_pushGet :: "timeUnit \<Rightarrow> EventQueue \<Rightarrow> string \<Rightarrow> EventQueue result" where
  "FullDictionary_pushGet t queue w = Inr (EventQueue_push (DhtGetEvent t w) queue)"

definition FullDictionary_pushElement :: "DhtOperation \<Rightarrow> timeUnit \<Rightarrow> EventQueue \<Rightarrow> string \<Rightarrow> EventQueue result" where
  "FullDictionary_pushElement op =
     (case op of
        Put \<Rightarrow> FullDictionary_pushPut
      | Get \<Rightarrow> FullDictionary_pushGet
      | _ \<Rightarrow> FullDictionary_pushPlain)"

definition FullDictionary_step ::
    "'b boost_scheme \<Rightarrow> DhtOperation \<Rightarrow> nat \<Rightarrow> EventQueue \<times> nat \<Rightarrow> string \<Rightarrow> (EventQueue \<times> nat) result" where
  "FullDictionary_step B op setSize = (\<lambda>(queue, k) timeString.
     andThen (getTimeFromString B timeString k) (\<lambda>(t, k').
     andThen (foldResult (FullDictionary_pushElement op (word_of_int t)) queue (take setSize dictionary)) (\<lambda>queue'.
     Inr (queue', k'))))"

definition newFullDictionary :: "'b boost_scheme \<Rightarrow> DhtOperation \<Rightarrow> string \<Rightarrow> nat \<Rightarrow> (EventProfile \<times> nat) result" where
  "newFullDictionary B op params k =
     andThen (vectorAt (paramsVector B params) 0) (\<lambda>p.
     andThen (castUnsigned B p) (\<lambda>setSize.
     andThen (require (\<not> dictionarySize < unat setSize) ExitFailure) (\<lambda>_.
     andThen (foldResult (FullDictionary_step B op (unat setSize)) (EventQueue_empty, k)
                (drop 1 (paramsVector B params))) (\<lambda>(queue, k').
     Inr (\<lparr>eventType = op, impl = FullDictionary, eventQueue = queue\<rparr>, k')))))"

definition FullDictionary_scheduleNextEvent :: "EventQueue \<Rightarrow> timeUnit" where
  "FullDictionary_scheduleNextEvent queue = getNextEventTime queue"

section \<open>Interval\<close>

definition Interval_pushPut ::
    "'b boost_scheme \<Rightarrow> IntervalMembers \<Rightarrow> timeUnit \<Rightarrow> EventQueue \<times> nat \<Rightarrow> (EventQueue \<times> nat) result" where
  "Interval_pushPut B m t st =
     repeatResult (unat (intervalRepetitions m)) (pushRandomPut B (intervalDictionary m) t) st"

definition Interval_pushGet ::
    "'b boost_scheme \<Rightarrow> IntervalMembers \<Rightarrow> timeUnit \<Rightarrow> EventQueue \<times> nat \<Rightarrow> (EventQueue \<times> nat) result" where
  "Interval_pushGet B m t st =
     repeatResult (unat (intervalRepetitions m)) (pushRandomGet B (intervalDictionary m) t) st"

definition Interval_pushPlain ::
    "'b boost_scheme \<Rightarrow> IntervalMembers \<Rightarrow> timeUnit \<Rightarrow> EventQueue \<times> nat \<Rightarrow> (EventQueue \<times> nat) result" where
  "Interval_pushPlain B m t st = Inl ExitFailure"

definition Interval_pushElement ::
    "'b boost_scheme \<Rightarrow> DhtOperation \<Rightarrow> IntervalMembers \<Rightarrow> timeUnit \<Rightarrow> EventQueue \<times> nat \<Rightarrow> (EventQueue \<times> nat) result" where
  "Interval_pushElement B op =
     (case op of
        Put \<Rightarrow> Interval_pushPut B
      | Get \<Rightarrow> Interval_pushGet B
      | _ \<Rightarrow> Interval_pushPlain B)"

definition newInterval :: "'b boost_scheme \<Rightarrow> DhtOperation \<Rightarrow> string \<Rightarrow> nat \<Rightarrow> (EventProfile \<times> nat) result" where
  "newInterval B op params k =
     (case paramsVector B params of
        [setSizeString, repetitionsString, frequencyString, startTimeString] \<Rightarrow>
          andThen (castUnsigned B setSizeString) (\<lambda>setSize.
          andThen (castUnsigned B repetitionsString) (\<lambda>reps.
          andThen (castUnsigned B frequencyString) (\<lambda>freq.
          andThen (getTimeFromString B startTimeString k) (\<lambda>(startTime, k').
          andThen (newRandomDictionary B setSize) (\<lambda>d.
          let m = \<lparr>intervalDictionary = d, intervalLast = word_of_int startTime,
                   intervalFrequency = freq, intervalRepetitions = reps\<rparr>
          in andThen (Interval_pushElement B op m (word_of_int startTime) (EventQueue_empty, k')) (\<lambda>(queue, k'').
             Inr (\<lparr>eventType = op, impl = Interval m, eventQueue = queue\<rparr>, k'')))))))
      | _ \<Rightarrow> Inl ExitFailure)"

definition Interval_scheduleNextEvent ::
    "'b boost_scheme \<Rightarrow> DhtOperation \<Rightarrow> IntervalMembers \<Rightarrow> EventQueue \<times> nat
       \<Rightarrow> (timeUnit \<times> IntervalMembers \<times> EventQueue \<times> nat) result" where
  "Interval_scheduleNextEvent B op m = (\<lambda>(queue, k).
     if getNextEventTime queue = 0 then
       let m = m\<lparr>intervalLast := intervalLast m + intervalFrequency m\<rparr>
       in andThen (Interval_pushElement B op m (intervalLast m) (queue, k)) (\<lambda>(queue, k).
          Inr (getNextEventTime queue, m, queue, k))
     else Inr (getNextEventTime queue, m, queue, k))"

section \<open>NTimesRandom\<close>

definition NTimesRandom_pushPut ::
    "'b boost_scheme \<Rightarrow> RandomDictionary \<Rightarrow> timeUnit \<Rightarrow> u32 \<Rightarrow> EventQueue \<times> nat \<Rightarrow> (EventQueue \<times> nat) result" where
  "NTimesRandom_pushPut B d t reps st = repeatResult (unat reps) (pushRandomPut B d t) st"

definition NTimesRandom_pushGet ::
    "'b boost_scheme \<Rightarrow> RandomDictionary \<Rightarrow> timeUnit \<Rightarrow> u32 \<Rightarrow> EventQueue \<times> nat \<Rightarrow> (EventQueue \<times> nat) result" where
  "NTimesRandom_pushGet B d t reps st = repeatResult (unat reps) (pushRandomGet B d t) st"

definition NTimesRandom_pushPlain ::
    "'b boost_scheme \<Rightarrow> RandomDictionary \<Rightarrow> timeUnit \<Rightarrow> u32 \<Rightarrow> EventQueue \<times> nat \<Rightarrow> (EventQueue \<times> nat) result" where
  "NTimesRandom_pushPlain B d t reps st = Inl ExitFailure"

definition NTimesRandom_pushElement ::
    "'b boost_scheme \<Rightarrow> DhtOperation \<Rightarrow> RandomDictionary \<Rightarrow> timeUnit \<Rightarrow> u32 \<Rightarrow> EventQueue \<times> nat \<Rightarrow> (EventQueue \<times> nat) result" where
  "NTimesRandom_pushElement B op =
     (case op of
        Put \<Rightarrow> NTimesRandom_pushPut B
      | Get \<Rightarrow> NTimesRandom_pushGet B
      | _ \<Rightarrow> NTimesRandom_pushPlain B)"

text \<open>The loop over the pairs of a time and a count; an odd one reads past the end.\<close>

fun NTimesRandom_loop ::
    "'b boost_scheme \<Rightarrow> DhtOperation \<Rightarrow> RandomDictionary \<Rightarrow> string list \<Rightarrow> EventQueue \<times> nat \<Rightarrow> (EventQueue \<times> nat) result" where
  "NTimesRandom_loop B op d [] st = Inr st"
| "NTimesRandom_loop B op d [timeString] st =
     andThen (castUnsigned B timeString) (\<lambda>_. Inl UndefinedBehaviour)"
| "NTimesRandom_loop B op d (timeString # repetitionsString # params) st =
     andThen (castUnsigned B timeString) (\<lambda>t.
     andThen (castUnsigned B repetitionsString) (\<lambda>reps.
     andThen (NTimesRandom_pushElement B op d t reps st) (\<lambda>st'.
     NTimesRandom_loop B op d params st')))"

definition newNTimesRandom :: "'b boost_scheme \<Rightarrow> DhtOperation \<Rightarrow> string \<Rightarrow> nat \<Rightarrow> (EventProfile \<times> nat) result" where
  "newNTimesRandom B op params k =
     andThen (vectorAt (paramsVector B params) 0) (\<lambda>p.
     andThen (castUnsigned B p) (\<lambda>setSize.
     andThen (newRandomDictionary B setSize) (\<lambda>d.
     andThen (NTimesRandom_loop B op d (drop 1 (paramsVector B params)) (EventQueue_empty, k)) (\<lambda>(queue, k').
     Inr (\<lparr>eventType = op, impl = NTimesRandom \<lparr>ntimesDictionary = d\<rparr>, eventQueue = queue\<rparr>, k')))))"

definition NTimesRandom_scheduleNextEvent :: "EventQueue \<Rightarrow> timeUnit" where
  "NTimesRandom_scheduleNextEvent queue = getNextEventTime queue"

section \<open>None, Now\<close>

definition newNone :: "DhtOperation \<Rightarrow> nat \<Rightarrow> (EventProfile \<times> nat) result" where
  "newNone op k = Inr (\<lparr>eventType = op, impl = NoneProfile, eventQueue = EventQueue_empty\<rparr>, k)"

definition None_scheduleNextEvent :: timeUnit where
  "None_scheduleNextEvent = 0"

definition Now_pushPlain :: "DhtOperation \<Rightarrow> timeUnit \<Rightarrow> EventQueue \<Rightarrow> EventQueue result" where
  "Now_pushPlain op t queue = Inr (EventQueue_push (plainEvent op t) queue)"

definition Now_pushPut :: "timeUnit \<Rightarrow> EventQueue \<Rightarrow> EventQueue result" where
  "Now_pushPut t queue = Inl ExitFailure"

definition Now_pushGet :: "timeUnit \<Rightarrow> EventQueue \<Rightarrow> EventQueue result" where
  "Now_pushGet t queue = Inl ExitFailure"

definition Now_pushElement :: "DhtOperation \<Rightarrow> timeUnit \<Rightarrow> EventQueue \<Rightarrow> EventQueue result" where
  "Now_pushElement op =
     (case op of
        Put \<Rightarrow> Now_pushPut
      | Get \<Rightarrow> Now_pushGet
      | _ \<Rightarrow> Now_pushPlain op)"

definition newNow :: "'b boost_scheme \<Rightarrow> DhtOperation \<Rightarrow> string \<Rightarrow> nat \<Rightarrow> (EventProfile \<times> nat) result" where
  "newNow B op params k =
     (case paramsVector B params of
        [timeString] \<Rightarrow>
          andThen (getTimeFromString B timeString k) (\<lambda>(t, k').
          andThen (Now_pushElement op (word_of_int t) EventQueue_empty) (\<lambda>queue.
          Inr (\<lparr>eventType = op, impl = Now, eventQueue = queue\<rparr>, k')))
      | _ \<Rightarrow> Inl ExitFailure)"

definition Now_scheduleNextEvent :: "DhtOperation \<Rightarrow> timeUnit \<Rightarrow> EventQueue \<Rightarrow> (timeUnit \<times> EventQueue) result" where
  "Now_scheduleNextEvent op currentTime queue =
     (if getNextEventTime queue = 0 then
        andThen (Now_pushElement op currentTime queue) (\<lambda>queue. Inr (getNextEventTime queue, queue))
      else Inr (getNextEventTime queue, queue))"

section \<open>PoissonRandom\<close>

definition PoissonRandom_pushPlain ::
    "DhtOperation \<Rightarrow> timeUnit \<Rightarrow> EventQueue \<times> nat \<Rightarrow> (EventQueue \<times> nat) result" where
  "PoissonRandom_pushPlain op t = (\<lambda>(queue, k). Inr (EventQueue_push (plainEvent op t) queue, k))"

definition PoissonRandom_pushPut ::
    "'b boost_scheme \<Rightarrow> RandomDictionary \<Rightarrow> timeUnit \<Rightarrow> EventQueue \<times> nat \<Rightarrow> (EventQueue \<times> nat) result" where
  "PoissonRandom_pushPut B d t st = pushRandomPut B d t st"

definition PoissonRandom_pushGet ::
    "'b boost_scheme \<Rightarrow> RandomDictionary \<Rightarrow> timeUnit \<Rightarrow> EventQueue \<times> nat \<Rightarrow> (EventQueue \<times> nat) result" where
  "PoissonRandom_pushGet B d t st = pushRandomGet B d t st"

definition PoissonRandom_pushElement ::
    "'b boost_scheme \<Rightarrow> DhtOperation \<Rightarrow> RandomDictionary \<Rightarrow> timeUnit \<Rightarrow> EventQueue \<times> nat \<Rightarrow> (EventQueue \<times> nat) result" where
  "PoissonRandom_pushElement B op d t st =
     (case op of
        Put \<Rightarrow> PoissonRandom_pushPut B d t st
      | Get \<Rightarrow> PoissonRandom_pushGet B d t st
      | _ \<Rightarrow> PoissonRandom_pushPlain op t st)"

definition newPoissonRandom :: "'b boost_scheme \<Rightarrow> DhtOperation \<Rightarrow> string \<Rightarrow> nat \<Rightarrow> (EventProfile \<times> nat) result" where
  "newPoissonRandom B op params k =
     (case paramsVector B params of
        [setSizeString, lambdaString, timeBeginString] \<Rightarrow>
          andThen (castUnsigned B setSizeString) (\<lambda>setSize.
          andThen (castDouble B lambdaString) (\<lambda>mean.
          andThen (castUnsigned B timeBeginString) (\<lambda>timeBegin.
          andThen (newRandomDictionary B setSize) (\<lambda>d.
          andThen (newPoissonRandomNumber B mean) (\<lambda>poisson.
          let (n, k') = PoissonRandomNumber_get B poisson k;
              lastEvent = timeBegin + word_of_int n
          in andThen (PoissonRandom_pushElement B op d lastEvent (EventQueue_empty, k')) (\<lambda>(queue, k'').
             Inr (\<lparr>eventType = op,
                   impl = PoissonRandom \<lparr>poissonLast = lastEvent, poissonDictionary = d, poissonNumber = poisson\<rparr>,
                   eventQueue = queue\<rparr>, k'')))))))
      | _ \<Rightarrow> Inl ExitFailure)"

definition PoissonRandom_scheduleNextEvent ::
    "'b boost_scheme \<Rightarrow> DhtOperation \<Rightarrow> PoissonRandomMembers \<Rightarrow> EventQueue \<times> nat
       \<Rightarrow> (timeUnit \<times> PoissonRandomMembers \<times> EventQueue \<times> nat) result" where
  "PoissonRandom_scheduleNextEvent B op m = (\<lambda>(queue, k).
     if getNextEventTime queue = 0 then
       let (n, k) = PoissonRandomNumber_get B (poissonNumber m) k;
           m = m\<lparr>poissonLast := poissonLast m + word_of_int n\<rparr>
       in andThen (PoissonRandom_pushElement B op (poissonDictionary m) (poissonLast m) (queue, k)) (\<lambda>(queue, k).
          Inr (getNextEventTime queue, m, queue, k))
     else Inr (getNextEventTime queue, m, queue, k))"

section \<open>WeibullRandom\<close>

definition WeibullRandom_pushPlain ::
    "DhtOperation \<Rightarrow> timeUnit \<Rightarrow> EventQueue \<times> nat \<Rightarrow> (EventQueue \<times> nat) result" where
  "WeibullRandom_pushPlain op t = (\<lambda>(queue, k). Inr (EventQueue_push (plainEvent op t) queue, k))"

definition WeibullRandom_pushPut ::
    "'b boost_scheme \<Rightarrow> RandomDictionary \<Rightarrow> timeUnit \<Rightarrow> EventQueue \<times> nat \<Rightarrow> (EventQueue \<times> nat) result" where
  "WeibullRandom_pushPut B d t st = pushRandomPut B d t st"

definition WeibullRandom_pushGet ::
    "'b boost_scheme \<Rightarrow> RandomDictionary \<Rightarrow> timeUnit \<Rightarrow> EventQueue \<times> nat \<Rightarrow> (EventQueue \<times> nat) result" where
  "WeibullRandom_pushGet B d t st = pushRandomGet B d t st"

definition WeibullRandom_pushElement ::
    "'b boost_scheme \<Rightarrow> DhtOperation \<Rightarrow> RandomDictionary \<Rightarrow> timeUnit \<Rightarrow> EventQueue \<times> nat \<Rightarrow> (EventQueue \<times> nat) result" where
  "WeibullRandom_pushElement B op d t st =
     (case op of
        Put \<Rightarrow> WeibullRandom_pushPut B d t st
      | Get \<Rightarrow> WeibullRandom_pushGet B d t st
      | _ \<Rightarrow> WeibullRandom_pushPlain op t st)"

definition newWeibullRandom :: "'b boost_scheme \<Rightarrow> DhtOperation \<Rightarrow> string \<Rightarrow> nat \<Rightarrow> (EventProfile \<times> nat) result" where
  "newWeibullRandom B op params k =
     (case paramsVector B params of
        [setSizeString, shapeString, scaleString] \<Rightarrow>
          andThen (castUnsigned B setSizeString) (\<lambda>setSize.
          andThen (castDouble B shapeString) (\<lambda>shape.
          andThen (castDouble B scaleString) (\<lambda>scale.
          andThen (newRandomDictionary B setSize) (\<lambda>d.
          andThen (newWeibullRandomNumber B shape scale) (\<lambda>weibull.
          Inr (\<lparr>eventType = op, impl = WeibullRandom \<lparr>weibullDictionary = d, weibullNumber = weibull\<rparr>,
                eventQueue = EventQueue_empty\<rparr>, k))))))
      | _ \<Rightarrow> Inl ExitFailure)"

text \<open>\<open>round\<close> of C rounds halves away from zero; a value outside \<open>int\<close> cannot be converted.\<close>

definition cround :: "real \<Rightarrow> int" where
  "cround x = (if x < 0 then - \<lfloor>1 / 2 - x\<rfloor> else \<lfloor>x + 1 / 2\<rfloor>)"

definition roundToInt :: "real \<Rightarrow> int result" where
  "roundToInt x = andThen (require (fitsInt (cround x)) UndefinedBehaviour) (\<lambda>_. Inr (cround x))"

definition WeibullRandom_scheduleNextEvent ::
    "'b boost_scheme \<Rightarrow> DhtOperation \<Rightarrow> timeUnit \<Rightarrow> WeibullRandomMembers \<Rightarrow> EventQueue \<times> nat
       \<Rightarrow> (timeUnit \<times> EventQueue \<times> nat) result" where
  "WeibullRandom_scheduleNextEvent B op currentTime m = (\<lambda>(queue, k).
     if getNextEventTime queue = 0 then
       let (x, k) = WeibullRandomNumber_get B (weibullNumber m) k
       in andThen (roundToInt x) (\<lambda>n.
          andThen (WeibullRandom_pushElement B op (weibullDictionary m) (currentTime + word_of_int n) (queue, k)) (\<lambda>(queue, k).
          Inr (getNextEventTime queue, queue, k)))
     else Inr (getNextEventTime queue, queue, k))"

section \<open>Profile\<close>

definition splitProfileIntoTypeAndParams :: "'b boost_scheme \<Rightarrow> string \<Rightarrow> (string \<times> string) result" where
  "splitProfileIntoTypeAndParams B profile =
     (case boostSplit B separators profile of
        [] \<Rightarrow> Inl UndefinedBehaviour
      | type # deq \<Rightarrow> Inr (type, boostJoin B deq '' ''))"

definition makeProfile :: "'b boost_scheme \<Rightarrow> DhtOperation \<Rightarrow> string \<Rightarrow> nat \<Rightarrow> (EventProfile \<times> nat) result" where
  "makeProfile B op profile k =
     andThen (splitProfileIntoTypeAndParams B profile) (\<lambda>(type, params).
     if type = ''exact'' then newExact B op params k
     else if type = ''fulldictionary'' then newFullDictionary B op params k
     else if type = ''interval'' then newInterval B op params k
     else if type = ''none'' then newNone op k
     else if type = ''now'' then newNow B op params k
     else if type = ''ntimesrandom'' then newNTimesRandom B op params k
     else if type = ''poissonrandom'' then newPoissonRandom B op params k
     else if type = ''weibullrandom'' then newWeibullRandom B op params k
     else Inl ExitFailure)"

definition scheduleNextEvent ::
    "'b boost_scheme \<Rightarrow> timeUnit \<Rightarrow> EventProfile \<Rightarrow> nat \<Rightarrow> (timeUnit \<times> EventProfile \<times> nat) result" where
  "scheduleNextEvent B currentTime P k =
     (case impl P of
        Exact \<Rightarrow> Inr (Exact_scheduleNextEvent (eventQueue P), P, k)
      | FullDictionary \<Rightarrow> Inr (FullDictionary_scheduleNextEvent (eventQueue P), P, k)
      | Interval m \<Rightarrow>
          andThen (Interval_scheduleNextEvent B (eventType P) m (eventQueue P, k)) (\<lambda>(n, m, queue, k).
          Inr (n, P\<lparr>impl := Interval m, eventQueue := queue\<rparr>, k))
      | NoneProfile \<Rightarrow> Inr (None_scheduleNextEvent, P, k)
      | Now \<Rightarrow>
          andThen (Now_scheduleNextEvent (eventType P) currentTime (eventQueue P)) (\<lambda>(n, queue).
          Inr (n, P\<lparr>eventQueue := queue\<rparr>, k))
      | NTimesRandom m \<Rightarrow> Inr (NTimesRandom_scheduleNextEvent (eventQueue P), P, k)
      | PoissonRandom m \<Rightarrow>
          andThen (PoissonRandom_scheduleNextEvent B (eventType P) m (eventQueue P, k)) (\<lambda>(n, m, queue, k).
          Inr (n, P\<lparr>impl := PoissonRandom m, eventQueue := queue\<rparr>, k))
      | WeibullRandom m \<Rightarrow>
          andThen (WeibullRandom_scheduleNextEvent B (eventType P) currentTime m (eventQueue P, k)) (\<lambda>(n, queue, k).
          Inr (n, P\<lparr>eventQueue := queue\<rparr>, k)))"

definition getEvents :: "timeUnit \<Rightarrow> EventProfile \<Rightarrow> DhtEvent list \<times> EventProfile" where
  "getEvents currentTime P =
     (let (events, queue) = popEvents (eventQueue P) currentTime in (events, P\<lparr>eventQueue := queue\<rparr>))"

end
