(* ===== verification/ProfileInvariant.thy ===== *)
theory ProfileInvariant
  imports Profiles
begin

text \<open>
  What the profiles keep and promise: the invariant of a profile, the interface of a profile to the
  controller, the words that are drawn, the text of an exact profile, and the properties.
\<close>

section \<open>The specialisations together\<close>

text \<open>The event of a dictionary word, and the step that draws and pushes one.\<close>

definition wordEvent :: "DhtOperation \<Rightarrow> timeUnit \<Rightarrow> string \<Rightarrow> DhtEvent" where
  "wordEvent op t w = (if op = Put then DhtPutEvent t w (w @ ''_value'') else DhtGetEvent t w)"

definition usesWords :: "DhtOperation \<Rightarrow> bool" where
  "usesWords op \<longleftrightarrow> op = Put \<or> op = Get"

definition pushRandomWord ::
    "'b boost_scheme \<Rightarrow> DhtOperation \<Rightarrow> RandomDictionary \<Rightarrow> timeUnit \<Rightarrow> EventQueue \<times> nat \<Rightarrow> (EventQueue \<times> nat) result" where
  "pushRandomWord B op d t = (\<lambda>(queue, k).
     andThen (getRandomWord B d k) (\<lambda>(w, k').
     Inr (EventQueue_push (wordEvent op t w) queue, k')))"

lemma pushRandom_word:
  "pushRandomPut B d t = pushRandomWord B Put d t"
  "pushRandomGet B d t = pushRandomWord B Get d t"
  by (simp_all add: pushRandomPut_def pushRandomGet_def pushRandomWord_def wordEvent_def)

text \<open>The push of the Poisson and Weibull classes: the generic one for joins and leaves, else one word.\<close>

definition pushOne ::
    "'b boost_scheme \<Rightarrow> DhtOperation \<Rightarrow> RandomDictionary \<Rightarrow> timeUnit \<Rightarrow> EventQueue \<times> nat \<Rightarrow> (EventQueue \<times> nat) result" where
  "pushOne B op d t st =
     (if usesWords op then pushRandomWord B op d t st
      else Inr (EventQueue_push (plainEvent op t) (fst st), snd st))"

lemma pushElement_Poisson: "PoissonRandom_pushElement B op d t st = pushOne B op d t st"
  by (cases op) (simp_all add: PoissonRandom_pushElement_def PoissonRandom_pushPut_def PoissonRandom_pushGet_def
      PoissonRandom_pushPlain_def pushOne_def usesWords_def pushRandom_word split_def)

lemma pushElement_Weibull: "WeibullRandom_pushElement B op d t st = pushOne B op d t st"
  by (cases op) (simp_all add: WeibullRandom_pushElement_def WeibullRandom_pushPut_def WeibullRandom_pushGet_def
      WeibullRandom_pushPlain_def pushOne_def usesWords_def pushRandom_word split_def)

lemma pushElement_Interval:
  "Interval_pushElement B op m t st =
     andThen (require (usesWords op) ExitFailure) (\<lambda>_.
     repeatResult (unat (intervalRepetitions m)) (pushRandomWord B op (intervalDictionary m) t) st)"
  by (cases op) (simp_all add: Interval_pushElement_def Interval_pushPut_def Interval_pushGet_def Interval_pushPlain_def
      usesWords_def pushRandom_word)

lemma pushElement_NTimes:
  "NTimesRandom_pushElement B op d t reps st =
     andThen (require (usesWords op) ExitFailure) (\<lambda>_. repeatResult (unat reps) (pushRandomWord B op d t) st)"
  by (cases op) (simp_all add: NTimesRandom_pushElement_def NTimesRandom_pushPut_def NTimesRandom_pushGet_def
      NTimesRandom_pushPlain_def usesWords_def pushRandom_word)

lemma pushElement_FullDictionary:
  "FullDictionary_pushElement op t queue w =
     andThen (require (usesWords op) ExitFailure) (\<lambda>_. Inr (EventQueue_push (wordEvent op t w) queue))"
  by (cases op) (simp_all add: FullDictionary_pushElement_def FullDictionary_pushPut_def FullDictionary_pushGet_def
      FullDictionary_pushPlain_def usesWords_def wordEvent_def)

lemma pushElement_Now:
  "Now_pushElement op t queue =
     (if usesWords op then Inl ExitFailure else Inr (EventQueue_push (plainEvent op t) queue))"
  by (cases op) (simp_all add: Now_pushElement_def Now_pushPut_def Now_pushGet_def Now_pushPlain_def usesWords_def)

lemmas pushElement_eqs = pushElement_Poisson pushElement_Weibull pushElement_Interval pushElement_NTimes
  pushElement_FullDictionary pushElement_Now

text \<open>What the calls of \<open>scheduleNextEvent\<close> do when the queue reports no next event.\<close>

definition refill :: "'b boost_scheme \<Rightarrow> timeUnit \<Rightarrow> EventProfile \<Rightarrow> nat \<Rightarrow> (EventProfile \<times> nat) result" where
  "refill B currentTime P k =
     (case impl P of
        Interval m \<Rightarrow>
          let m = m\<lparr>intervalLast := intervalLast m + intervalFrequency m\<rparr>
          in andThen (Interval_pushElement B (eventType P) m (intervalLast m) (eventQueue P, k)) (\<lambda>(queue, k').
             Inr (P\<lparr>impl := Interval m, eventQueue := queue\<rparr>, k'))
      | Now \<Rightarrow>
          andThen (Now_pushElement (eventType P) currentTime (eventQueue P)) (\<lambda>queue.
          Inr (P\<lparr>eventQueue := queue\<rparr>, k))
      | PoissonRandom m \<Rightarrow>
          let (n, k') = PoissonRandomNumber_get B (poissonNumber m) k;
              m = m\<lparr>poissonLast := poissonLast m + word_of_int n\<rparr>
          in andThen (pushOne B (eventType P) (poissonDictionary m) (poissonLast m) (eventQueue P, k')) (\<lambda>(queue, k'').
             Inr (P\<lparr>impl := PoissonRandom m, eventQueue := queue\<rparr>, k''))
      | WeibullRandom m \<Rightarrow>
          let (x, k') = WeibullRandomNumber_get B (weibullNumber m) k
          in andThen (roundToInt x) (\<lambda>n.
             andThen (pushOne B (eventType P) (weibullDictionary m) (currentTime + word_of_int n) (eventQueue P, k')) (\<lambda>(queue, k'').
             Inr (P\<lparr>eventQueue := queue\<rparr>, k'')))
      | _ \<Rightarrow> Inr (P, k))"

lemmas schedule_defs = scheduleNextEvent_def Exact_scheduleNextEvent_def FullDictionary_scheduleNextEvent_def
  Interval_scheduleNextEvent_def None_scheduleNextEvent_def Now_scheduleNextEvent_def NTimesRandom_scheduleNextEvent_def
  PoissonRandom_scheduleNextEvent_def WeibullRandom_scheduleNextEvent_def

lemma scheduleNextEvent_refill:
  "scheduleNextEvent B currentTime P k =
     (if impl P = NoneProfile then Inr (0, P, k)
      else if getNextEventTime (eventQueue P) = 0
      then andThen (refill B currentTime P k) (\<lambda>(P', k').
           Inr (getNextEventTime (eventQueue P'), P', k'))
      else Inr (getNextEventTime (eventQueue P), P, k))"
  by (cases P; cases "impl P")
    (auto simp: schedule_defs refill_def pushElement_Poisson pushElement_Weibull andThen_assoc Let_def split_def
      intro!: andThen_cong)

lemma repeatResult_invariant:
  assumes "repeatResult n f s = Inr s'" and "I s" and "\<And>s s'. I s \<Longrightarrow> f s = Inr s' \<Longrightarrow> I s'"
  shows "I s'"
  using assms by (induction n arbitrary: s) (auto simp: andThen_Inr_iff)

section \<open>The invariant of a profile\<close>

definition queueOk :: "DhtOperation \<Rightarrow> EventQueue \<Rightarrow> bool" where
  "queueOk op queue \<longleftrightarrow> validQueue queue \<and> (\<forall>e \<in> set queue. eventKind e = op)"

definition dictOk :: "RandomDictionary \<Rightarrow> bool" where
  "dictOk d \<longleftrightarrow> unat (upperBound d) < dictionarySize"

fun implOk :: "DhtOperation \<Rightarrow> EventQueue \<Rightarrow> profileImpl \<Rightarrow> bool" where
  "implOk op queue (Interval m) \<longleftrightarrow> dictOk (intervalDictionary m) \<and> usesWords op"
| "implOk op queue (NTimesRandom m) \<longleftrightarrow> dictOk (ntimesDictionary m)"
| "implOk op queue (PoissonRandom m) \<longleftrightarrow> dictOk (poissonDictionary m) \<and> 0 < poissonMean (poissonNumber m)"
| "implOk op queue (WeibullRandom m) \<longleftrightarrow>
     dictOk (weibullDictionary m) \<and> 0 < weibullShape (weibullNumber m) \<and> 0 < weibullScale (weibullNumber m)"
| "implOk op queue Now \<longleftrightarrow> \<not> usesWords op"
| "implOk op queue NoneProfile \<longleftrightarrow> queue = []"
| "implOk op queue _ \<longleftrightarrow> True"

definition profileOk :: "EventProfile \<Rightarrow> bool" where
  "profileOk P \<longleftrightarrow> queueOk (eventType P) (eventQueue P) \<and> implOk (eventType P) (eventQueue P) (impl P)"

lemma queueOk_empty [simp]: "queueOk op EventQueue_empty"
  using evq.valid_empty by (simp add: queueOk_def EventQueue_empty_def)

lemma queueOk_push [simp]:
  "queueOk op queue \<Longrightarrow> eventKind e = op \<Longrightarrow> queueOk op (EventQueue_push e queue)"
  using evq.valid_push [of queue e] mset_eq_setD [OF evq.pending_push [of queue e, unfolded mset.simps(2) [symmetric]]]
  by (auto simp: queueOk_def)

lemma eventKind_plain [simp]: "\<not> usesWords op \<Longrightarrow> eventKind (plainEvent op t) = op"
  by (cases op) (auto simp: plainEvent_def usesWords_def)

lemma eventKind_word [simp]: "usesWords op \<Longrightarrow> eventKind (wordEvent op t w) = op"
  by (auto simp: wordEvent_def usesWords_def)

lemma newRandomDictionary_ok: "newRandomDictionary B n = Inr d \<Longrightarrow> dictOk d"
  by (auto simp: newRandomDictionary_def andThen_Inr_iff dictOk_def)

lemma Exact_pushElement_ok:
  assumes "Exact_pushElement B op params (queue, i, k) = Inr (queue', i', k')" and "queueOk op queue"
  shows "queueOk op queue'"
  using assms
  by (cases op)
    (auto simp: Exact_push_defs andThen_Inr_iff plainEvent_def)

lemma Exact_loop_ok:
  "Exact_loop B op params queue i k = Inr (queue', k') \<Longrightarrow> queueOk op queue \<Longrightarrow> queueOk op queue'"
proof (induction B op params queue i k rule: Exact_loop.induct)
  case (1 B op params queue i k)
  show ?case
  proof (cases "i < length params")
    case True
    then obtain q j l where step: "Exact_pushElement B op params (queue, i, k) = Inr (q, j, l)"
      and next_step: "Exact_loop B op params q j l = Inr (queue', k')"
      using "1.prems"(1) by (auto simp: Exact_loop.simps [of B op params queue] split: sum.splits prod.splits)
    show ?thesis
      using "1.IH" [OF True step refl refl next_step] Exact_pushElement_ok [OF step "1.prems"(2)] by simp
  next
    case False
    then show ?thesis using "1.prems" by (simp add: Exact_loop.simps [of B op params queue])
  qed
qed

lemma FullDictionary_step_ok:
  assumes "FullDictionary_step B op n st s = Inr st'" and "queueOk op (fst st)"
  shows "queueOk op (fst st')"
proof -
  obtain queue k where st: "st = (queue, k)"
    by fastforce
  from assms(1) obtain t k' queue' where st': "st' = (queue', k')"
    and f: "foldResult (FullDictionary_pushElement op t) queue (take n dictionary) = Inr queue'"
    by (auto simp: st FullDictionary_step_def andThen_Inr_iff)
  have "queueOk op queue"
    using assms(2) by (simp add: st)
  with f have "queueOk op queue'"
    by (rule foldResult_invariant [where P = "queueOk op"])
      (auto simp: pushElement_FullDictionary andThen_Inr_iff)
  then show ?thesis by (simp add: st')
qed

lemma pushRandomWord_ok:
  assumes "pushRandomWord B op d t st = Inr st'" and "usesWords op" and "queueOk op (fst st)"
  shows "queueOk op (fst st')"
  using assms by (auto simp: pushRandomWord_def andThen_Inr_iff split_def)

lemma repeat_pushRandomWord_ok:
  assumes "repeatResult n (pushRandomWord B op d t) st = Inr st'" and "usesWords op" and "queueOk op (fst st)"
  shows "queueOk op (fst st')"
  using assms(1,3)
  by (rule repeatResult_invariant [where I = "\<lambda>st. queueOk op (fst st)"])
    (use assms(2) pushRandomWord_ok in blast)

lemma Interval_pushElement_ok:
  "Interval_pushElement B op m t st = Inr st' \<Longrightarrow> queueOk op (fst st) \<Longrightarrow> queueOk op (fst st') \<and> usesWords op"
  by (auto simp: pushElement_Interval andThen_Inr_iff dest: repeat_pushRandomWord_ok)

lemma NTimesRandom_loop_ok:
  "NTimesRandom_loop B op d params st = Inr st' \<Longrightarrow> queueOk op (fst st) \<Longrightarrow> queueOk op (fst st')"
proof (induction B op d params st rule: NTimesRandom_loop.induct)
  case (3 B op d timeString repetitionsString params st)
  from "3.prems"(1) obtain t reps st1 where params: "castUnsigned B timeString = Inr t"
      "castUnsigned B repetitionsString = Inr reps"
    and push: "NTimesRandom_pushElement B op d t reps st = Inr st1"
    and loop: "NTimesRandom_loop B op d params st1 = Inr st'"
    by (auto simp: andThen_Inr_iff)
  from push "3.prems"(2) have "queueOk op (fst st1)"
    by (auto simp: pushElement_NTimes andThen_Inr_iff dest: repeat_pushRandomWord_ok)
  then show ?case
    using "3.IH" params push loop by blast
qed (auto simp: andThen_Inr_iff)

lemma pushOne_ok:
  "pushOne B op d t st = Inr st' \<Longrightarrow> queueOk op (fst st) \<Longrightarrow> queueOk op (fst st')"
  by (auto simp: pushOne_def intro: pushRandomWord_ok split: if_splits)

lemma Now_pushElement_ok:
  "Now_pushElement op t queue = Inr queue' \<Longrightarrow> queueOk op queue \<Longrightarrow> queueOk op queue' \<and> \<not> usesWords op"
  by (auto simp: pushElement_Now split: if_splits)

lemmas push_ok_rules =
  Exact_loop_ok Interval_pushElement_ok NTimesRandom_loop_ok pushOne_ok Now_pushElement_ok newRandomDictionary_ok

lemma makeProfile_ok:
  assumes "makeProfile B op profile k = Inr (P, k')"
  shows "profileOk P \<and> eventType P = op"
proof -
  obtain type params where split: "splitProfileIntoTypeAndParams B profile = Inr (type, params)"
    using assms by (auto simp: makeProfile_def andThen_Inr_iff)
  have exact: ?thesis if "newExact B op params k = Inr (P, k')"
    using that by (auto simp: newExact_def andThen_Inr_iff profileOk_def dest: Exact_loop_ok)
  have full: ?thesis if "newFullDictionary B op params k = Inr (P, k')"
  proof -
    from that obtain n queue where P: "P = \<lparr>eventType = op, impl = FullDictionary, eventQueue = queue\<rparr>"
      and f: "foldResult (FullDictionary_step B op n) (EventQueue_empty, k) (drop 1 (paramsVector B params)) = Inr (queue, k')"
      by (auto simp: newFullDictionary_def andThen_Inr_iff)
    have "queueOk op (fst (queue, k'))"
      using f by (rule foldResult_invariant [where P = "\<lambda>st. queueOk op (fst st)"])
        (auto dest: FullDictionary_step_ok)
    then show ?thesis by (simp add: P profileOk_def)
  qed
  have interval: ?thesis if "newInterval B op params k = Inr (P, k')"
    using that by (auto simp: newInterval_def andThen_Inr_iff profileOk_def Let_def
        dest!: Interval_pushElement_ok newRandomDictionary_ok split: list.splits)
  have none: ?thesis if "newNone op k = Inr (P, k')"
    using that by (auto simp: newNone_def profileOk_def) (simp add: EventQueue_empty_def)
  have now: ?thesis if "newNow B op params k = Inr (P, k')"
    using that by (auto simp: newNow_def andThen_Inr_iff profileOk_def
        dest!: Now_pushElement_ok split: list.splits)
  have ntimes: ?thesis if "newNTimesRandom B op params k = Inr (P, k')"
    using that by (auto simp: newNTimesRandom_def andThen_Inr_iff profileOk_def
        dest!: NTimesRandom_loop_ok newRandomDictionary_ok)
  have poisson: ?thesis if "newPoissonRandom B op params k = Inr (P, k')"
    using that by (auto simp: newPoissonRandom_def newPoissonRandomNumber_def pushElement_Poisson andThen_Inr_iff profileOk_def split_def Let_def
        dest!: pushOne_ok newRandomDictionary_ok split: list.splits)
  have weibull: ?thesis if "newWeibullRandom B op params k = Inr (P, k')"
    using that by (auto simp: newWeibullRandom_def newWeibullRandomNumber_def andThen_Inr_iff profileOk_def
        dest!: newRandomDictionary_ok split: list.splits)
  show ?thesis
    using assms split exact full interval none now ntimes poisson weibull
    by (auto simp: makeProfile_def split: if_splits)
qed

text \<open>A refill keeps the events that are there, whatever it adds.\<close>

lemma pushRandomWord_mono:
  "pushRandomWord B op d t st = Inr st' \<Longrightarrow> validQueue (fst st) \<Longrightarrow>
     validQueue (fst st') \<and> mset (fst st) \<subseteq># mset (fst st')"
  by (auto simp: pushRandomWord_def andThen_Inr_iff split_def evq.valid_push evq.pending_push)

lemma repeat_pushRandomWord_mono:
  assumes "repeatResult n (pushRandomWord B op d t) st = Inr st'" and "validQueue (fst st)"
  shows "validQueue (fst st') \<and> mset (fst st) \<subseteq># mset (fst st')"
  using assms(1)
  by (rule repeatResult_invariant [where I = "\<lambda>s. validQueue (fst s) \<and> mset (fst st) \<subseteq># mset (fst s)"])
    (use assms(2) pushRandomWord_mono subset_mset.order_trans in \<open>blast+\<close>)

lemma pushOne_mono:
  "pushOne B op d t st = Inr st' \<Longrightarrow> validQueue (fst st) \<Longrightarrow>
     validQueue (fst st') \<and> mset (fst st) \<subseteq># mset (fst st')"
  by (auto simp: pushOne_def evq.valid_push evq.pending_push dest: pushRandomWord_mono split: if_splits)

lemma refill_ok:
  assumes "refill B t P k = Inr (P', k')" and "profileOk P"
  shows "profileOk P' \<and> eventType P' = eventType P \<and> mset (eventQueue P) \<subseteq># mset (eventQueue P')"
proof -
  have v: "validQueue (eventQueue P)"
    using assms(2) by (simp add: profileOk_def queueOk_def)
  show ?thesis
  proof (cases "impl P")
    case (Interval m)
    then show ?thesis
      using assms v
      by (auto simp: refill_def andThen_Inr_iff profileOk_def pushElement_Interval Let_def
          dest: repeat_pushRandomWord_ok repeat_pushRandomWord_mono)
  next
    case Now
    then show ?thesis
      using assms v
      by (auto simp: refill_def andThen_Inr_iff profileOk_def pushElement_Now evq.pending_push split: if_splits)
  next
    case (PoissonRandom m)
    then show ?thesis
      using assms v
      by (auto simp: refill_def andThen_Inr_iff profileOk_def split_def Let_def dest: pushOne_ok pushOne_mono)
  next
    case (WeibullRandom m)
    then show ?thesis
      using assms v
      by (auto simp: refill_def andThen_Inr_iff profileOk_def split_def Let_def dest: pushOne_ok pushOne_mono)
  qed (use assms in \<open>auto simp: refill_def\<close>)
qed

lemma scheduleNextEvent_ok:
  assumes "scheduleNextEvent B t P k = Inr (n, P', k')" and "profileOk P"
  shows "profileOk P' \<and> eventType P' = eventType P \<and> mset (eventQueue P) \<subseteq># mset (eventQueue P')
    \<and> n = getNextEventTime (eventQueue P')"
proof (cases "impl P = NoneProfile")
  case True
  then show ?thesis
    using assms by (auto simp: scheduleNextEvent_refill profileOk_def getNextEventTime_def)
next
  case False
  then show ?thesis
    using assms refill_ok [of B t P k P' k']
    by (auto simp: scheduleNextEvent_refill andThen_Inr_iff split: if_splits)
qed

lemma getEvents_ok:
  assumes "getEvents t P = (es, P')" and "profileOk P"
  shows "profileOk P' \<and> eventType P' = eventType P
    \<and> mset es = filter_mset (\<lambda>e. time e \<le> t) (mset (eventQueue P))
    \<and> sorted (map time es)
    \<and> mset (eventQueue P') = filter_mset (\<lambda>e. t < time e) (mset (eventQueue P))"
proof -
  obtain queue where pop: "popEvents (eventQueue P) t = (es, queue)"
    and P': "P' = P\<lparr>eventQueue := queue\<rparr>"
    using assms(1) by (auto simp: getEvents_def split: prod.splits)
  have valid: "validQueue (eventQueue P)"
    using assms(2) by (simp add: profileOk_def queueOk_def)
  note rest = evq.pop_rest [OF valid pop]
  then have sub: "set queue \<subseteq> set (eventQueue P)"
    by (metis filter_is_subset mset_filter set_mset_mset)
  have "queueOk (eventType P) queue"
    using assms(2) rest sub by (auto simp: profileOk_def queueOk_def)
  moreover have "implOk (eventType P) queue (impl P)"
    using assms(2) sub by (cases "impl P") (auto simp: profileOk_def)
  ultimately show ?thesis
    using evq.pop_taken [OF valid pop] evq.pop_sorted [OF valid pop] rest P'
    by (simp add: profileOk_def)
qed

section \<open>The interface of a profile to the controller\<close>

locale event_source =
  fixes schedule :: "timeUnit \<Rightarrow> 'p \<Rightarrow> nat \<Rightarrow> (timeUnit \<times> 'p \<times> nat) result"
    and take_due :: "timeUnit \<Rightarrow> 'p \<Rightarrow> DhtEvent list \<times> 'p"
    and good :: "'p \<Rightarrow> bool" and planned :: "'p \<Rightarrow> DhtEvent multiset" and kind :: "'p \<Rightarrow> DhtOperation"
  assumes kind_planned: "good p \<Longrightarrow> e \<in># planned p \<Longrightarrow> eventKind e = kind p"
    and schedule_good: "good p \<Longrightarrow> schedule t p k = Inr (n, p', k') \<Longrightarrow>
          good p' \<and> kind p' = kind p \<and> planned p \<subseteq># planned p'"
    and schedule_least: "good p \<Longrightarrow> schedule t p k = Inr (n, p', k') \<Longrightarrow> e \<in># planned p' \<Longrightarrow> n \<le> time e"
    and schedule_in: "good p \<Longrightarrow> schedule t p k = Inr (n, p', k') \<Longrightarrow> n \<noteq> 0 \<Longrightarrow> \<exists>e. e \<in># planned p' \<and> time e = n"
    and due_good: "good p \<Longrightarrow> take_due t p = (es, p') \<Longrightarrow> good p' \<and> kind p' = kind p"
    and due_events: "good p \<Longrightarrow> take_due t p = (es, p') \<Longrightarrow> mset es = filter_mset (\<lambda>e. time e \<le> t) (planned p)"
    and due_sorted: "good p \<Longrightarrow> take_due t p = (es, p') \<Longrightarrow> sorted (map time es)"
    and due_left: "good p \<Longrightarrow> take_due t p = (es, p') \<Longrightarrow> planned p' = filter_mset (\<lambda>e. t < time e) (planned p)"
begin

text \<open>When the announced time has come, taking the due events takes at least one, of the right kind.\<close>

lemma due_progress:
  assumes "good p" and "schedule t p k = Inr (n, p', k')" and "n \<noteq> 0" and "n \<le> u"
    and "take_due u p' = (es, p'')"
  shows "es \<noteq> [] \<and> (\<forall>e \<in> set es. eventKind e = kind p \<and> time e \<le> u)"
proof -
  have g: "good p'" "kind p' = kind p"
    using schedule_good [OF assms(1,2)] by simp_all
  obtain e where "e \<in># planned p'" "time e = n"
    using schedule_in [OF assms(1-3)] by blast
  have "set_mset (mset es) = {x \<in> set_mset (planned p'). time x \<le> u}"
    unfolding due_events [OF g(1) assms(5)] by simp
  then have es: "set es = {x. x \<in># planned p' \<and> time x \<le> u}"
    by simp
  then have "e \<in> set es"
    using \<open>e \<in># planned p'\<close> \<open>time e = n\<close> assms(4) by simp
  moreover have "eventKind x = kind p \<and> time x \<le> u" if "x \<in> set es" for x
    using that es kind_planned [OF g(1)] g(2) by simp
  ultimately show ?thesis by auto
qed

text \<open>Before that time, there is nothing to take.\<close>

lemma due_early:
  assumes "good p" and "schedule t p k = Inr (n, p', k')" and "u < n" and "take_due u p' = (es, p'')"
  shows "es = [] \<and> planned p'' = planned p'"
proof -
  have g: "good p'"
    using schedule_good [OF assms(1,2)] by simp
  have late: "u < time e" if "e \<in># planned p'" for e
    using schedule_least [OF assms(1,2) that] assms(3) by simp
  then have "mset es = {#}"
    using due_events [OF g assms(4)] by (auto simp: filter_mset_eq_mempty_iff not_le)
  moreover have "planned p'' = planned p'"
    using due_left [OF g assms(4)] late by (simp add: filter_mset_eq_conv)
  ultimately show ?thesis by simp
qed

end

interpretation profile: event_source "scheduleNextEvent B" getEvents profileOk "\<lambda>P. mset (eventQueue P)" eventType
  for B :: "'b boost_scheme"
proof
  show "eventKind e = eventType P" if "profileOk P" "e \<in># mset (eventQueue P)" for P e
    using that by (auto simp: profileOk_def queueOk_def)
  fix P t k n P' k'
  assume ok: "profileOk P" and s: "scheduleNextEvent B t P k = Inr (n, P', k')"
  note facts = scheduleNextEvent_ok [OF s ok]
  then have valid: "validQueue (eventQueue P')"
    by (simp add: profileOk_def queueOk_def)
  show "profileOk P' \<and> eventType P' = eventType P \<and> mset (eventQueue P) \<subseteq># mset (eventQueue P')"
    using facts by simp
  show "n \<le> time e" if "e \<in># mset (eventQueue P')" for e
    using evq.next_least [OF valid that] facts by simp
  show "\<exists>e. e \<in># mset (eventQueue P') \<and> time e = n" if "n \<noteq> 0"
    using evq.next_in [OF valid] evq.next_empty [OF valid] facts that by metis
next
  fix P t es P'
  assume "profileOk P" and "getEvents t P = (es, P')"
  from getEvents_ok [OF this(2,1)]
  show "profileOk P' \<and> eventType P' = eventType P"
    "mset es = filter_mset (\<lambda>e. time e \<le> t) (mset (eventQueue P))" "sorted (map time es)"
    "mset (eventQueue P') = filter_mset (\<lambda>e. t < time e) (mset (eventQueue P))"
    by simp_all
qed

section \<open>Words drawn for a profile\<close>

text \<open>The words that a dictionary can give: the first \<open>upperBound + 1\<close>.\<close>

definition drawable :: "RandomDictionary \<Rightarrow> string set" where
  "drawable d = set (take (unat (upperBound d) + 1) dictionary)"

lemma pushRandomWord_draws:
  assumes "random_documented B" and "dictOk d" and "validQueue queue"
  shows "\<exists>w queue'. w \<in> drawable d \<and> validQueue queue'
    \<and> mset queue' = add_mset (wordEvent op t w) (mset queue)
    \<and> pushRandomWord B op d t (queue, k) = Inr (queue', k + 1)"
proof -
  obtain i where i: "i \<le> unat (upperBound d)" "getRandomWord B d k = Inr (dictionary ! i, k + 1)"
    using getRandomWord_word assms(1,2) unfolding dictOk_def by blast
  have "dictionary ! i \<in> drawable d"
    using i(1) assms(2) unfolding drawable_def dictOk_def dictionarySize_def
    by (auto simp: in_set_conv_nth intro!: exI [of _ i])
  then show ?thesis
    using i(2) assms(3) by (auto simp: pushRandomWord_def evq.valid_push evq.pending_push)
qed

lemma repeat_pushRandomWord_draws:
  assumes "random_documented B" and "dictOk d" and "validQueue queue"
  shows "\<exists>ws queue'. length ws = n \<and> set ws \<subseteq> drawable d \<and> validQueue queue'
    \<and> mset queue' = mset (map (wordEvent op t) ws) + mset queue
    \<and> repeatResult n (pushRandomWord B op d t) (queue, k) = Inr (queue', k + n)"
  using assms(3)
proof (induction n arbitrary: queue k)
  case (Suc n)
  obtain w queue1 where w: "w \<in> drawable d" "validQueue queue1"
      "mset queue1 = add_mset (wordEvent op t w) (mset queue)"
      "pushRandomWord B op d t (queue, k) = Inr (queue1, k + 1)"
    using pushRandomWord_draws [OF assms(1,2) Suc.prems] by blast
  obtain ws queue' where "length ws = n" "set ws \<subseteq> drawable d" "validQueue queue'"
      "mset queue' = mset (map (wordEvent op t) ws) + mset queue1"
      "repeatResult n (pushRandomWord B op d t) (queue1, k + 1) = Inr (queue', k + 1 + n)"
    using Suc.IH [OF w(2)] by blast
  with w show ?case
    by (intro exI [of _ "w # ws"] exI [of _ queue']) simp
qed auto

section \<open>The text of an exact profile\<close>

definition plainWord :: "string \<Rightarrow> bool" where
  "plainWord w \<longleftrightarrow> w \<noteq> [] \<and> (\<forall>c \<in> set w. c \<notin> set separators)"

lemma plainWord_showInt [simp]: "plainWord (showInt t)"
proof -
  have "showInt t \<noteq> []"
    by (auto simp: showInt_def)
  moreover have "c \<notin> set separators" if "c \<in> set (showInt t)" for c
    using showInt_no_space [OF that] by (auto simp: separators_def isSpace_def)
  ultimately show ?thesis by (simp add: plainWord_def)
qed

lemma plainWord_literal [simp]: "plainWord ''exact''"
  by (simp add: plainWord_def separators_def)

lemma paramsVector_join:
  assumes "split_documented B" and "\<forall>w \<in> set ws. plainWord w"
  shows "paramsVector B (joinWith ws '' '') = ws"
proof -
  have "filter (\<lambda>s. s \<noteq> []) ws = ws"
    using assms(2) by (simp add: filter_id_conv plainWord_def)
  moreover have "splitOn separators (joinWith ws '' '') = ws" if "ws \<noteq> []"
    using assms(2) that by (intro splitOn_joinWith) (auto simp: separators_def plainWord_def)
  ultimately show ?thesis
    using assms(1)
    by (cases ws) (auto simp: paramsVector_def split_documented_def removeEmpty_filter)
qed

lemma split_profile_join:
  assumes "split_documented B" and "join_documented B" and "\<forall>w \<in> set (type # ws). plainWord w"
  shows "splitProfileIntoTypeAndParams B (joinWith (type # ws) '' '') = Inr (type, joinWith ws '' '')"
proof -
  have "splitOn separators (joinWith (type # ws) '' '') = type # ws"
    using assms(3) by (intro splitOn_joinWith) (auto simp: separators_def plainWord_def)
  then show ?thesis
    using assms(1,2)
    by (simp add: splitProfileIntoTypeAndParams_def split_documented_def join_documented_def)
qed

text \<open>A put of an exact profile in the workload file: a time, a key and a value.\<close>

type_synonym putEntry = "timeUnit \<times> string \<times> string"

definition putTokens :: "putEntry \<Rightarrow> string list" where
  "putTokens = (\<lambda>(t, w, v). [showInt (uint t), w, v])"

definition putEvent :: "putEntry \<Rightarrow> DhtEvent" where
  "putEvent = (\<lambda>(t, w, v). DhtPutEvent t w v)"

definition putEntryOk :: "putEntry \<Rightarrow> bool" where
  "putEntryOk = (\<lambda>(t, w, v). unat t < 2147483648 \<and> plainWord w \<and> plainWord v)"

lemma getTimeFromString_word:
  assumes "unat (t :: u32) < 2147483648"
  shows "getTimeFromString B (showInt (uint t)) k = Inr (uint t, k)"
proof -
  have "int (unat t) < int 2147483648"
    using assms by (simp only: of_nat_less_iff)
  then have "uint t < 2147483648"
    by simp
  then have "fitsInt (uint t)"
    unfolding fitsInt_def using uint_ge_0 [of t] by linarith
  then show ?thesis
    by (simp add: getTimeFromString_def scanTime_showInt)
qed

lemma Exact_loop_puts:
  assumes "\<forall>x \<in> set es. putEntryOk x" and "validQueue queue"
  shows "\<exists>queue'. Exact_loop B Put (pre @ concat (map putTokens es)) queue (length pre) k = Inr (queue', k)
    \<and> validQueue queue' \<and> mset queue' = mset (map putEvent es) + mset queue"
  using assms
proof (induction es arbitrary: pre queue)
  case Nil
  then show ?case by (simp add: Exact_loop.simps [of B Put pre])
next
  case (Cons x es)
  obtain t w v where x: "x = (t, w, v)"
    by (cases x) auto
  define q where "q = EventQueue_push (DhtPutEvent t w v) queue"
  have q: "validQueue q" "mset q = add_mset (DhtPutEvent t w v) (mset queue)"
    using Cons.prems(2) by (simp_all add: q_def evq.valid_push evq.pending_push)
  let ?params = "pre @ concat (map putTokens (x # es))"
  have tokens: "?params = (pre @ [showInt (uint t), w, v]) @ concat (map putTokens es)"
    by (simp add: x putTokens_def)
  have at: "vectorAt ?params (length pre) = Inr (showInt (uint t))"
    "vectorAt ?params (length pre + 1) = Inr w" "vectorAt ?params (length pre + 2) = Inr v"
    by (simp_all add: x putTokens_def vectorAt_def nth_append)
  have time: "getTimeFromString B (showInt (uint t)) k = Inr (uint t, k)"
    using Cons.prems(1) by (simp add: x putEntryOk_def getTimeFromString_word)
  have "Exact_pushElement B Put ?params (queue, length pre, k) = Inr (q, length pre + 3, k)"
    unfolding Exact_pushElement_def Exact_pushPut_def DhtOperation.case prod.case at andThen_simps time by (simp add: q_def)
  then have "Exact_loop B Put ?params queue (length pre) k = Exact_loop B Put ?params q (length pre + 3) k"
    by (subst Exact_loop.simps) (simp add: x putTokens_def)
  also have "\<dots> = Exact_loop B Put ((pre @ [showInt (uint t), w, v]) @ concat (map putTokens es)) q
      (length (pre @ [showInt (uint t), w, v])) k"
    unfolding tokens by (simp add: eval_nat_numeral)
  finally show ?case
    using Cons.IH [OF _ q(1), of "pre @ [showInt (uint t), w, v]"] Cons.prems(1) q(2)
    by (auto simp: x putEvent_def)
qed

section \<open>Properties\<close>

text \<open>
  C11. Every profile that \<open>makeProfile\<close> returns is well formed: its queue is a heap, it holds events of
  the template's class only, its dictionary cannot be read out of bounds, an interval profile is one
  of puts or gets and a now profile is not. Both operations keep this and the class.
\<close>

theorem profile_invariant:
  "(makeProfile B op text k = Inr (P, k') \<longrightarrow> profileOk P \<and> eventType P = op)
   \<and> (profileOk P \<and> scheduleNextEvent B t P k = Inr (n, P', k') \<longrightarrow> profileOk P' \<and> eventType P' = eventType P)
   \<and> (profileOk P \<longrightarrow> profileOk (snd (getEvents t P)) \<and> eventType (snd (getEvents t P)) = eventType P)"
proof (intro conjI impI)
  show "profileOk P" "eventType P = op" if "makeProfile B op text k = Inr (P, k')"
    using makeProfile_ok [OF that] by simp_all
  show "profileOk P'" "eventType P' = eventType P" if "profileOk P \<and> scheduleNextEvent B t P k = Inr (n, P', k')"
    using profile.schedule_good that by blast+
  show "profileOk (snd (getEvents t P))" "eventType (snd (getEvents t P)) = eventType P" if "profileOk P"
    using profile.due_good [OF that surjective_pairing] by simp_all
qed

theorem profile_invariant_witness:
  "profileOk \<lparr>eventType = Leave, impl = Now, eventQueue = [DhtLeaveEvent 7]\<rparr>"
proof -
  have "makeProfile refBoost Leave ''now 7'' 0 =
      Inr (\<lparr>eventType = Leave, impl = Now, eventQueue = [DhtLeaveEvent 7]\<rparr>, 0)"
    by code_simp
  then show ?thesis
    using profile_invariant [of refBoost Leave "''now 7''" 0] by blast
qed

text \<open>
  C13. What a profile announces is what it delivers: when the time that \<open>scheduleNextEvent\<close> returned
  (not 0) has come, \<open>getEvents\<close> returns at least one event, all due and of the profile's class, in
  order of time; asked before that time it returns none and keeps every event.
\<close>

theorem profile_announces_due_events:
  assumes "profileOk P" and "scheduleNextEvent B t P k = Inr (n, P', k')"
  shows "(n \<noteq> 0 \<and> n \<le> u \<longrightarrow>
           fst (getEvents u P') \<noteq> [] \<and> sorted (map time (fst (getEvents u P')))
           \<and> (\<forall>e \<in> set (fst (getEvents u P')). eventKind e = eventType P \<and> time e \<le> u))
    \<and> (u < n \<longrightarrow> fst (getEvents u P') = []
           \<and> mset (eventQueue (snd (getEvents u P'))) = mset (eventQueue P'))"
proof -
  have take: "getEvents u P' = (fst (getEvents u P'), snd (getEvents u P'))"
    by simp
  have "profileOk P'"
    using profile.schedule_good [OF assms] by simp
  from profile.due_sorted [OF this take] show ?thesis
    using profile.due_progress [OF assms _ _ take] profile.due_early [OF assms _ take] by blast
qed

theorem profile_announces_due_events_witness:
  "fst (getEvents 5 \<lparr>eventType = Leave, impl = Now, eventQueue = [DhtLeaveEvent 5]\<rparr>) \<noteq> []
   \<and> fst (getEvents 4 \<lparr>eventType = Leave, impl = Now, eventQueue = [DhtLeaveEvent 5]\<rparr>) = []"
proof -
  let ?P = "\<lparr>eventType = Leave, impl = Now, eventQueue = []\<rparr>"
  have ok: "profileOk ?P"
    using evq.valid_empty by (simp add: profileOk_def queueOk_def EventQueue_empty_def usesWords_def)
  have next_leave: "scheduleNextEvent refBoost 5 ?P 0 =
      Inr (5, \<lparr>eventType = Leave, impl = Now, eventQueue = [DhtLeaveEvent 5]\<rparr>, 0)"
    by code_simp
  show ?thesis
    using profile_announces_due_events [OF ok next_leave, of 5]
      profile_announces_due_events [OF ok next_leave, of 4] by simp
qed

text \<open>
  An exact put profile means what its text says: for any list of times below 2^31, keys and
  values without blanks, the profile made from \<open>exact\<close> followed by them has exactly these events.
\<close>

lemma exact_put_profile:
  assumes "split_documented B" and "join_documented B" and "\<forall>x \<in> set es. putEntryOk x"
  shows "\<exists>P. makeProfile B Put (joinWith (''exact'' # concat (map putTokens es)) '' '') k = Inr (P, k)
    \<and> impl P = Exact \<and> mset (eventQueue P) = mset (map putEvent es)"
proof -
  have words: "\<forall>w \<in> set (''exact'' # concat (map putTokens es)). plainWord w"
    using assms(3) by (auto simp: putTokens_def putEntryOk_def)
  then have "paramsVector B (joinWith (concat (map putTokens es)) '' '') = concat (map putTokens es)"
    by (intro paramsVector_join [OF assms(1)]) simp
  moreover obtain queue where "Exact_loop B Put (concat (map putTokens es)) EventQueue_empty 0 k = Inr (queue, k)"
      "mset queue = mset (map putEvent es)"
    using Exact_loop_puts [OF assms(3) evq.valid_empty, of B "[]" k] evq.pending_empty by auto
  ultimately show ?thesis
    using split_profile_join [OF assms(1,2) words]
    by (simp add: makeProfile_def newExact_def)
qed

lemma exact_put_profile_witness:
  "\<exists>P. makeProfile refBoost Put (joinWith (''exact'' # concat (map putTokens [(30, ''k'', ''v''), (20, ''a'', ''b'')])) '' '') 0 = Inr (P, 0)
    \<and> impl P = Exact \<and> mset (eventQueue P) = {#DhtPutEvent 30 ''k'' ''v'', DhtPutEvent 20 ''a'' ''b''#}"
proof -
  have "\<forall>x \<in> set [(30, ''k'', ''v''), (20, ''a'', ''b'')]. putEntryOk x"
    by (simp add: putEntryOk_def plainWord_def separators_def)
  from exact_put_profile [OF refBoost_split refBoost_join this, of 0] show ?thesis
    by (simp add: putEvent_def)
qed

text \<open>
  C27. An interval profile is an arithmetic progression: whenever its queue is empty, the next call
  adds \<open>repetitions\<close> events, all at the last time plus the frequency (modulo 2^32), with keys from
  the dictionary's first words, draws once per event, and announces exactly that time.
\<close>

theorem interval_progression:
  assumes "random_documented B" and "profileOk P" and "impl P = Interval m"
    and "eventQueue P = []" and "intervalRepetitions m \<noteq> 0" and "t' = intervalLast m + intervalFrequency m"
  shows "\<exists>P' ws. scheduleNextEvent B t P k = Inr (t', P', k + unat (intervalRepetitions m))
    \<and> impl P' = Interval (m\<lparr>intervalLast := t'\<rparr>)
    \<and> length ws = unat (intervalRepetitions m) \<and> set ws \<subseteq> drawable (intervalDictionary m)
    \<and> mset (eventQueue P') = mset (map (wordEvent (eventType P) t') ws)"
proof -
  let ?d = "intervalDictionary m" and ?n = "unat (intervalRepetitions m)"
  have d: "dictOk ?d" "usesWords (eventType P)"
    using assms(2,3) by (auto simp: profileOk_def)
  have v: "validQueue (eventQueue P)"
    using assms(2) by (simp add: profileOk_def queueOk_def)
  obtain ws queue where ws: "length ws = ?n" "set ws \<subseteq> drawable ?d" "validQueue queue"
      "mset queue = mset (map (wordEvent (eventType P) t') ws) + mset (eventQueue P)"
      "repeatResult ?n (pushRandomWord B (eventType P) ?d t') (eventQueue P, k) = Inr (queue, k + ?n)"
    using repeat_pushRandomWord_draws [OF assms(1) d(1) v] by blast
  have same: "time e = t'" if "e \<in># mset queue" for e
    using that ws(4) assms(4) by (auto simp: wordEvent_def)
  have "mset queue \<noteq> {#}"
    using ws(1,4) assms(5) by (auto simp: unat_eq_zero)
  then have "getNextEventTime queue = t'"
    using evq.next_in [OF ws(3)] same by metis
  then have "scheduleNextEvent B t P k = Inr (t', P\<lparr>impl := Interval (m\<lparr>intervalLast := t'\<rparr>), eventQueue := queue\<rparr>, k + ?n)"
    using d(2) ws(5) assms(3,4,6)
    by (simp add: scheduleNextEvent_refill refill_def pushElement_Interval getNextEventTime_def [of "[]"] Let_def)
  then show ?thesis
    using ws assms(4) by (intro exI conjI) (assumption | simp)+
qed

theorem interval_progression_witness:
  "\<exists>P' ws. scheduleNextEvent refBoost 3
       \<lparr>eventType = Put, impl = Interval \<lparr>intervalDictionary = \<lparr>upperBound = 4\<rparr>, intervalLast = 10, intervalFrequency = 5,
          intervalRepetitions = 2\<rparr>, eventQueue = []\<rparr> 0
      = Inr (15, P', 2) \<and> length ws = 2
      \<and> mset (eventQueue P') = mset (map (wordEvent Put 15) ws)"
proof -
  let ?m = "\<lparr>intervalDictionary = \<lparr>upperBound = 4\<rparr>, intervalLast = 10, intervalFrequency = 5, intervalRepetitions = 2\<rparr>"
  let ?P = "\<lparr>eventType = Put, impl = Interval ?m, eventQueue = []\<rparr>"
  have "profileOk ?P"
    using evq.valid_empty
    by (simp add: profileOk_def queueOk_def EventQueue_empty_def usesWords_def dictOk_def dictionarySize_eq)
  from interval_progression [OF refBoost_random this, of ?m 15 3 0] show ?thesis
    by auto
qed

text \<open>
  A \<open>weibullrandom\<close> profile takes three parameters: with the four that the documentation and the
  example workload give it, the program ends with an error, for every kind of event.
\<close>

lemma weibull_four_parameters:
  assumes "split_documented B" and "join_documented B"
    and "\<forall>w \<in> {setSize, shape, scale, timeBegin}. plainWord w"
  shows "makeProfile B op (joinWith [''weibullrandom'', setSize, shape, scale, timeBegin] '' '') k = Inl ExitFailure"
proof -
  have "plainWord ''weibullrandom''"
    by (simp add: plainWord_def separators_def)
  then show ?thesis
    using assms split_profile_join [OF assms(1,2), of "''weibullrandom''" "[setSize, shape, scale, timeBegin]"]
      paramsVector_join [OF assms(1), of "[setSize, shape, scale, timeBegin]"]
    by (simp add: makeProfile_def newWeibullRandom_def del: joinWith.simps)
qed

lemma weibull_four_parameters_witness:
  "makeProfile refBoost Get (joinWith [''weibullrandom'', ''10'', ''5.0'', ''2.0'', ''20''] '' '') 0 = Inl ExitFailure"
  by (rule weibull_four_parameters [OF refBoost_split refBoost_join]) (simp add: plainWord_def separators_def)

end
