(* ===== verification/ControllerWorkload.thy ===== *)
theory ControllerWorkload
  imports ProfileInvariant
begin

text \<open>
  \<open>src/src/controller/ControllerWorkloadProfile.cpp\<close>: the four profiles of a node and the duration
  of the run. A profile pointer that is still \<open>NULL\<close> is \<open>None\<close>, and using it is undefined behaviour.
\<close>

record ControllerWorkloadProfile =
  joinProfile :: "EventProfile option"
  leaveProfile :: "EventProfile option"
  putProfile :: "EventProfile option"
  getProfile :: "EventProfile option"
  duration :: timeUnit

definition newControllerWorkloadProfile :: ControllerWorkloadProfile where
  "newControllerWorkloadProfile =
     \<lparr>joinProfile = None, leaveProfile = None, putProfile = None, getProfile = None, duration = 0\<rparr>"

definition isComplete :: "ControllerWorkloadProfile \<Rightarrow> bool" where
  "isComplete W \<longleftrightarrow> joinProfile W \<noteq> None \<and> leaveProfile W \<noteq> None
     \<and> putProfile W \<noteq> None \<and> getProfile W \<noteq> None"

fun storeProfile :: "DhtOperation \<Rightarrow> EventProfile \<Rightarrow> ControllerWorkloadProfile \<Rightarrow> ControllerWorkloadProfile" where
  "storeProfile Join P W = W\<lparr>joinProfile := Some P\<rparr>"
| "storeProfile Leave P W = W\<lparr>leaveProfile := Some P\<rparr>"
| "storeProfile Put P W = W\<lparr>putProfile := Some P\<rparr>"
| "storeProfile Get P W = W\<lparr>getProfile := Some P\<rparr>"

fun profileFor :: "DhtOperation \<Rightarrow> ControllerWorkloadProfile \<Rightarrow> EventProfile option" where
  "profileFor Join W = joinProfile W"
| "profileFor Leave W = leaveProfile W"
| "profileFor Put W = putProfile W"
| "profileFor Get W = getProfile W"

text \<open>\<open>makeProfile\<close> ends the program rather than return \<open>NULL\<close>, so the result is always \<open>true\<close>.\<close>

definition setProfile ::
    "'b boost_scheme \<Rightarrow> DhtOperation \<Rightarrow> string \<Rightarrow> ControllerWorkloadProfile \<Rightarrow> nat
     \<Rightarrow> (bool \<times> ControllerWorkloadProfile \<times> nat) result" where
  "setProfile B op profile W k =
     andThen (makeProfile B op profile k) (\<lambda>(P, k'). Inr (True, storeProfile op P W, k'))"

definition setDuration :: "timeUnit \<Rightarrow> ControllerWorkloadProfile \<Rightarrow> ControllerWorkloadProfile" where
  "setDuration d W = W\<lparr>duration := d\<rparr>"

text \<open>\<open>profile_->scheduleNextEvent(currentTime)\<close> for one of the four pointers.\<close>

definition scheduleFor ::
    "'b boost_scheme \<Rightarrow> DhtOperation \<Rightarrow> timeUnit \<Rightarrow> ControllerWorkloadProfile \<Rightarrow> nat
     \<Rightarrow> (timeUnit \<times> ControllerWorkloadProfile \<times> nat) result" where
  "scheduleFor B op currentTime W k =
     (case profileFor op W of
        None \<Rightarrow> Inl UndefinedBehaviour
      | Some P \<Rightarrow>
          andThen (scheduleNextEvent B currentTime P k) (\<lambda>(n, P', k').
          Inr (n, storeProfile op P' W, k')))"

definition earlierOf :: "timeUnit \<Rightarrow> timeUnit \<Rightarrow> timeUnit" where
  "earlierOf ret aux = (if ret = 0 \<or> aux < ret \<and> aux \<noteq> 0 then aux else ret)"

definition workloadNextEventTime ::
    "'b boost_scheme \<Rightarrow> timeUnit \<Rightarrow> bool \<Rightarrow> ControllerWorkloadProfile \<Rightarrow> nat
     \<Rightarrow> (timeUnit \<times> ControllerWorkloadProfile \<times> nat) result" where
  "workloadNextEventTime B currentTime isConnected W k =
     (if isConnected then
        andThen (scheduleFor B Leave currentTime W k) (\<lambda>(ret, W, k).
        andThen (scheduleFor B Put currentTime W k) (\<lambda>(aux, W, k).
        let ret = earlierOf ret aux in
        andThen (scheduleFor B Get currentTime W k) (\<lambda>(aux, W, k).
        Inr (earlierOf ret aux, W, k))))
      else scheduleFor B Join currentTime W k)"

text \<open>\<open>getJoinEvents\<close>, \<open>getLeaveEvents\<close>, \<open>getPutEvents\<close> and \<open>getGetEvents\<close>.\<close>

definition eventsFor ::
    "DhtOperation \<Rightarrow> timeUnit \<Rightarrow> ControllerWorkloadProfile \<Rightarrow> (DhtEvent list \<times> ControllerWorkloadProfile) result" where
  "eventsFor op currentTime W =
     (case profileFor op W of
        None \<Rightarrow> Inl UndefinedBehaviour
      | Some P \<Rightarrow> let (es, P') = getEvents currentTime P in Inr (es, storeProfile op P' W))"

section \<open>The invariant\<close>

definition holdsProfile :: "DhtOperation \<Rightarrow> ControllerWorkloadProfile \<Rightarrow> bool" where
  "holdsProfile op W \<longleftrightarrow> (\<exists>P. profileFor op W = Some P \<and> profileOk P \<and> eventType P = op)"

definition workloadOk :: "ControllerWorkloadProfile \<Rightarrow> bool" where
  "workloadOk W \<longleftrightarrow> (\<forall>op. holdsProfile op W)"

text \<open>What a profile of the workload announces: the next time of its queue.\<close>

definition nextTimeOf :: "DhtOperation \<Rightarrow> ControllerWorkloadProfile \<Rightarrow> timeUnit" where
  "nextTimeOf op W = (case profileFor op W of None \<Rightarrow> 0 | Some P \<Rightarrow> getNextEventTime (eventQueue P))"

lemma profileFor_store [simp]:
  "profileFor op (storeProfile op' P W) = (if op = op' then Some P else profileFor op W)"
  by (cases op; cases op') simp_all

lemma duration_store [simp]: "duration (storeProfile op P W) = duration W"
  by (cases op) simp_all

lemma storeProfile_isComplete: "workloadOk W \<Longrightarrow> isComplete W"
  unfolding workloadOk_def holdsProfile_def isComplete_def
  by (metis option.distinct(1) profileFor.simps)

lemma setProfile_holds:
  assumes "setProfile B op text W k = Inr (b, W', k')"
  shows "b \<and> holdsProfile op W' \<and> (\<forall>op'. op' \<noteq> op \<longrightarrow> profileFor op' W' = profileFor op' W) \<and> duration W' = duration W"
  using assms by (auto simp: setProfile_def andThen_Inr_iff holdsProfile_def dest: makeProfile_ok)

lemma scheduleFor_ok:
  assumes "scheduleFor B op t W k = Inr (n, W', k')" and "workloadOk W"
  shows "workloadOk W' \<and> n = nextTimeOf op W' \<and> (\<forall>op'. op' \<noteq> op \<longrightarrow> profileFor op' W' = profileFor op' W)
    \<and> duration W' = duration W"
proof -
  obtain P where P: "profileFor op W = Some P" "profileOk P" "eventType P = op"
    using assms(2) by (auto simp: workloadOk_def holdsProfile_def)
  with assms(1) obtain P' where s: "scheduleNextEvent B t P k = Inr (n, P', k')"
    and W': "W' = storeProfile op P' W"
    by (auto simp: scheduleFor_def andThen_Inr_iff)
  show ?thesis
    using scheduleNextEvent_ok [OF s P(2)] assms(2) P(3) W'
    by (auto simp: workloadOk_def holdsProfile_def nextTimeOf_def)
qed

lemma eventsFor_ok:
  assumes "eventsFor op t W = Inr (es, W')" and "workloadOk W"
  shows "workloadOk W' \<and> (\<forall>e \<in> set es. eventKind e = op \<and> time e \<le> t) \<and> sorted (map time es)
    \<and> (\<forall>op'. op' \<noteq> op \<longrightarrow> profileFor op' W' = profileFor op' W) \<and> duration W' = duration W"
proof -
  obtain P where P: "profileFor op W = Some P" "profileOk P" "eventType P = op"
    using assms(2) by (auto simp: workloadOk_def holdsProfile_def)
  with assms(1) obtain P' where s: "getEvents t P = (es, P')" and W': "W' = storeProfile op P' W"
    by (auto simp: eventsFor_def split: prod.splits)
  note facts = getEvents_ok [OF s P(2)]
  have "set es = {e. e \<in># mset (eventQueue P) \<and> time e \<le> t}"
    using facts by (metis set_mset_filter set_mset_mset)
  then have "\<forall>e \<in> set es. eventKind e = op \<and> time e \<le> t"
    using P(2,3) by (auto simp: profileOk_def queueOk_def)
  then show ?thesis
    using facts assms(2) P(3) W' by (auto simp: workloadOk_def holdsProfile_def)
qed

lemma eventsFor_total: "workloadOk W \<Longrightarrow> \<exists>es W'. eventsFor op t W = Inr (es, W')"
  by (auto simp: eventsFor_def workloadOk_def holdsProfile_def split: option.splits prod.splits)

lemma workloadNextEventTime_ok:
  assumes "workloadOk W" and "workloadNextEventTime B t isConnected W k = Inr (n, W', k')"
  shows "workloadOk W' \<and> duration W' = duration W"
proof (cases isConnected)
  case True
  with assms(2) obtain l W1 k1 p W2 k2 g where
      s1: "scheduleFor B Leave t W k = Inr (l, W1, k1)" and s2: "scheduleFor B Put t W1 k1 = Inr (p, W2, k2)"
    and s3: "scheduleFor B Get t W2 k2 = Inr (g, W', k')"
    by (auto simp: workloadNextEventTime_def andThen_Inr_iff Let_def)
  note o1 = scheduleFor_ok [OF s1 assms(1)]
  note o2 = scheduleFor_ok [OF s2 conjunct1 [OF o1]]
  note o3 = scheduleFor_ok [OF s3 conjunct1 [OF o2]]
  show ?thesis using o1 o2 o3 by simp
next
  case False
  then show ?thesis
    using scheduleFor_ok [OF _ assms(1), of B Join t k n W' k'] assms(2) by (simp add: workloadNextEventTime_def)
qed

text \<open>The earliest of the times that are not 0, and 0 if there is none.\<close>

definition leastPositive :: "timeUnit set \<Rightarrow> timeUnit" where
  "leastPositive S = (if S - {0} = {} then 0 else Min (S - {0}))"

lemma leastPositive_insert:
  assumes "finite S"
  shows "leastPositive (insert a S) = earlierOf (leastPositive S) a"
proof (cases "a = 0 \<or> S - {0} = {}")
  case True
  show ?thesis
  proof (cases "a = 0")
    case False
    then have "insert a S - {0} = {a}"
      using True by auto
    then show ?thesis
      using True False by (simp add: leastPositive_def earlierOf_def)
  qed (simp add: leastPositive_def earlierOf_def)
next
  case False
  then have m: "Min (S - {0}) \<in> S - {0}"
    using assms by (intro Min_in) auto
  have "Min (insert a (S - {0})) = min a (Min (S - {0}))"
    using assms False by (intro Min_insert) auto
  moreover have "insert a S - {0} = insert a (S - {0})"
    using False by auto
  ultimately have "leastPositive (insert a S) = min a (leastPositive S)" and "leastPositive S \<noteq> 0"
    using False m by (simp_all add: leastPositive_def del: Diff_eq_empty_iff)
  then show ?thesis
    using False by (auto simp: earlierOf_def min_def)
qed

text \<open>The events that a profile of the workload still holds.\<close>

definition pendingOf :: "DhtOperation \<Rightarrow> ControllerWorkloadProfile \<Rightarrow> DhtEvent multiset" where
  "pendingOf op W = (case profileFor op W of None \<Rightarrow> {#} | Some P \<Rightarrow> mset (eventQueue P))"

lemma eventsFor_pending:
  assumes "eventsFor op t W = Inr (es, W')" and "workloadOk W"
  shows "mset es = filter_mset (\<lambda>e. time e \<le> t) (pendingOf op W)"
    and "pendingOf op' W' = (if op' = op then filter_mset (\<lambda>e. t < time e) (pendingOf op W) else pendingOf op' W)"
proof -
  obtain P where P: "profileFor op W = Some P" "profileOk P"
    using assms(2) by (auto simp: workloadOk_def holdsProfile_def)
  with assms(1) obtain P' where s: "getEvents t P = (es, P')" and W': "W' = storeProfile op P' W"
    by (auto simp: eventsFor_def split: prod.splits)
  show "mset es = filter_mset (\<lambda>e. time e \<le> t) (pendingOf op W)"
    and "pendingOf op' W' = (if op' = op then filter_mset (\<lambda>e. t < time e) (pendingOf op W) else pendingOf op' W)"
    using getEvents_ok [OF s P(2)] P W' by (simp_all add: pendingOf_def)
qed

section \<open>Properties\<close>

text \<open>
  The next event time of a connected node is the earliest time that is not 0 among its leave, put
  and get profiles (0 if none of them announces one), the join profile is not touched, and the
  workload stays complete and well formed; a disconnected node looks at its join profile only.
\<close>

theorem workload_next_event:
  assumes "workloadOk W" and "workloadNextEventTime B t isConnected W k = Inr (n, W', k')"
  shows "workloadOk W'
    \<and> (isConnected \<longrightarrow> n = leastPositive {nextTimeOf Leave W', nextTimeOf Put W', nextTimeOf Get W'}
         \<and> joinProfile W' = joinProfile W)
    \<and> (\<not> isConnected \<longrightarrow> n = nextTimeOf Join W' \<and> leaveProfile W' = leaveProfile W
         \<and> putProfile W' = putProfile W \<and> getProfile W' = getProfile W)"
proof (cases isConnected)
  case True
  with assms(2) obtain l W1 k1 p W2 k2 g where
      s1: "scheduleFor B Leave t W k = Inr (l, W1, k1)" and s2: "scheduleFor B Put t W1 k1 = Inr (p, W2, k2)"
    and s3: "scheduleFor B Get t W2 k2 = Inr (g, W', k')" and n: "n = earlierOf (earlierOf l p) g"
    by (auto simp: workloadNextEventTime_def andThen_Inr_iff Let_def)
  note o1 = scheduleFor_ok [OF s1 assms(1)]
  note o2 = scheduleFor_ok [OF s2 conjunct1 [OF o1]]
  note o3 = scheduleFor_ok [OF s3 conjunct1 [OF o2]]
  have times: "l = nextTimeOf Leave W'" "p = nextTimeOf Put W'" "g = nextTimeOf Get W'"
    using o1 o2 o3 by (simp_all add: nextTimeOf_def del: profileFor.simps)
  have "profileFor Join W' = profileFor Join W"
    using o1 o2 o3 by (simp del: profileFor.simps)
  moreover have "n = leastPositive {g, p, l}"
    by (simp add: n leastPositive_insert) (simp add: earlierOf_def leastPositive_def)
  ultimately show ?thesis
    using True times o3 by (simp add: insert_commute)
next
  case False
  with assms(2) have s: "scheduleFor B Join t W k = Inr (n, W', k')"
    by (simp add: workloadNextEventTime_def)
  have "profileFor op W' = profileFor op W" if "op \<noteq> Join" for op
    using scheduleFor_ok [OF s assms(1)] that by simp
  from this [of Leave] this [of Put] this [of Get] show ?thesis
    using scheduleFor_ok [OF s assms(1)] False by simp
qed

theorem workload_next_event_witness:
  "\<exists>W W'. workloadOk W \<and> workloadNextEventTime refBoost 0 True W 0 = Inr (20, W', 0) \<and> workloadOk W'"
proof -
  let ?none = "\<lambda>op. \<lparr>eventType = op, impl = NoneProfile, eventQueue = []\<rparr>"
  let ?W = "\<lparr>joinProfile = Some (?none Join), leaveProfile = Some \<lparr>eventType = Leave, impl = Exact, eventQueue = [DhtLeaveEvent 30]\<rparr>,
    putProfile = Some (?none Put), getProfile = Some \<lparr>eventType = Get, impl = Exact, eventQueue = [DhtGetEvent 20 ''k'']\<rparr>,
    duration = 40\<rparr>"
  have "validQueue [e]" for e
    using evq.valid_push [OF evq.valid_empty, of e]
    by (simp add: validQueue_def isHeap_def)
  moreover have "validQueue []"
    using evq.valid_empty by (simp add: EventQueue_empty_def)
  ultimately have ok: "workloadOk ?W"
    unfolding workloadOk_def holdsProfile_def
    by (intro allI, rename_tac op, case_tac op) (simp_all add: profileOk_def queueOk_def)
  have "workloadNextEventTime refBoost 0 True ?W 0 = Inr (20, ?W, 0)"
    by code_simp
  with workload_next_event [OF ok this] ok show ?thesis by blast
qed

end
