(* ===== verification/Pipe.thy ===== *)
theory Pipe
  imports Utils
begin

text \<open>
  \<open>src/src/controller/dhtnodes/RWPopen.cpp\<close> and \<open>Wrapper.cpp\<close>: the pipes to a child process and the
  line protocol on them. What the children of a run print is not known to the code; the model takes
  the output of each child as a byte list that is part of the state. The end of the list is the end of
  file; a child that keeps the pipe open for ever without output is not modelled.
\<close>

section \<open>Lines\<close>

text \<open>
  \<open>readline\<close> on the unread output, with the line read so far. At the newline the code looks at
  \<open>ret[ret.size()-1]\<close>, which is out of range for an empty line.
\<close>

fun readlineLoop :: "string \<Rightarrow> bytes \<Rightarrow> (string \<times> bytes) result" where
  "readlineLoop ret [] = Inl RWPopenEOF"
| "readlineLoop ret (c # cs) =
     (if c = newline then
        (if ret = [] then Inl UndefinedBehaviour
         else if last ret = carriageReturn then Inr (butlast ret, cs)
         else Inr (ret, cs))
      else readlineLoop (ret @ [c]) cs)"

definition readline :: "bytes \<Rightarrow> (string \<times> bytes) result" where
  "readline incoming = readlineLoop [] incoming"

lemma readlineLoop_shorter: "readlineLoop ret cs = Inr (line, cs') \<Longrightarrow> length cs' < length cs"
  by (induction ret cs rule: readlineLoop.induct) (auto split: if_splits)

lemma readline_shorter: "readline cs = Inr (line, cs') \<Longrightarrow> length cs' < length cs"
  by (simp add: readline_def readlineLoop_shorter)

text \<open>
  \<open>write\<close> calls \<open>::write\<close> until all is written. \<open>accepts\<close> is what the successive calls do: fail, or
  take up to so many bytes. \<open>out\<close> is what has reached the pipe; \<open>None\<close> says that the calls listed did
  not write everything.
\<close>

fun writeLoop :: "nat option list \<Rightarrow> string \<Rightarrow> nat \<Rightarrow> string \<Rightarrow> string option result" where
  "writeLoop accepts s written out =
     (if written = length s then Inr (Some out)
      else (case accepts of
              [] \<Rightarrow> Inr None
            | None # as \<Rightarrow> Inl ExitFailure
            | Some a # as \<Rightarrow>
                let ret = min a (length s - written)
                in writeLoop as s (written + ret) (out @ take ret (drop written s))))"

declare writeLoop.simps [simp del]

section \<open>The state of the pipes\<close>

record pipes =
  childOutputs :: "bytes list"  (* of the children still to be started *)
  incoming :: bytes  (* unread output of the current child *)
  sent :: "string list"  (* what was written, one entry per write *)
  commands :: "string list list"  (* the commands that were run *)

definition startChild :: "string list \<Rightarrow> 'w pipes_scheme \<Rightarrow> 'w pipes_scheme" where
  "startChild command p =
     (case childOutputs p of
        [] \<Rightarrow> p\<lparr>incoming := [], commands := commands p @ [command]\<rparr>
      | out # outs \<Rightarrow> p\<lparr>childOutputs := outs, incoming := out, commands := commands p @ [command]\<rparr>)"

definition sendLine :: "string \<Rightarrow> 'w pipes_scheme \<Rightarrow> 'w pipes_scheme" where
  "sendLine s p = p\<lparr>sent := sent p @ [c_str s]\<rparr>"

definition stopChild :: "'w pipes_scheme \<Rightarrow> 'w pipes_scheme" where
  "stopChild p = p\<lparr>incoming := []\<rparr>"

section \<open>Loops over lines\<close>

text \<open>\<open>while (1) { line = readline(); if (stop line) break; }\<close>, returning the last line.\<close>

function readUntil :: "(string \<Rightarrow> bool) \<Rightarrow> bytes \<Rightarrow> (string \<times> bytes) result" where
  "readUntil stop cs =
     (case readline cs of
        Inl e \<Rightarrow> Inl e
      | Inr (line, cs') \<Rightarrow> if stop line then Inr (line, cs') else readUntil stop cs')"
  by pat_completeness auto
termination
  by (relation "measure (\<lambda>(stop, cs). length cs)") (auto dest: readline_shorter)

declare readUntil.simps [simp del]

definition waitPrompt :: "string \<Rightarrow> 'w pipes_scheme \<Rightarrow> 'w pipes_scheme result" where
  "waitPrompt promptString p =
     andThen (readUntil (\<lambda>line. line = promptString) (incoming p)) (\<lambda>(line, cs). Inr (p\<lparr>incoming := cs\<rparr>))"

text \<open>
  The loops of the \<open>doGet\<close> functions. In \<open>getLoopInline\<close> a line with the prefix is the answer; in
  \<open>getLoopNext\<close> it announces the answer, which is on the next line and checked with \<open>found\<close>.
\<close>

function getLoopInline :: "string \<Rightarrow> string \<Rightarrow> bool \<Rightarrow> bytes \<Rightarrow> (bool \<times> bytes) result" where
  "getLoopInline prefix promptString ret cs =
     (case readline cs of
        Inl e \<Rightarrow> Inl e
      | Inr (line, cs') \<Rightarrow>
          if comparePrefix line (length prefix) prefix then getLoopInline prefix promptString True cs'
          else if line = promptString then Inr (ret, cs')
          else getLoopInline prefix promptString ret cs')"
  by pat_completeness auto
termination
  by (relation "measure (\<lambda>(prefix, promptString, ret, cs). length cs)") (auto dest: readline_shorter)

declare getLoopInline.simps [simp del]

function getLoopNext :: "string \<Rightarrow> (string \<Rightarrow> bool) \<Rightarrow> string \<Rightarrow> bool \<Rightarrow> bytes \<Rightarrow> (bool \<times> bytes) result" where
  "getLoopNext prefix found promptString ret cs =
     (case readline cs of
        Inl e \<Rightarrow> Inl e
      | Inr (line, cs') \<Rightarrow>
          if comparePrefix line (length prefix) prefix then
            (case readline cs' of
               Inl e \<Rightarrow> Inl e
             | Inr (line', cs'') \<Rightarrow> getLoopNext prefix found promptString (ret \<or> found line') cs'')
          else if line = promptString then Inr (ret, cs')
          else getLoopNext prefix found promptString ret cs')"
  by pat_completeness auto
termination
  by (relation "measure (\<lambda>(prefix, found, promptString, ret, cs). length cs)")
    (auto dest!: readline_shorter)

declare getLoopNext.simps [simp del]

section \<open>Wrapper\<close>

text \<open>
  The constructor: the program gets its own process group and moves into a directory named after the
  binary and the port.
\<close>

definition wrapperDirName :: "string \<Rightarrow> u16 \<Rightarrow> string" where
  "wrapperDirName binaryName port = binaryName @ ''.'' @ showInt (uint port)"

definition newWrapper :: "string \<Rightarrow> u16 \<Rightarrow> fileSystem \<Rightarrow> fileSystem result" where
  "newWrapper binaryName port fs =
     andThen (require (\<not> setpgidDenied fs) ExitFailure) (\<lambda>_.
     let fs = fs\<lparr>leadsGroup := True\<rparr>; dir = wrapperDirName binaryName port
     in andThen (mkdir_p dir fs) (\<lambda>fs.
        andThen (require (\<not> chdirDenied fs dir) ExitFailure) (\<lambda>_.
        Inr (fs\<lparr>workingDirectory := workingDirectory fs @ [dir]\<rparr>))))"

definition startWrapped :: "string \<Rightarrow> string list \<Rightarrow> 'w pipes_scheme \<Rightarrow> 'w pipes_scheme result" where
  "startWrapped promptString command p = waitPrompt promptString (startChild command p)"

definition stopWrapped :: "'w pipes_scheme \<Rightarrow> 'w pipes_scheme" where
  "stopWrapped p = stopChild p"

section \<open>Lemmas on lines\<close>

text \<open>A line as the children print it: not empty, without a newline and without a trailing CR.\<close>

definition goodLine :: "string \<Rightarrow> bool" where
  "goodLine l \<longleftrightarrow> l \<noteq> [] \<and> newline \<notin> set l \<and> last l \<noteq> carriageReturn"

lemma readlineLoop_line:
  assumes "newline \<notin> set l" and "ret @ l \<noteq> []" and "last (ret @ l) \<noteq> carriageReturn"
  shows "readlineLoop ret (l @ newline # rest) = Inr (ret @ l, rest)"
  using assms by (induction l arbitrary: ret) auto

lemma readline_line [simp]: "goodLine l \<Longrightarrow> readline (l @ newline # rest) = Inr (l, rest)"
  using readlineLoop_line [of l "[]"] by (simp add: readline_def goodLine_def)

lemma readlineLoop_crlf:
  assumes "newline \<notin> set l"
  shows "readlineLoop ret (l @ carriageReturn # newline # rest) = Inr (ret @ l, rest)"
  using assms by (induction l arbitrary: ret) auto

lemma readline_crlf: "newline \<notin> set l \<Longrightarrow> readline (l @ carriageReturn # newline # rest) = Inr (l, rest)"
  using readlineLoop_crlf [of l "[]"] by (simp add: readline_def)

lemma readUntil_lines:
  assumes "\<forall>l \<in> set ls. goodLine l \<and> \<not> stop l" and "goodLine l" and "stop l"
  shows "readUntil stop (linesText ls @ l @ newline # rest) = Inr (l, rest)"
  using assms(1) by (induction ls) (subst readUntil.simps; simp add: assms(2,3))+

lemma readUntil_eof:
  assumes "\<forall>l \<in> set ls. goodLine l \<and> \<not> stop l"
  shows "readUntil stop (linesText ls) = Inl RWPopenEOF"
  using assms by (induction ls) (subst readUntil.simps; simp add: readline_def [of "[]"])+

lemma getLoopInline_lines:
  assumes "\<forall>l \<in> set ls. goodLine l \<and> l \<noteq> promptString" and "goodLine promptString"
    and "\<not> comparePrefix promptString (length prefix) prefix"
  shows "getLoopInline prefix promptString ret (linesText ls @ promptString @ newline # rest) =
    Inr (ret \<or> (\<exists>l \<in> set ls. comparePrefix l (length prefix) prefix), rest)"
  using assms(1) by (induction ls arbitrary: ret) (subst getLoopInline.simps; simp add: assms(2,3))+

lemma writeLoop_all:
  assumes "written \<le> length s" and "\<forall>a \<in> set accepts. \<exists>n. a = Some n \<and> 0 < n"
    and "length s - written \<le> length accepts"
  shows "writeLoop accepts s written (take written s) = Inr (Some s)"
  using assms
proof (induction accepts arbitrary: written)
  case Nil
  then show ?case by (simp add: writeLoop.simps [of "[]"])
next
  case (Cons a as)
  show ?case
  proof (cases "written = length s")
    case True
    then show ?thesis by (simp add: writeLoop.simps [of "a # as"])
  next
    case False
    obtain n where n: "a = Some n" "0 < n"
      using Cons.prems(2) by auto
    let ?r = "min n (length s - written)"
    have "take written s @ take ?r (drop written s) = take (written + ?r) s"
      by (simp add: take_add)
    moreover have "length s - (written + ?r) \<le> length as"
      using Cons.prems(1,3) False n(2) by (auto simp: min_def)
    ultimately have "writeLoop as s (written + ?r) (take written s @ take ?r (drop written s)) = Inr (Some s)"
      using Cons.IH [of "written + ?r"] Cons.prems(1,2) by simp
    then show ?thesis
      using False by (subst writeLoop.simps) (simp add: n(1) Let_def)
  qed
qed

section \<open>Properties\<close>

text \<open>
  C34. \<open>RWPopen::write\<close> copes with short writes: if every call takes at least one byte, the loop ends
  after at most as many calls as there are bytes, and exactly the string has been written.
\<close>

theorem write_completes:
  assumes "\<forall>a \<in> set accepts. \<exists>n. a = Some n \<and> 0 < n" and "length s \<le> length accepts"
  shows "writeLoop accepts s 0 [] = Inr (Some s)"
  using writeLoop_all [of 0 s accepts] assms by simp

theorem write_completes_witness:
  "writeLoop [Some 2, Some 1, Some 5, Some 9] ''put'' 0 [] = Inr (Some ''put'')"
  by (rule write_completes) simp_all

text \<open>
  C35. Reading lines: \<open>readline\<close> splits what the child printed at its newlines, whatever follows, and
  drops a carriage return before the newline; at the end of the output without a newline it throws;
  and an empty line makes it look at the character before the start of an empty string.
\<close>

theorem readline_spec:
  assumes "newline \<notin> set l"
  shows "readline (l @ carriageReturn # newline # rest) = Inr (l, rest)
    \<and> (l \<noteq> [] \<and> last l \<noteq> carriageReturn \<longrightarrow> readline (l @ newline # rest) = Inr (l, rest))
    \<and> readline l = Inl RWPopenEOF
    \<and> readline (newline # rest) = Inl UndefinedBehaviour"
proof -
  have "readlineLoop ret l = Inl RWPopenEOF" for ret
    using assms by (induction l arbitrary: ret) auto
  then show ?thesis
    using assms readline_line [of l rest] readline_crlf [OF assms]
    by (simp add: goodLine_def) (simp add: readline_def)
qed

theorem readline_spec_witness:
  "readline ''oc >'' = Inl RWPopenEOF \<and> readline (''oc >'' @ [newline]) = Inr (''oc >'', [])"
  using readline_spec [of "''oc >''" "[]"] by simp

end
