(* ===== verification/Processes.thy ===== *)
theory Processes
  imports Utils
begin

text \<open>
  The life of a child process: the constructors and the destructor of \<open>RWPopen\<close>
  (\<open>src/src/controller/dhtnodes/RWPopen.cpp\<close>) and \<open>Wrapper::stopWrapped\<close>, over the system calls that
  they use. A descriptor table is a list, a process is a table with the program it runs, and the state
  of the system is the program itself with the children that it has not waited for. Which calls fail
  is the environment; that a child does not end on SIGTERM is a field of the child.
\<close>

section \<open>Descriptors\<close>

datatype fdTarget =
    ReadEnd nat
  | WriteEnd nat
  | OpenFile string

type_synonym fdTable = "fdTarget option list"

definition fdAt :: "fdTable \<Rightarrow> nat \<Rightarrow> fdTarget option" where
  "fdAt t i = (if i < length t then t ! i else None)"

definition setFd :: "nat \<Rightarrow> fdTarget option \<Rightarrow> fdTable \<Rightarrow> fdTable" where
  "setFd i x t = (t @ replicate (Suc i - length t) None)[i := x]"

text \<open>A new descriptor is the lowest free one.\<close>

definition lowestFree :: "fdTable \<Rightarrow> nat" where
  "lowestFree t = length (takeWhile (\<lambda>x. x \<noteq> None) t)"

definition allocFd :: "fdTarget \<Rightarrow> fdTable \<Rightarrow> nat \<times> fdTable" where
  "allocFd x t = (lowestFree t, setFd (lowestFree t) (Some x) t)"

text \<open>\<open>close\<close> and \<open>dup2\<close> with the flag that they did not return -1.\<close>

definition closeFd :: "nat \<Rightarrow> fdTable \<Rightarrow> bool \<times> fdTable" where
  "closeFd i t = (if fdAt t i = None then (False, t) else (True, setFd i None t))"

definition dup2Fd :: "nat \<Rightarrow> nat \<Rightarrow> fdTable \<Rightarrow> bool \<times> fdTable" where
  "dup2Fd old new t = (if fdAt t old = None then (False, t) else (True, setFd new (fdAt t old) t))"

section \<open>Processes\<close>

record childProcess =
  childPid :: nat
  childGroup :: nat
  childFds :: fdTable
  argv :: "string list"
  overrun :: nat  (* bytes written past the end of its buffers *)
  ignoresTerm :: bool
  ended :: bool

record system =
  selfPid :: nat
  selfGroup :: nat
  selfFds :: fdTable
  selfIgnoresTerm :: bool
  nextPipe :: nat
  nextPid :: nat
  children :: "childProcess list"  (* those not waited for *)
  descendants :: "childProcess list"  (* of the children *)

record sysCalls =
  firstPipeFails :: bool
  secondPipeFails :: bool
  forkFails :: bool
  execFails :: bool

definition sysPipe :: "bool \<Rightarrow> system \<Rightarrow> ((nat \<times> nat) \<times> system) option" where
  "sysPipe fails S =
     (if fails then None
      else let (r, t) = allocFd (ReadEnd (nextPipe S)) (selfFds S);
               (w, t) = allocFd (WriteEnd (nextPipe S)) t
           in Some ((r, w), S\<lparr>selfFds := t, nextPipe := nextPipe S + 1\<rparr>))"

text \<open>
  \<open>kill(pid, sig)\<close>: process 0 stands for the group of the caller; signal 0 only asks whether the
  process is there. The result is whether there was one.
\<close>

definition SIGTERM :: nat where
  "SIGTERM = 15"

definition receive :: "nat \<Rightarrow> childProcess \<Rightarrow> childProcess" where
  "receive sig c = (if sig = 0 \<or> ignoresTerm c then c else c\<lparr>ended := True\<rparr>)"

definition addressed :: "system \<Rightarrow> nat \<Rightarrow> childProcess \<Rightarrow> bool" where
  "addressed S pid c \<longleftrightarrow> (if pid = 0 then childGroup c = selfGroup S else childPid c = pid)"

definition sysKill :: "nat \<Rightarrow> nat \<Rightarrow> system \<Rightarrow> bool \<times> system" where
  "sysKill pid sig S =
     (pid = 0 \<or> pid = selfPid S \<or> (\<exists>c \<in> set (children S @ descendants S). addressed S pid c),
      let hit = map (\<lambda>c. if addressed S pid c then receive sig c else c)
      in S\<lparr>children := hit (children S), descendants := hit (descendants S)\<rparr>)"

section \<open>RWPopen\<close>

record RWPopen =
  popenIn :: nat  (* in_ *)
  popenOut :: nat  (* out_ *)
  popenPid :: nat

definition forkedTable :: "nat \<times> nat \<Rightarrow> nat \<times> nat \<Rightarrow> fdTable \<Rightarrow> fdTable" where
  "forkedTable pair0 pair1 t =
     (let t = snd (closeFd (fst pair0) t);
          t = snd (closeFd (snd pair1) t);
          t = snd (dup2Fd (snd pair0) 1 t);
          t = snd (dup2Fd (fst pair1) 0 t);
          t = snd (closeFd (snd pair0) t);
          t = snd (closeFd (fst pair1) t)
      in snd (dup2Fd (snd pair0) 2 t))"

text \<open>The result of \<open>initAndFork\<close>: the object in the parent, the table in the child.\<close>

definition initAndFork :: "sysCalls \<Rightarrow> system \<Rightarrow> (RWPopen \<times> fdTable \<times> system) result" where
  "initAndFork E S =
     (case sysPipe (firstPipeFails E) S of
        None \<Rightarrow> Inl ExitFailure
      | Some (pair0, S) \<Rightarrow>
         (case sysPipe (secondPipeFails E) S of
            None \<Rightarrow> Inl ExitFailure
          | Some (pair1, S) \<Rightarrow>
              if forkFails E then Inl ExitFailure
              else let t = snd (closeFd (snd pair0) (selfFds S));
                       t = snd (closeFd (fst pair1) t)
                   in Inr (\<lparr>popenIn = fst pair0, popenOut = snd pair1, popenPid = nextPid S\<rparr>,
                           forkedTable pair0 pair1 (selfFds S),
                           S\<lparr>selfFds := t, nextPid := nextPid S + 1\<rparr>)))"

text \<open>The child after \<open>exec\<close>; if that fails it exits, which closes its descriptors.\<close>

definition execChild :: "sysCalls \<Rightarrow> nat \<Rightarrow> string list \<Rightarrow> nat \<Rightarrow> fdTable \<Rightarrow> system \<Rightarrow> childProcess" where
  "execChild E over command pid t S =
     \<lparr>childPid = pid, childGroup = selfGroup S, childFds = (if execFails E then [] else t),
      argv = (if execFails E then [] else command), overrun = over, ignoresTerm = False, ended = execFails E\<rparr>"

definition addChild :: "childProcess \<Rightarrow> system \<Rightarrow> system" where
  "addChild c S = S\<lparr>children := children S @ [c]\<rparr>"

definition shellCommand :: "string \<Rightarrow> string list" where
  "shellCommand command = [''/bin/sh'', ''-c'', c_str command]"

definition RWPopen_shell :: "sysCalls \<Rightarrow> string \<Rightarrow> system \<Rightarrow> (RWPopen \<times> system) result" where
  "RWPopen_shell E command S =
     andThen (initAndFork E S) (\<lambda>(p, t, S).
     Inr (p, addChild (execChild E 0 (shellCommand command) (popenPid p) t S) S))"

text \<open>
  The other constructor copies the arguments with \<open>strcpy\<close> into buffers of \<open>size()\<close> bytes:
  \<open>strcpyOverrun\<close> is the number of bytes that land past the end of such a buffer.
\<close>

definition strcpyOverrun :: "nat \<Rightarrow> string \<Rightarrow> nat" where
  "strcpyOverrun capacity s = length (c_str s) + 1 - capacity"

definition RWPopen_vector :: "sysCalls \<Rightarrow> string list \<Rightarrow> system \<Rightarrow> (RWPopen \<times> system) result" where
  "RWPopen_vector E command S =
     andThen (initAndFork E S) (\<lambda>(p, t, S).
     andThen (vectorAt command 0) (\<lambda>file.
     let over = strcpyOverrun (length file) file + sum_list (map (\<lambda>s. strcpyOverrun (length s) s) command)
     in Inr (p, addChild (execChild E over (map c_str command) (popenPid p) t S) S)))"

text \<open>
  \<open>while (wait(&status) != childPid_);\<close> A call returns the first child that has ended. It blocks when
  none has, and returns -1 when there is no child at all: the loop does not end then, which is \<open>None\<close>.
\<close>

function waitLoop :: "nat \<Rightarrow> childProcess list \<Rightarrow> childProcess list option" where
  "waitLoop pid cs =
     (case find ended cs of
        None \<Rightarrow> None
      | Some c \<Rightarrow> if childPid c = pid then Some (remove1 c cs) else waitLoop pid (remove1 c cs))"
  by pat_completeness auto
termination
proof (relation "measure (\<lambda>(pid, cs). length cs)")
  fix pid and cs :: "childProcess list" and c
  assume "find ended cs = Some c"
  then have "c \<in> set cs"
    by (auto simp: find_Some_iff)
  then show "((pid, remove1 c cs), pid, cs) \<in> measure (\<lambda>(pid, cs). length cs)"
    using length_pos_if_in_set [of c cs] by (simp add: length_remove1)
qed simp

declare waitLoop.simps [simp del]

definition RWPopen_destroy :: "RWPopen \<Rightarrow> system \<Rightarrow> system result option" where
  "RWPopen_destroy p S =
     (let (ok, t) = closeFd (popenIn p) (selfFds S)
      in if \<not> ok then Some (Inl ExitFailure)
         else let (ok, t) = closeFd (popenOut p) t
              in if \<not> ok then Some (Inl ExitFailure)
                 else let (found, S) = sysKill (popenPid p) SIGTERM (S\<lparr>selfFds := t\<rparr>)
                      in if \<not> found then Some (Inl ExitFailure)
                         else map_option (\<lambda>cs. Inr (S\<lparr>children := cs\<rparr>)) (waitLoop (popenPid p) (children S)))"

text \<open>\<open>Wrapper::stopWrapped\<close>; the call of \<open>kill\<close> is \<open>kill(SIGTERM, 0)\<close>.\<close>

definition stopProcess :: "RWPopen \<Rightarrow> system \<Rightarrow> system result option" where
  "stopProcess p S =
     map_option (\<lambda>r. andThen r (\<lambda>S.
       let S = S\<lparr>selfIgnoresTerm := True\<rparr>;
           S = snd (sysKill SIGTERM 0 S)
       in Inr (S\<lparr>selfIgnoresTerm := False\<rparr>)))
     (RWPopen_destroy p S)"

section \<open>Lemmas on descriptors\<close>

lemma fdAt_setFd [simp]: "fdAt (setFd i x t) = (fdAt t)(i := x)"
  by (auto simp: fdAt_def setFd_def fun_eq_iff nth_list_update nth_append)

lemma lowestFree_free [simp]: "fdAt t (lowestFree t) = None"
  unfolding fdAt_def lowestFree_def using nth_length_takeWhile [of "\<lambda>x. x \<noteq> None" t] by auto

lemma below_lowestFree: "j < lowestFree t \<Longrightarrow> fdAt t j \<noteq> None"
  using nth_mem [of j "takeWhile (\<lambda>x. x \<noteq> None) t"]
  by (auto simp: fdAt_def lowestFree_def takeWhile_nth dest: set_takeWhileD
      intro: less_le_trans [OF _ length_takeWhile_le])

lemma fdAt_closeFd [simp]: "fdAt (snd (closeFd i t)) = (fdAt t)(i := None)"
  by (auto simp: closeFd_def fun_eq_iff)

lemma fdAt_dup2Fd: "fdAt (snd (dup2Fd old new t)) = (if fdAt t old = None then fdAt t else (fdAt t)(new := fdAt t old))"
  by (simp add: dup2Fd_def)

lemma lowestFree_above:
  assumes "\<forall>i \<le> n. fdAt t i \<noteq> None"
  shows "n < lowestFree t"
  using assms lowestFree_free [of t] by (metis not_le)

lemma lowestFree_allocated: "lowestFree (setFd (lowestFree t) (Some x) t) \<noteq> lowestFree t"
  using lowestFree_free [of "setFd (lowestFree t) (Some x) t"] by auto

text \<open>The two ends of a new pipe are the only changes to the table, and were free.\<close>

lemma sysPipe_spec:
  assumes "sysPipe fails S = Some ((r, w), S')"
  obtains t where "S' = S\<lparr>selfFds := t, nextPipe := nextPipe S + 1\<rparr>"
    "r \<noteq> w" "fdAt (selfFds S) r = None" "fdAt (selfFds S) w = None"
    "fdAt t = (fdAt (selfFds S))(r := Some (ReadEnd (nextPipe S)), w := Some (WriteEnd (nextPipe S)))"
proof -
  define t where "t = setFd (lowestFree (selfFds S)) (Some (ReadEnd (nextPipe S))) (selfFds S)"
  have rw: "r = lowestFree (selfFds S)" "w = lowestFree t"
    "S' = S\<lparr>selfFds := setFd w (Some (WriteEnd (nextPipe S))) t, nextPipe := nextPipe S + 1\<rparr>"
    using assms by (auto simp: sysPipe_def allocFd_def t_def Let_def split: if_splits)
  have t: "fdAt t = (fdAt (selfFds S))(r := Some (ReadEnd (nextPipe S)))"
    by (simp add: t_def rw(1))
  have "fdAt t w = None"
    by (simp add: rw(2))
  then have "r \<noteq> w" "fdAt (selfFds S) w = None"
    by (auto simp: t split: if_splits)
  moreover have "fdAt (selfFds S) r = None"
    by (simp add: rw(1))
  ultimately show thesis
    using that [OF rw(3)] by (simp add: t)
qed

text \<open>With the standard descriptors open, the two pipes are where the code expects them.\<close>

definition standardOpen :: "system \<Rightarrow> bool" where
  "standardOpen S \<longleftrightarrow> fdAt (selfFds S) 0 \<noteq> None \<and> fdAt (selfFds S) 1 \<noteq> None \<and> fdAt (selfFds S) 2 \<noteq> None"

definition childTable :: "system \<Rightarrow> nat \<Rightarrow> fdTarget option" where
  "childTable S = (fdAt (selfFds S))(0 := Some (ReadEnd (nextPipe S + 1)), 1 := Some (WriteEnd (nextPipe S)))"

lemma forkedTable_spec:
  assumes "fdAt t = f(r0 := Some (ReadEnd m), w0 := Some (WriteEnd m), r1 := Some (ReadEnd n), w1 := Some (WriteEnd n))"
    and "f r0 = None" "f w0 = None" "f r1 = None" "f w1 = None" and "distinct [r0, w0, r1, w1]"
    and "f 0 \<noteq> None" "f 1 \<noteq> None"
  shows "fdAt (forkedTable (r0, w0) (r1, w1) t) = f(0 := Some (ReadEnd n), 1 := Some (WriteEnd m))"
proof -
  have ne: "0 \<notin> {r0, w0, r1, w1}" "1 \<notin> {r0, w0, r1, w1}"
    using assms(2-5,7,8) by (metis empty_iff insert_iff)+
  have 1: "fdAt (snd (closeFd w1 (snd (closeFd r0 t)))) =
      f(w0 := Some (WriteEnd m), r1 := Some (ReadEnd n))"
    using assms(1-6) by (auto simp: fun_eq_iff)
  have 2: "fdAt (snd (dup2Fd w0 1 (snd (closeFd w1 (snd (closeFd r0 t)))))) =
      f(1 := Some (WriteEnd m), w0 := Some (WriteEnd m), r1 := Some (ReadEnd n))"
    unfolding fdAt_dup2Fd 1 using assms(6) ne by (auto simp: fun_eq_iff)
  have 3: "fdAt (snd (dup2Fd r1 0 (snd (dup2Fd w0 1 (snd (closeFd w1 (snd (closeFd r0 t)))))))) =
      f(0 := Some (ReadEnd n), 1 := Some (WriteEnd m), w0 := Some (WriteEnd m), r1 := Some (ReadEnd n))"
    unfolding fdAt_dup2Fd [of r1 0] 2 using assms(6) ne by (auto simp: fun_eq_iff)
  have 4: "fdAt (snd (closeFd r1 (snd (closeFd w0 (snd (dup2Fd r1 0 (snd (dup2Fd w0 1 (snd (closeFd w1 (snd (closeFd r0 t)))))))))))) =
      f(0 := Some (ReadEnd n), 1 := Some (WriteEnd m))"
    unfolding fdAt_closeFd 3 using assms(3,4,6) ne by (auto simp: fun_eq_iff)
  show ?thesis
    unfolding forkedTable_def Let_def fst_conv snd_conv fdAt_dup2Fd [of w0 2] 4
    using assms(3) ne by auto
qed

lemma initAndFork_spec:
  assumes "initAndFork E S = Inr (p, t, S')" and "standardOpen S"
  obtains t' where "S' = S\<lparr>selfFds := t', nextPipe := nextPipe S + 2, nextPid := nextPid S + 1\<rparr>"
    "fdAt t = childTable S" "popenPid p = nextPid S" "popenIn p \<noteq> popenOut p"
    "fdAt (selfFds S) (popenIn p) = None" "fdAt (selfFds S) (popenOut p) = None"
    "fdAt t' = (fdAt (selfFds S))(popenIn p := Some (ReadEnd (nextPipe S)), popenOut p := Some (WriteEnd (nextPipe S + 1)))"
proof -
  obtain r0 w0 S1 r1 w1 S2 where pipes: "sysPipe (firstPipeFails E) S = Some ((r0, w0), S1)"
      "sysPipe (secondPipeFails E) S1 = Some ((r1, w1), S2)"
    and p: "p = \<lparr>popenIn = r0, popenOut = w1, popenPid = nextPid S2\<rparr>" and t: "t = forkedTable (r0, w0) (r1, w1) (selfFds S2)"
    and S': "S' = S2\<lparr>selfFds := snd (closeFd r1 (snd (closeFd w0 (selfFds S2)))), nextPid := nextPid S2 + 1\<rparr>"
    using assms(1) by (auto simp: initAndFork_def Let_def split: option.splits if_splits prod.splits)
  obtain t1 where a: "S1 = S\<lparr>selfFds := t1, nextPipe := nextPipe S + 1\<rparr>"
    "r0 \<noteq> w0" "fdAt (selfFds S) r0 = None" "fdAt (selfFds S) w0 = None"
    "fdAt t1 = (fdAt (selfFds S))(r0 := Some (ReadEnd (nextPipe S)), w0 := Some (WriteEnd (nextPipe S)))"
    using sysPipe_spec [OF pipes(1)] .
  obtain t2 where b: "S2 = S1\<lparr>selfFds := t2, nextPipe := nextPipe S1 + 1\<rparr>"
    "r1 \<noteq> w1" "fdAt (selfFds S1) r1 = None" "fdAt (selfFds S1) w1 = None"
    "fdAt t2 = (fdAt (selfFds S1))(r1 := Some (ReadEnd (nextPipe S1)), w1 := Some (WriteEnd (nextPipe S1)))"
    using sysPipe_spec [OF pipes(2)] .
  have free: "fdAt (selfFds S) r1 = None" "fdAt (selfFds S) w1 = None" and dist: "distinct [r0, w0, r1, w1]"
    using a b by (auto split: if_splits)
  have t2: "fdAt t2 = (fdAt (selfFds S))(r0 := Some (ReadEnd (nextPipe S)), w0 := Some (WriteEnd (nextPipe S)),
      r1 := Some (ReadEnd (nextPipe S + 1)), w1 := Some (WriteEnd (nextPipe S + 1)))"
    using a b by simp
  have child: "fdAt t = childTable S"
    using forkedTable_spec [OF t2 a(3,4) free dist] assms(2) b(1)
    by (simp add: t childTable_def standardOpen_def)
  have own: "fdAt (snd (closeFd r1 (snd (closeFd w0 t2)))) =
      (fdAt (selfFds S))(r0 := Some (ReadEnd (nextPipe S)), w1 := Some (WriteEnd (nextPipe S + 1)))"
    using a(3,4) free dist by (auto simp: t2 fun_eq_iff)
  show thesis
    using that [of "snd (closeFd r1 (snd (closeFd w0 t2)))"] child own a(3) free dist
    by (simp add: S' p a(1) b(1))
qed

section \<open>Lemmas on the end of a child\<close>

lemma RWPopen_shell_spec:
  assumes "RWPopen_shell E command S = Inr (p, S')" and "standardOpen S"
  obtains c t' where "S' = S\<lparr>selfFds := t', nextPipe := nextPipe S + 2, nextPid := nextPid S + 1, children := children S @ [c]\<rparr>"
    "popenPid p = nextPid S" "popenIn p \<noteq> popenOut p"
    "fdAt (selfFds S) (popenIn p) = None" "fdAt (selfFds S) (popenOut p) = None"
    "fdAt t' = (fdAt (selfFds S))(popenIn p := Some (ReadEnd (nextPipe S)), popenOut p := Some (WriteEnd (nextPipe S + 1)))"
    "childPid c = nextPid S" "\<not> ignoresTerm c" "overrun c = 0" "childGroup c = selfGroup S"
    "\<not> execFails E \<Longrightarrow> fdAt (childFds c) = childTable S \<and> argv c = shellCommand command \<and> \<not> ended c"
proof -
  obtain t S1 where init: "initAndFork E S = Inr (p, t, S1)"
    and S': "S' = addChild (execChild E 0 (shellCommand command) (popenPid p) t S1) S1"
    using assms(1) by (auto simp: RWPopen_shell_def andThen_Inr_iff)
  obtain t' where "S1 = S\<lparr>selfFds := t', nextPipe := nextPipe S + 2, nextPid := nextPid S + 1\<rparr>"
    "fdAt t = childTable S" "popenPid p = nextPid S" "popenIn p \<noteq> popenOut p"
    "fdAt (selfFds S) (popenIn p) = None" "fdAt (selfFds S) (popenOut p) = None"
    "fdAt t' = (fdAt (selfFds S))(popenIn p := Some (ReadEnd (nextPipe S)), popenOut p := Some (WriteEnd (nextPipe S + 1)))"
    using initAndFork_spec [OF init assms(2)] .
  then show thesis
    using that [of "execChild E 0 (shellCommand command) (popenPid p) t S1" t']
    by (simp add: S' addChild_def execChild_def)
qed

lemma find_ended: "find ended cs = Some c \<Longrightarrow> \<exists>us vs. cs = us @ c # vs \<and> (\<forall>u \<in> set us. \<not> ended u) \<and> ended c"
proof (induction cs)
  case (Cons d cs)
  show ?case
  proof (cases "ended d")
    case True
    then have "d # cs = [] @ c # cs \<and> ended c"
      using Cons.prems by simp
    then show ?thesis by fastforce
  next
    case False
    then obtain us vs where "cs = us @ c # vs" "\<forall>u \<in> set us. \<not> ended u" "ended c"
      using Cons by auto
    with False show ?thesis
      by (intro exI [of _ "d # us"] exI [of _ vs]) simp
  qed
qed simp

text \<open>Waiting for the last child reaps every other child that has ended before.\<close>

lemma waitLoop_last:
  assumes "ended c" and "\<forall>d \<in> set cs. childPid d \<noteq> childPid c"
  shows "waitLoop (childPid c) (cs @ [c]) = Some (filter (\<lambda>d. \<not> ended d) cs)"
  using assms(2)
proof (induction "length cs" arbitrary: cs rule: less_induct)
  case less
  show ?case
  proof (cases "find ended cs")
    case None
    then have none: "\<forall>d \<in> set cs. \<not> ended d"
      by (auto simp: find_None_iff)
    then have "find ended (cs @ [c]) = Some c" and "c \<notin> set cs"
      using assms(1) by (induction cs) auto
    then show ?thesis
      using none by (subst waitLoop.simps) (simp add: remove1_append filter_id_conv)
  next
    case (Some d)
    from find_ended [OF this] obtain us vs where cs: "cs = us @ d # vs" and us: "\<forall>u \<in> set us. \<not> ended u" and d: "ended d"
      by blast
    then have "d \<notin> set us"
      by blast
    then have rest: "remove1 d (cs @ [c]) = (us @ vs) @ [c]"
      by (simp add: cs remove1_append)
    have "find ended (cs @ [c]) = Some d"
      using us d unfolding cs by (induction us) auto
    then have "waitLoop (childPid c) (cs @ [c]) = waitLoop (childPid c) ((us @ vs) @ [c])"
      using less.prems rest by (subst waitLoop.simps) (simp add: cs)
    also have "\<dots> = Some (filter (\<lambda>d. \<not> ended d) (us @ vs))"
      using less.hyps [of "us @ vs"] less.prems by (simp add: cs)
    finally show ?thesis
      using d by (simp add: cs)
  qed
qed

lemma waitLoop_stuck:
  assumes "\<forall>d \<in> set cs. childPid d = pid \<longrightarrow> \<not> ended d"
  shows "waitLoop pid cs = None"
  using assms
proof (induction pid cs rule: waitLoop.induct)
  case (1 pid cs)
  show ?case
  proof (cases "find ended cs")
    case None
    then show ?thesis by (subst waitLoop.simps) simp
  next
    case (Some d)
    then have "ended d" "d \<in> set cs"
      by (auto simp: find_Some_iff)
    then have "childPid d \<noteq> pid"
      using "1.prems" by blast
    moreover from this have "waitLoop pid (remove1 d cs) = None"
      using "1.IH" [OF Some] "1.prems" by (meson notin_set_remove1)
    ultimately show ?thesis
      using Some by (subst waitLoop.simps) simp
  qed
qed

text \<open>Signal 0 changes nothing.\<close>

lemma sysKill_zero: "snd (sysKill pid 0 S) = S"
proof -
  have "map (\<lambda>c. if addressed S pid c then receive 0 c else c) cs = cs" for cs
    by (induction cs) (simp_all add: receive_def)
  then show ?thesis by (simp add: sysKill_def Let_def)
qed

text \<open>Process numbers are not used twice.\<close>

definition pidsOk :: "system \<Rightarrow> bool" where
  "pidsOk S \<longleftrightarrow> distinct (map childPid (children S @ descendants S)) \<and> selfPid S < nextPid S
     \<and> (\<forall>c \<in> set (children S @ descendants S). 0 < childPid c \<and> childPid c < nextPid S \<and> childPid c \<noteq> selfPid S)"

text \<open>Once another loop has waited for an ended child, the destructor of its own object fails.\<close>

lemma destroy_reaped:
  assumes "pidsOk S" and "d \<in> set (children S)" and "ended d"
    and "children S' = filter (\<lambda>c. \<not> ended c) (children S)" and "descendants S' = descendants S" and "selfPid S' = selfPid S"
    and "popenPid q = childPid d"
  shows "RWPopen_destroy q S' = Some (Inl ExitFailure)"
proof -
  have "inj_on childPid (set (children S @ descendants S))"
    using assms(1) unfolding pidsOk_def distinct_map by blast
  moreover have "set (children S) \<inter> set (descendants S) = {}"
    using assms(1) by (auto simp: pidsOk_def)
  ultimately have "childPid e \<noteq> childPid d" if "e \<in> set (filter (\<lambda>c. \<not> ended c) (children S) @ descendants S)" for e
    using that assms(2,3) by (auto simp: inj_on_def)
  moreover have "0 < childPid d" "childPid d \<noteq> selfPid S"
    using assms(1,2) unfolding pidsOk_def by auto
  ultimately have "\<not> fst (sysKill (popenPid q) SIGTERM (S'\<lparr>selfFds := t\<rparr>))" for t
    using assms(4-7) by (auto simp: sysKill_def addressed_def Let_def)
  then show ?thesis
    by (auto simp: RWPopen_destroy_def split_def Let_def)
qed

lemma popen_end:
  assumes "RWPopen_shell E command S = Inr (p, S')" and "standardOpen S" and "pidsOk S"
  shows "\<exists>S''. RWPopen_destroy p S' = Some (Inr S'') \<and> fdAt (selfFds S'') = fdAt (selfFds S)
    \<and> children S'' = filter (\<lambda>c. \<not> ended c) (children S)
    \<and> (\<forall>q. \<forall>c \<in> set (children S). ended c \<and> popenPid q = childPid c \<longrightarrow>
          RWPopen_destroy q S'' = Some (Inl ExitFailure))"
proof -
  obtain c t' where S': "S' = S\<lparr>selfFds := t', nextPipe := nextPipe S + 2, nextPid := nextPid S + 1, children := children S @ [c]\<rparr>"
    and p: "popenPid p = nextPid S" "popenIn p \<noteq> popenOut p"
    and free: "fdAt (selfFds S) (popenIn p) = None" "fdAt (selfFds S) (popenOut p) = None"
    and t': "fdAt t' = (fdAt (selfFds S))(popenIn p := Some (ReadEnd (nextPipe S)), popenOut p := Some (WriteEnd (nextPipe S + 1)))"
    and c: "childPid c = nextPid S" "\<not> ignoresTerm c"
    using RWPopen_shell_spec [OF assms(1,2)] by metis
  define t1 where "t1 = setFd (popenIn p) None t'"
  define t2 where "t2 = setFd (popenOut p) None t1"
  have close: "closeFd (popenIn p) t' = (True, t1)" "closeFd (popenOut p) t1 = (True, t2)"
    using p(2) by (simp_all add: closeFd_def t' t1_def t2_def)
  have t2: "fdAt t2 = fdAt (selfFds S)"
    using free by (auto simp: t1_def t2_def t' fun_eq_iff)
  have fresh: "\<forall>d \<in> set (children S @ descendants S). childPid d \<noteq> nextPid S"
    using assms(3) unfolding pidsOk_def by (metis less_irrefl)
  have pos: "0 < nextPid S" "selfPid S \<noteq> nextPid S"
    using assms(3) by (auto simp: pidsOk_def)
  let ?c = "c\<lparr>ended := True\<rparr>"
  have others: "map (\<lambda>d. if childPid d = nextPid S then receive SIGTERM d else d) cs = cs"
    if "set cs \<subseteq> set (children S @ descendants S)" for cs
    using fresh that by (intro map_idI) auto
  have kill: "sysKill (nextPid S) SIGTERM (S'\<lparr>selfFds := t2\<rparr>) = (True, S'\<lparr>selfFds := t2, children := children S @ [?c]\<rparr>)"
    using pos c others [of "children S"] others [of "descendants S"]
    by (simp add: sysKill_def addressed_def S' Let_def) (simp add: receive_def SIGTERM_def)
  have wait: "waitLoop (nextPid S) (children S @ [?c]) = Some (filter (\<lambda>d. \<not> ended d) (children S))"
    using waitLoop_last [of ?c "children S"] fresh c(1) by simp
  define S'' where "S'' = S'\<lparr>selfFds := t2, children := filter (\<lambda>d. \<not> ended d) (children S)\<rparr>"
  have "RWPopen_destroy p S' = Some (Inr S'')"
    using close kill wait by (simp add: RWPopen_destroy_def p(1) S' S''_def)
  moreover have "RWPopen_destroy q S'' = Some (Inl ExitFailure)"
    if d: "d \<in> set (children S)" "ended d" "popenPid q = childPid d" for q d
    using destroy_reaped [OF assms(3) d(1,2), of S'' q] d(3) by (simp add: S''_def S')
  moreover have "fdAt (selfFds S'') = fdAt (selfFds S)" "children S'' = filter (\<lambda>c. \<not> ended c) (children S)"
    by (simp_all add: S''_def t2)
  ultimately show ?thesis by blast
qed

section \<open>Properties\<close>

text \<open>
  C17. The wiring of a child: if the standard descriptors of the program are open, the shell of a new
  \<open>RWPopen\<close> reads the pipe that the object writes and writes the pipe that it reads, the object has
  the only other ends, so that it sees the end of the file when the child ends, and neither process
  keeps any other descriptor of the pipes. Standard error is not redirected: it stays what it was.
\<close>

theorem popen_wiring:
  assumes "RWPopen_shell E command S = Inr (p, S')" and "standardOpen S" and "\<not> execFails E"
  shows "\<exists>c. children S' = children S @ [c] \<and> childPid c = popenPid p
    \<and> argv c = shellCommand command
    \<and> fdAt (childFds c) =
        (fdAt (selfFds S))(0 := Some (ReadEnd (nextPipe S + 1)), 1 := Some (WriteEnd (nextPipe S)))
    \<and> fdAt (selfFds S') =
        (fdAt (selfFds S))(popenIn p := Some (ReadEnd (nextPipe S)), popenOut p := Some (WriteEnd (nextPipe S + 1)))
    \<and> fdAt (childFds c) 2 = fdAt (selfFds S) 2"
proof -
  show ?thesis
    by (rule RWPopen_shell_spec [OF assms(1,2)]) (use assms(3) in \<open>auto simp: childTable_def\<close>)
qed

definition consoleSystem :: system where
  "consoleSystem =
     \<lparr>selfPid = 1, selfGroup = 1, selfFds = [Some (OpenFile ''tty''), Some (OpenFile ''log''), Some (OpenFile ''log'')],
      selfIgnoresTerm = False, nextPipe = 0, nextPid = 2, children = [], descendants = []\<rparr>"

definition callsSucceed :: sysCalls where
  "callsSucceed = \<lparr>firstPipeFails = False, secondPipeFails = False, forkFails = False, execFails = False\<rparr>"

text \<open>A program that the shell has started.\<close>

definition demoProgram :: childProcess where
  "demoProgram = \<lparr>childPid = 2, childGroup = 1, childFds = [], argv = [''demo''], overrun = 0, ignoresTerm = False, ended = False\<rparr>"

definition busySystem :: system where
  "busySystem = consoleSystem\<lparr>nextPid := 3, descendants := [demoProgram]\<rparr>"

lemma busySystem_ok: "standardOpen busySystem" "pidsOk busySystem"
  by (simp_all add: standardOpen_def pidsOk_def busySystem_def consoleSystem_def demoProgram_def fdAt_def)

lemma consoleSystem_ok: "standardOpen consoleSystem" "pidsOk consoleSystem" "\<not> execFails callsSucceed"
  by (simp_all add: standardOpen_def pidsOk_def consoleSystem_def fdAt_def callsSucceed_def)

lemma consoleSystem_runs:
  "\<exists>p S'. RWPopen_shell callsSucceed ''ls'' consoleSystem = Inr (p, S') \<and> popenIn p = 3 \<and> popenOut p = 6"
proof -
  have "case RWPopen_shell callsSucceed ''ls'' consoleSystem of Inr (p, S') \<Rightarrow> popenIn p = 3 \<and> popenOut p = 6 | _ \<Rightarrow> False"
    by (simp add: RWPopen_shell_def initAndFork_def sysPipe_def allocFd_def setFd_def lowestFree_def closeFd_def
        fdAt_def consoleSystem_def callsSucceed_def)
  then show ?thesis
    by (auto split: sum.splits prod.splits)
qed

lemma busySystem_runs: "\<exists>p S'. RWPopen_shell callsSucceed ''ls'' busySystem = Inr (p, S')"
  by (simp add: RWPopen_shell_def initAndFork_def sysPipe_def allocFd_def setFd_def lowestFree_def closeFd_def
      fdAt_def busySystem_def consoleSystem_def callsSucceed_def)

theorem popen_wiring_witness:
  "\<exists>p S'. RWPopen_shell callsSucceed ''ls'' consoleSystem = Inr (p, S')
    \<and> popenIn p = 3 \<and> popenOut p = 6 \<and> (\<exists>c. children S' = [c] \<and> fdAt (childFds c) 2 = Some (OpenFile ''log''))"
proof -
  obtain p S' where run: "RWPopen_shell callsSucceed ''ls'' consoleSystem = Inr (p, S')" "popenIn p = 3" "popenOut p = 6"
    using consoleSystem_runs by blast
  have "children consoleSystem = []" "fdAt (selfFds consoleSystem) 2 = Some (OpenFile ''log'')"
    by (simp_all add: consoleSystem_def fdAt_def)
  with popen_wiring [OF run(1) consoleSystem_ok(1,3)] show ?thesis
    using run by auto
qed



text \<open>
  A child that ignores SIGTERM keeps the destructor waiting for ever.
\<close>

lemma stubborn_child_blocks:
  assumes "children S = [c]" and "childPid c = popenPid p" and "ignoresTerm c" and "\<not> ended c"
    and "fdAt (selfFds S) (popenIn p) \<noteq> None" and "fdAt (selfFds S) (popenOut p) \<noteq> None" and "popenIn p \<noteq> popenOut p"
    and "0 < popenPid p"
  shows "RWPopen_destroy p S = None"
  using assms waitLoop_stuck [of "[c]" "popenPid p"]
  by (auto simp: RWPopen_destroy_def closeFd_def sysKill_def addressed_def receive_def SIGTERM_def Let_def)

text \<open>
  C29. The end of \<open>stopWrapped\<close> does nothing: it is meant to end the process group, but its call of
  \<open>kill\<close> has the arguments in the wrong order. Stopping is just the destruction of the object, and the
  processes that the child has started, such as the program that a shell runs, go on unharmed; with
  the arguments in order, every one of the group that does not ignore the signal would have ended.
\<close>

theorem stop_spares_group:
  assumes "\<not> selfIgnoresTerm S" and "popenPid p \<noteq> 0" and "\<forall>c \<in> set (descendants S). childPid c \<noteq> popenPid p"
  shows "stopProcess p S = RWPopen_destroy p S
    \<and> (\<forall>S'. stopProcess p S = Some (Inr S') \<longrightarrow> descendants S' = descendants S)
    \<and> (\<forall>c \<in> set (descendants (snd (sysKill 0 SIGTERM S))). childGroup c = selfGroup S \<longrightarrow> ignoresTerm c \<or> ended c)"
proof -
  have "map (\<lambda>c. if addressed S' (popenPid p) c then receive SIGTERM c else c) (descendants S) = descendants S" for S'
    using assms(2,3) by (intro map_idI) (auto simp: addressed_def)
  then have keeps: "\<not> selfIgnoresTerm S' \<and> descendants S' = descendants S" if "RWPopen_destroy p S = Some (Inr S')" for S'
    using that assms(1) by (auto simp: RWPopen_destroy_def sysKill_def Let_def split_def split: if_splits)
  have zero: "(snd (sysKill SIGTERM 0 (S'\<lparr>selfIgnoresTerm := True\<rparr>)))\<lparr>selfIgnoresTerm := False\<rparr> = S'"
    if "\<not> selfIgnoresTerm S'" for S' :: system
    using that by (simp add: sysKill_zero)
  have same: "stopProcess p S = RWPopen_destroy p S"
  proof (cases "RWPopen_destroy p S")
    case (Some r)
    then show ?thesis
      using keeps zero by (cases r) (simp_all add: stopProcess_def Let_def)
  qed (simp add: stopProcess_def)
  moreover have "ignoresTerm c \<or> ended c"
    if "c \<in> set (descendants (snd (sysKill 0 SIGTERM S)))" "childGroup c = selfGroup S" for c
    using that by (auto simp: sysKill_def addressed_def receive_def SIGTERM_def Let_def split: if_splits)
  ultimately show ?thesis using keeps by simp
qed

theorem stop_spares_group_witness:
  "\<exists>p S' S''. RWPopen_shell callsSucceed ''ls'' busySystem = Inr (p, S')
    \<and> stopProcess p S' = Some (Inr S'') \<and> descendants S'' = [demoProgram] \<and> \<not> ended demoProgram"
proof -
  obtain p S' where run: "RWPopen_shell callsSucceed ''ls'' busySystem = Inr (p, S')"
    using busySystem_runs by blast
  have S': "\<not> selfIgnoresTerm S'" "descendants S' = [demoProgram]" "popenPid p = 3"
    by (rule RWPopen_shell_spec [OF run busySystem_ok(1)]; simp add: busySystem_def consoleSystem_def)+
  have "childPid demoProgram = 2" "\<not> ended demoProgram"
    by (simp_all add: demoProgram_def)
  moreover obtain S'' where "RWPopen_destroy p S' = Some (Inr S'')"
    using popen_end [OF run busySystem_ok] by blast
  ultimately show ?thesis
    using stop_spares_group [OF S'(1), of p] run S'(2,3)
    by (intro exI [of _ p] exI [of _ S'] exI [of _ S'']) simp
qed



end
