(* ===== verification/StdMap.thy ===== *)
theory StdMap
  imports Prelude "HOL-Library.List_Lexorder" "HOL-Library.Char_ord"
begin

text \<open>
  \<open>std::map\<close> of the C++ standard library as the program uses it: lookups, assignments through
  \<open>operator[]\<close> and iteration in key order. A map is the list of its entries, sorted by key.
\<close>

type_synonym ('k, 'v) stdmap = "('k \<times> 'v) list"

definition mapEmpty :: "('k, 'v) stdmap" where
  "mapEmpty = []"

fun mapPut :: "'k::linorder \<Rightarrow> 'v \<Rightarrow> ('k, 'v) stdmap \<Rightarrow> ('k, 'v) stdmap" where
  "mapPut k v [] = [(k, v)]"
| "mapPut k v ((a, b) # m) =
     (if k < a then (k, v) # (a, b) # m
      else if k = a then (k, v) # m
      else (a, b) # mapPut k v m)"

definition mapFind :: "('k, 'v) stdmap \<Rightarrow> 'k \<Rightarrow> 'v option" where
  "mapFind m k = map_of m k"

text \<open>\<open>operator[]\<close> inserts the default value \<open>d\<close> of the mapped type when the key is new.\<close>

definition mapAt :: "'v \<Rightarrow> ('k, 'v) stdmap \<Rightarrow> 'k \<Rightarrow> 'v" where
  "mapAt d m k = (case mapFind m k of None \<Rightarrow> d | Some v \<Rightarrow> v)"

definition mapValid :: "('k::linorder, 'v) stdmap \<Rightarrow> bool" where
  "mapValid m \<longleftrightarrow> sorted_wrt (<) (map fst m)"

section \<open>The interface of a map\<close>

locale finite_table =
  fixes empty :: "'m" and put :: "'k \<Rightarrow> 'v \<Rightarrow> 'm \<Rightarrow> 'm" and find :: "'m \<Rightarrow> 'k \<Rightarrow> 'v option"
    and entries :: "'m \<Rightarrow> ('k \<times> 'v) list" and valid :: "'m \<Rightarrow> bool"
  assumes valid_empty: "valid empty" and find_empty: "find empty k = None"
    and valid_put: "valid m \<Longrightarrow> valid (put k v m)"
    and find_put: "find (put k v m) j = (if j = k then Some v else find m j)"
    and entries_distinct: "valid m \<Longrightarrow> distinct (map fst (entries m))"
    and entries_find: "valid m \<Longrightarrow> (k, v) \<in> set (entries m) \<longleftrightarrow> find m k = Some v"
    and entries_put_new: "find m k = None \<Longrightarrow> mset (entries (put k v m)) = add_mset (k, v) (mset (entries m))"
    and entries_empty: "entries empty = []"
begin

text \<open>Filling a map from a list: later entries win, and with distinct keys every entry stays.\<close>

lemma find_fold:
  "find (fold (\<lambda>(k, v). put k v) kvs m) k =
     (case map_of (rev kvs) k of None \<Rightarrow> find m k | Some v \<Rightarrow> Some v)"
proof (induction kvs arbitrary: m)
  case (Cons kv kvs)
  then show ?case
    by (cases kv) (auto simp: find_put map_add_def split: option.splits)
qed simp

lemma valid_fold: "valid m \<Longrightarrow> valid (fold (\<lambda>(k, v). put k v) kvs m)"
  by (induction kvs arbitrary: m) (auto simp: valid_put)

lemma entries_fold:
  assumes "distinct (map fst kvs)" and "\<And>k. k \<in> fst ` set kvs \<Longrightarrow> find m k = None"
  shows "mset (entries (fold (\<lambda>(k, v). put k v) kvs m)) = mset kvs + mset (entries m)"
  using assms
proof (induction kvs arbitrary: m)
  case (Cons kv kvs)
  obtain k v where kv: "kv = (k, v)"
    by fastforce
  have "find (put k v m) j = None" if "j \<in> fst ` set kvs" for j
    using that Cons.prems(1) Cons.prems(2) [of j] kv by (auto simp: find_put)
  from Cons.IH [OF _ this] show ?case
    using Cons.prems kv by (simp add: entries_put_new)
qed simp

lemma put_same_entries:
  assumes "valid m" and "valid m'" and "\<And>k. find m k = find m' k"
  shows "set (entries m) = set (entries m')"
  using assms by (auto simp: entries_find)

end

lemma mapPut_keys: "set (map fst (mapPut k v m)) = insert k (set (map fst m))"
  by (induction k v m rule: mapPut.induct) auto

lemma mapPut_valid: "mapValid m \<Longrightarrow> mapValid (mapPut k v m)"
proof (induction k v m rule: mapPut.induct)
  case (2 k v a b m)
  have tail: "\<forall>y \<in> set (map fst (mapPut k v m)). a < y" if "a < k"
    unfolding mapPut_keys using 2(2) that by (auto simp: mapValid_def)
  then show ?case
    using 2 by (auto simp: mapValid_def)
qed (simp add: mapValid_def)

lemma mapFind_mapPut [simp]: "mapFind (mapPut k v m) j = (if j = k then Some v else mapFind m j)"
  unfolding mapFind_def by (induction k v m rule: mapPut.induct) auto

lemma mapFind_Nil [simp]: "mapFind [] k = None"
  by (simp add: mapFind_def)

lemma mapPut_mset_new: "mapFind m k = None \<Longrightarrow> mset (mapPut k v m) = add_mset (k, v) (mset m)"
  unfolding mapFind_def
  by (induction k v m rule: mapPut.induct) (auto split: if_splits)

lemma mapValid_distinct: "mapValid m \<Longrightarrow> distinct (map fst m)"
  by (simp add: mapValid_def strict_sorted_iff)

interpretation stdmap: finite_table mapEmpty mapPut mapFind "\<lambda>m. m" mapValid
proof
  show "mapValid m \<Longrightarrow> (k, v) \<in> set m \<longleftrightarrow> mapFind m k = Some v" for m :: "('k::linorder, 'v) stdmap" and k v
    using mapValid_distinct [of m] by (auto simp: mapFind_def dest: map_of_SomeD)
qed (simp_all add: mapEmpty_def mapValid_def [of "[]"] mapPut_valid mapPut_mset_new mapValid_distinct)

text \<open>A map is determined by its entries: equal lookups give equal maps, hence equal iterations.\<close>

lemma mapValid_unique:
  assumes "mapValid m" and "mapValid m'" and "\<And>k. mapFind m k = mapFind m' k"
  shows "m = m'"
proof (rule map_sorted_distinct_set_unique)
  show "set m = set m'"
    using assms by (rule stdmap.put_same_entries)
  show "inj_on fst (set m \<union> set m')"
    unfolding \<open>set m = set m'\<close> using mapValid_distinct [OF assms(2)] by (simp add: distinct_map)
qed (use assms in \<open>simp_all add: mapValid_def strict_sorted_iff\<close>)

lemma map_of_rev_distinct:
  assumes "distinct (map fst kvs)"
  shows "map_of (rev kvs) = map_of kvs"
proof -
  have "distinct (map fst (rev kvs))" using assms by (simp add: rev_map [symmetric])
  then show ?thesis using assms by (metis ext map_of_eq_Some_iff not_None_eq set_rev)
qed

text \<open>Filling an empty map from the entries of a map gives the map back.\<close>

lemma mapPut_entries:
  assumes "mapValid m"
  shows "fold (\<lambda>(k, v). mapPut k v) m mapEmpty = m"
proof (rule mapValid_unique)
  show "mapValid (fold (\<lambda>(k, v). mapPut k v) m mapEmpty)"
    by (intro stdmap.valid_fold stdmap.valid_empty)
  have "map_of (rev m) = map_of m"
    by (rule map_of_rev_distinct [OF mapValid_distinct [OF assms]])
  then show "mapFind (fold (\<lambda>(k, v). mapPut k v) m mapEmpty) k = mapFind m k" for k
    using stdmap.find_fold [of m mapEmpty k]
    by (simp add: stdmap.find_empty) (simp add: mapFind_def mapEmpty_def split: option.splits)
qed (rule assms)

end
