(* ===== verification/Statistics.thy ===== *)
theory Statistics
  imports StdMap "HOL-Library.Signed_Division"
begin

text \<open>
  The class template \<open>Statistics\<close> of \<open>src/src/metrics/Statistics.h\<close>. The program instantiates it at
  \<open>long int\<close> and \<open>double\<close>; what the template asks of its argument (conversion to \<open>double\<close> and
  division) are the parameters \<open>toDouble\<close> and \<open>quot\<close>. A \<open>double\<close> is a real number: rounding is not
  modelled. The counters are 64-bit words. The members \<open>max_\<close> and \<open>min_\<close> are \<open>None\<close> until the first
  push initialises them.
\<close>

record 'a Statistics =
  meanValue :: real
  maxValue :: "'a option"
  minValue :: "'a option"
  elementCount :: u64
  mapInterval :: 'a
  frequencyMap :: "('a, u64) stdmap"

definition newStatistics :: "'a \<Rightarrow> 'a Statistics" where
  "newStatistics interval =
     \<lparr>meanValue = 0, maxValue = None, minValue = None, elementCount = 0,
      mapInterval = interval, frequencyMap = mapEmpty\<rparr>"

definition Statistics_push ::
    "('a::{linorder,zero} \<Rightarrow> real) \<Rightarrow> ('a \<Rightarrow> 'a \<Rightarrow> 'a) \<Rightarrow> 'a \<Rightarrow> 'a Statistics \<Rightarrow> 'a Statistics" where
  "Statistics_push toDouble quot element S =
     (let S = (if elementCount S = 0
               then S\<lparr>maxValue := Some element, minValue := Some element\<rparr>
               else S\<lparr>maxValue := map_option (\<lambda>m. if m < element then element else m) (maxValue S),
                      minValue := map_option (\<lambda>m. if m > element then element else m) (minValue S)\<rparr>);
          S = S\<lparr>elementCount := elementCount S + 1\<rparr>;
          S = S\<lparr>meanValue := meanValue S + (toDouble element - meanValue S) / real (unat (elementCount S))\<rparr>
      in if mapInterval S \<noteq> 0
         then let q = quot element (mapInterval S)
              in S\<lparr>frequencyMap := mapPut q (mapAt 0 (frequencyMap S) q + 1) (frequencyMap S)\<rparr>
         else S)"

definition Statistics_mean :: "'a Statistics \<Rightarrow> real" where
  "Statistics_mean S = meanValue S"

definition Statistics_max :: "'a Statistics \<Rightarrow> 'a result" where
  "Statistics_max S = (case maxValue S of None \<Rightarrow> Inl UndefinedBehaviour | Some m \<Rightarrow> Inr m)"

definition Statistics_min :: "'a Statistics \<Rightarrow> 'a result" where
  "Statistics_min S = (case minValue S of None \<Rightarrow> Inl UndefinedBehaviour | Some m \<Rightarrow> Inr m)"

definition Statistics_count :: "'a Statistics \<Rightarrow> u64" where
  "Statistics_count S = elementCount S"

definition getFrequencyMap :: "'a Statistics \<Rightarrow> 'a \<times> ('a, u64) stdmap" where
  "getFrequencyMap S = (mapInterval S, frequencyMap S)"

definition pushAll ::
    "('a::{linorder,zero} \<Rightarrow> real) \<Rightarrow> ('a \<Rightarrow> 'a \<Rightarrow> 'a) \<Rightarrow> 'a list \<Rightarrow> 'a Statistics \<Rightarrow> 'a Statistics" where
  "pushAll toDouble quot xs S = fold (Statistics_push toDouble quot) xs S"

section \<open>What the statistics of a list of elements are\<close>

definition summarises ::
    "('a::{linorder,zero} \<Rightarrow> real) \<Rightarrow> ('a \<Rightarrow> 'a \<Rightarrow> 'a) \<Rightarrow> 'a \<Rightarrow> 'a list \<Rightarrow> 'a Statistics \<Rightarrow> bool" where
  "summarises toDouble quot interval xs S \<longleftrightarrow>
     elementCount S = of_nat (length xs)
     \<and> mapInterval S = interval
     \<and> meanValue S = (\<Sum>x\<leftarrow>xs. toDouble x) / real (length xs)
     \<and> maxValue S = (if xs = [] then None else Some (Max (set xs)))
     \<and> minValue S = (if xs = [] then None else Some (Min (set xs)))
     \<and> (\<forall>q. mapAt 0 (frequencyMap S) q =
          (if interval = 0 then 0 else of_nat (length (filter (\<lambda>x. quot x interval = q) xs))))"

lemma summarises_new: "summarises toDouble quot interval [] (newStatistics interval)"
  by (simp add: summarises_def newStatistics_def mapAt_def mapEmpty_def)

lemma mean_step:
  fixes s a n :: real
  assumes "0 \<le> n" and "n = 0 \<Longrightarrow> s = 0"
  shows "s / n + (a - s / n) / (n + 1) = (s + a) / (n + 1)"
proof (cases "n = 0")
  case False
  have n: "n + 1 \<noteq> 0"
    using assms(1) by simp
  define d where "d = s / n"
  have s: "s = d * n"
    using False by (simp add: d_def)
  have "(d + (a - d) / (n + 1)) * (n + 1) = d * (n + 1) + (a - d)"
    using n by (simp only: distrib_right nonzero_eq_divide_eq [symmetric] times_divide_eq_left
        nonzero_mult_div_cancel_right not_False_eq_True)
  also have "\<dots> = s + a"
    by (simp add: s algebra_simps)
  finally show ?thesis
    using n by (simp add: d_def eq_divide_eq)
qed (simp add: assms)

lemma count_step:
  assumes "n + 1 < 18446744073709551616"
  shows "unat (of_nat n + 1 :: u64) = n + 1" and "(of_nat n :: u64) = 0 \<longleftrightarrow> n = 0"
proof -
  have u: "unat (of_nat m :: u64) = m" if "m < 18446744073709551616" for m
    using that by (simp add: unat_of_nat)
  have "(of_nat n + 1 :: u64) = of_nat (n + 1)"
    by simp
  then show "unat (of_nat n + 1 :: u64) = n + 1"
    using u [OF assms] by (simp only:)
  show "(of_nat n :: u64) = 0 \<longleftrightarrow> n = 0"
  proof
    assume "(of_nat n :: u64) = 0"
    then have "unat (of_nat n :: u64) = 0"
      by (simp only: unat_0)
    then show "n = 0"
      using u [of n] assms by linarith
  qed simp
qed

lemma elementCount_push [simp]:
  "elementCount (Statistics_push toDouble quot x S) = elementCount S + 1"
  by (simp add: Statistics_push_def Let_def)

lemma summarises_push:
  assumes "summarises toDouble quot interval xs S" and "length xs + 1 < 18446744073709551616"
  shows "summarises toDouble quot interval (xs @ [x]) (Statistics_push toDouble quot x S)"
proof -
  let ?n = "real (length xs)"
  have S: "elementCount S = of_nat (length xs)" "mapInterval S = interval"
    "meanValue S = (\<Sum>x\<leftarrow>xs. toDouble x) / ?n"
    using assms(1) by (simp_all add: summarises_def)
  note count = count_step [OF assms(2)]
  have "meanValue (Statistics_push toDouble quot x S) =
      meanValue S + (toDouble x - meanValue S) / real (unat (elementCount S + 1))"
    by (simp add: Statistics_push_def Let_def)
  also have "\<dots> = (\<Sum>x\<leftarrow>xs. toDouble x) / ?n + (toDouble x - (\<Sum>x\<leftarrow>xs. toDouble x) / ?n) / (?n + 1)"
    unfolding S count(1) by simp
  also have "\<dots> = ((\<Sum>x\<leftarrow>xs. toDouble x) + toDouble x) / (?n + 1)"
    by (rule mean_step) simp_all
  finally have mean: "meanValue (Statistics_push toDouble quot x S) =
      (\<Sum>x\<leftarrow>xs @ [x]. toDouble x) / real (length (xs @ [x]))"
    by (simp add: add.commute)
  have extrema: "maxValue (Statistics_push toDouble quot x S) = Some (Max (set (xs @ [x])))
      \<and> minValue (Statistics_push toDouble quot x S) = Some (Min (set (xs @ [x])))"
  proof (cases "xs = []")
    case True
    then show ?thesis using S count by (simp add: Statistics_push_def Let_def)
  next
    case False
    then have "Max (set (xs @ [x])) = max x (Max (set xs))" "Min (set (xs @ [x])) = min x (Min (set xs))"
      by simp_all
    moreover obtain hi lo where "hi = Max (set xs)" "lo = Min (set xs)" and old: "maxValue S = Some hi" "minValue S = Some lo"
      using assms(1) False by (simp add: summarises_def)
    moreover have "elementCount S \<noteq> 0"
      using S count False by simp
    then have "maxValue (Statistics_push toDouble quot x S) = Some (max x hi)"
      "minValue (Statistics_push toDouble quot x S) = Some (min x lo)"
      using old by (auto simp: Statistics_push_def Let_def max_def min_def)
    ultimately show ?thesis
      by simp
  qed
  show ?thesis
    using assms(1) S mean extrema
    by (simp add: summarises_def) (simp add: Statistics_push_def Let_def mapAt_def)
qed

lemma summarises_pushAll:
  assumes "length xs < 18446744073709551616"
  shows "summarises toDouble quot interval xs (pushAll toDouble quot xs (newStatistics interval))"
  using assms
proof (induction xs rule: rev_induct)
  case (snoc x xs)
  then show ?case
    by (simp add: pushAll_def) (use summarises_push in force)
qed (simp add: pushAll_def summarises_new)

section \<open>The interface of an element type\<close>

locale element_type =
  fixes toDouble :: "'a::{linorder,zero} \<Rightarrow> real" and quot :: "'a \<Rightarrow> 'a \<Rightarrow> 'a"
  assumes toDouble_mono: "x \<le> y \<Longrightarrow> toDouble x \<le> toDouble y"
begin

text \<open>The mean lies between the smallest and the largest element.\<close>

lemma mean_between:
  assumes "summarises toDouble quot interval xs S" and "xs \<noteq> []"
  shows "\<exists>lo hi. minValue S = Some lo \<and> maxValue S = Some hi
    \<and> toDouble lo \<le> meanValue S \<and> meanValue S \<le> toDouble hi"
proof -
  let ?n = "real (length xs)"
  have n: "0 < ?n"
    using assms(2) by simp
  have "(\<Sum>x\<leftarrow>xs. toDouble x) \<le> (\<Sum>x\<leftarrow>xs. toDouble (Max (set xs)))"
    by (rule sum_list_mono) (simp add: toDouble_mono)
  moreover have "(\<Sum>x\<leftarrow>xs. toDouble (Min (set xs))) \<le> (\<Sum>x\<leftarrow>xs. toDouble x)"
    by (rule sum_list_mono) (simp add: toDouble_mono)
  ultimately have "?n * toDouble (Min (set xs)) \<le> (\<Sum>x\<leftarrow>xs. toDouble x)"
    and "(\<Sum>x\<leftarrow>xs. toDouble x) \<le> ?n * toDouble (Max (set xs))"
    by (simp_all add: sum_list_triv)
  then show ?thesis
    using assms n by (simp add: summarises_def pos_le_divide_eq pos_divide_le_eq mult.commute)
qed

text \<open>Pushing in another order gives the same statistics.\<close>

lemma order_irrelevant:
  assumes "summarises toDouble quot interval xs S" and "summarises toDouble quot interval ys S'"
    and "mset xs = mset ys"
  shows "meanValue S = meanValue S' \<and> maxValue S = maxValue S' \<and> minValue S = minValue S'
    \<and> elementCount S = elementCount S' \<and> (\<forall>q. mapAt 0 (frequencyMap S) q = mapAt 0 (frequencyMap S') q)"
proof -
  have "set xs = set ys" "length xs = length ys" "xs = [] \<longleftrightarrow> ys = []"
    using assms(3) by (auto dest: mset_eq_setD mset_eq_length)
  moreover have "(\<Sum>x\<leftarrow>xs. toDouble x) = (\<Sum>x\<leftarrow>ys. toDouble x)"
    using assms(3) by (metis mset_map sum_mset_sum_list)
  moreover have "length (filter P xs) = length (filter P ys)" for P
    using assms(3) by (metis mset_filter size_mset)
  ultimately show ?thesis
    using assms(1,2) by (simp add: summarises_def)
qed

end

text \<open>\<open>long int\<close>, whose division truncates, and \<open>double\<close>.\<close>

definition longQuot :: "int \<Rightarrow> int \<Rightarrow> int" where
  "longQuot a b = a sdiv b"

definition doubleQuot :: "real \<Rightarrow> real \<Rightarrow> real" where
  "doubleQuot a b = a / b"

interpretation long: element_type real_of_int longQuot
  by unfold_locales simp

interpretation double: element_type "\<lambda>x. x" doubleQuot
  by unfold_locales simp

abbreviation pushLong :: "int \<Rightarrow> int Statistics \<Rightarrow> int Statistics" where
  "pushLong \<equiv> Statistics_push real_of_int longQuot"

abbreviation pushDouble :: "real \<Rightarrow> real Statistics \<Rightarrow> real Statistics" where
  "pushDouble \<equiv> Statistics_push (\<lambda>x. x) doubleQuot"

section \<open>Properties\<close>

text \<open>
  C22. The running statistics are the statistics of the list: after pushing the elements of a list of
  fewer than 2^64 elements, the incremental mean is the sum over the count, \<open>max\<close> and \<open>min\<close> are the
  extreme elements (not set for the empty list), \<open>count\<close> is the length, and each bucket of the
  frequency map counts the elements that truncated division by the interval puts there.
\<close>

theorem statistics_of_list:
  assumes "length xs < 2 ^ 64"
  shows "summarises real_of_int longQuot interval xs (pushAll real_of_int longQuot xs (newStatistics interval))"
  using summarises_pushAll assms by simp

theorem statistics_of_list_witness:
  "meanValue (pushAll real_of_int longQuot [10, 50, 30] (newStatistics 20)) = 30
   \<and> maxValue (pushAll real_of_int longQuot [10, 50, 30] (newStatistics 20)) = Some 50
   \<and> mapAt 0 (frequencyMap (pushAll real_of_int longQuot [10, 50, 30] (newStatistics 20))) 2 = 1"
proof -
  have "longQuot 10 20 = 0" "longQuot 50 20 = 2" "longQuot 30 20 = 1"
    by (simp_all add: longQuot_def signed_divide_int_def)
  then show ?thesis
    using statistics_of_list [of "[10, 50, 30]" 20] by (simp add: summarises_def)
qed

end
