(* ===== verification/NodeMetrics.thy ===== *)
theory NodeMetrics
  imports Statistics ThirdParty
begin

text \<open>
  The metrics of one node, \<open>src/src/metrics/NodeLatency.cpp\<close>, \<open>NodeSuccessRate.cpp\<close> and
  \<open>NodesStatus.cpp\<close>: what a controller measures, and the text in which it reports it.
\<close>

section \<open>NodeLatency\<close>

record NodeLatency =
  measurements :: "(int, int) stdmap"
  latencyStatistics :: "int Statistics"

definition newNodeLatency :: NodeLatency where
  "newNodeLatency = \<lparr>measurements = mapEmpty, latencyStatistics = newStatistics 0\<rparr>"

definition push_with_time :: "int \<Rightarrow> int \<Rightarrow> NodeLatency \<Rightarrow> NodeLatency" where
  "push_with_time t d N =
     \<lparr>measurements = mapPut t d (measurements N), latencyStatistics = pushLong d (latencyStatistics N)\<rparr>"

text \<open>The constructor from a string walks the substrings in steps of two; an empty one is skipped
  together with the one after it.\<close>

fun NodeLatency_loop :: "'b boost_scheme \<Rightarrow> string list \<Rightarrow> NodeLatency \<Rightarrow> NodeLatency result" where
  "NodeLatency_loop B [] N = Inr N"
| "NodeLatency_loop B [s] N =
     (if s = [] then Inr N
      else (case fromIsoString B s of None \<Rightarrow> Inl BadTimeString | Some t \<Rightarrow> Inl ExitFailure))"
| "NodeLatency_loop B (s # s' # ss) N =
     (if s = [] then NodeLatency_loop B ss N
      else (case fromIsoString B s of
              None \<Rightarrow> Inl BadTimeString
            | Some t \<Rightarrow>
                (case durationFromString B s' of
                   None \<Rightarrow> Inl BadTimeString
                 | Some d \<Rightarrow> NodeLatency_loop B ss (push_with_time t d N))))"

definition NodeLatency_fromString :: "'b boost_scheme \<Rightarrow> string \<Rightarrow> NodeLatency result" where
  "NodeLatency_fromString B s = NodeLatency_loop B (boostSplit B '' '' s) newNodeLatency"

text \<open>\<open>push\<close> takes the time from the clock, which is the argument \<open>now\<close>.\<close>

definition NodeLatency_push :: "int \<Rightarrow> int \<Rightarrow> NodeLatency \<Rightarrow> NodeLatency" where
  "NodeLatency_push now d N = push_with_time now d N"

definition NodeLatency_count :: "NodeLatency \<Rightarrow> u64" where
  "NodeLatency_count N = Statistics_count (latencyStatistics N)"

definition meanInMicroseconds :: "NodeLatency \<Rightarrow> real" where
  "meanInMicroseconds N = (if NodeLatency_count N \<noteq> 0 then Statistics_mean (latencyStatistics N) else 0)"

definition maxInMicroseconds :: "NodeLatency \<Rightarrow> int result" where
  "maxInMicroseconds N = (if NodeLatency_count N \<noteq> 0 then Statistics_max (latencyStatistics N) else Inr 0)"

definition minInMicroseconds :: "NodeLatency \<Rightarrow> int result" where
  "minInMicroseconds N = (if NodeLatency_count N \<noteq> 0 then Statistics_min (latencyStatistics N) else Inr 0)"

fun NodeLatency_toStringLoop :: "'b boost_scheme \<Rightarrow> bool \<Rightarrow> string \<Rightarrow> (int \<times> int) list \<Rightarrow> string" where
  "NodeLatency_toStringLoop B first ret [] = ret"
| "NodeLatency_toStringLoop B first ret ((t, d) # ms) =
     NodeLatency_toStringLoop B False
       (((if first then ret else ret @ '' '') @ toIsoString B t @ '' '') @ toSimpleString B d) ms"

definition NodeLatency_toString :: "'b boost_scheme \<Rightarrow> NodeLatency \<Rightarrow> string" where
  "NodeLatency_toString B N = NodeLatency_toStringLoop B True [] (measurements N)"

section \<open>NodeSuccessRate\<close>

text \<open>The counters are \<open>int64_t\<close>: 64-bit words read as signed numbers.\<close>

record NodeSuccessRate =
  hits :: u64
  misses :: u64

definition newNodeSuccessRate :: NodeSuccessRate where
  "newNodeSuccessRate = \<lparr>hits = 0, misses = 0\<rparr>"

definition NodeSuccessRate_fromString :: "string \<Rightarrow> NodeSuccessRate" where
  "NodeSuccessRate_fromString s =
     (let (h, tmp) = extractInt 64 0 (istreamOf s);
          (m, tmp) = extractInt 64 0 tmp
      in \<lparr>hits = word_of_int h, misses = word_of_int m\<rparr>)"

definition NodeSuccessRate_hit :: "NodeSuccessRate \<Rightarrow> NodeSuccessRate" where
  "NodeSuccessRate_hit R = R\<lparr>hits := hits R + 1\<rparr>"

definition NodeSuccessRate_miss :: "NodeSuccessRate \<Rightarrow> NodeSuccessRate" where
  "NodeSuccessRate_miss R = R\<lparr>misses := misses R + 1\<rparr>"

definition NodeSuccessRate_count :: "NodeSuccessRate \<Rightarrow> u64" where
  "NodeSuccessRate_count R = hits R + misses R"

definition successRate :: "NodeSuccessRate \<Rightarrow> real" where
  "successRate R =
     (if misses R + hits R = 0 then 0
      else real_of_int (sint (hits R)) / real_of_int (sint (misses R + hits R)))"

definition NodeSuccessRate_toString :: "NodeSuccessRate \<Rightarrow> string" where
  "NodeSuccessRate_toString R = showInt (sint (hits R)) @ '' '' @ showInt (sint (misses R))"

section \<open>NodesStatus\<close>

record NodesStatus =
  finished :: int
  failed :: int
  unfinished :: int

definition newNodesStatus :: NodesStatus where
  "newNodesStatus = \<lparr>finished = 0, failed = 0, unfinished = 0\<rparr>"

definition NodesStatus_set :: "string \<Rightarrow> NodesStatus \<Rightarrow> NodesStatus" where
  "NodesStatus_set val N =
     (let (a, stream) = extractInt 32 (finished N) (istreamOf val);
          (b, stream) = extractInt 32 (failed N) stream;
          (c, stream) = extractInt 32 (unfinished N) stream
      in \<lparr>finished = a, failed = b, unfinished = c\<rparr>)"

section \<open>The text of the measurements\<close>

definition measurementTokens :: "'b boost_scheme \<Rightarrow> (int \<times> int) list \<Rightarrow> string list" where
  "measurementTokens B ms = concat (map (\<lambda>(t, d). [toIsoString B t, toSimpleString B d]) ms)"

lemma measurementTokens_Nil_iff [simp]: "measurementTokens B ms = [] \<longleftrightarrow> ms = []"
  by (cases ms) (auto simp: measurementTokens_def)

lemma joinWith_append:
  "us \<noteq> [] \<Longrightarrow> vs \<noteq> [] \<Longrightarrow> joinWith (us @ vs) sep = joinWith us sep @ sep @ joinWith vs sep"
proof (induction us)
  case (Cons u us)
  then show ?case
    by (cases us; cases vs) simp_all
qed simp

lemma toStringLoop_joinWith:
  "us \<noteq> [] \<Longrightarrow> NodeLatency_toStringLoop B False (joinWith us '' '') ms = joinWith (us @ measurementTokens B ms) '' ''"
proof (induction ms arbitrary: us)
  case (Cons m ms)
  obtain t d where m: "m = (t, d)"
    by fastforce
  let ?us = "us @ [toIsoString B t, toSimpleString B d]"
  have "joinWith ?us '' '' = ((joinWith us '' '' @ '' '') @ toIsoString B t @ '' '') @ toSimpleString B d"
    using Cons.prems by (simp add: joinWith_append)
  then show ?case
    using Cons.IH [of ?us] by (simp add: m measurementTokens_def)
qed (simp add: measurementTokens_def)

lemma toString_joinWith: "NodeLatency_toString B N = joinWith (measurementTokens B (measurements N)) '' ''"
proof (cases "measurements N")
  case (Cons m ms)
  obtain t d where m: "m = (t, d)"
    by fastforce
  have "joinWith [toIsoString B t, toSimpleString B d] '' '' = (toIsoString B t @ '' '') @ toSimpleString B d"
    by simp
  then show ?thesis
    using toStringLoop_joinWith [of "[toIsoString B t, toSimpleString B d]" B ms]
    by (simp add: NodeLatency_toString_def Cons m measurementTokens_def)
qed (simp add: NodeLatency_toString_def measurementTokens_def)

lemma NodeLatency_loop_tokens:
  assumes "time_documented B"
  shows "NodeLatency_loop B (measurementTokens B ms) N = Inr (fold (\<lambda>(t, d). push_with_time t d) ms N)"
proof (induction ms arbitrary: N)
  case (Cons m ms)
  then show ?case
    using assms by (cases m) (simp add: measurementTokens_def time_documented_def)
qed (simp add: measurementTokens_def)

lemma fold_push_with_time:
  "fold (\<lambda>(t, d). push_with_time t d) ms N =
     \<lparr>measurements = fold (\<lambda>(t, d). mapPut t d) ms (measurements N),
      latencyStatistics = pushAll real_of_int longQuot (map snd ms) (latencyStatistics N)\<rparr>"
  by (induction ms arbitrary: N) (auto simp: push_with_time_def pushAll_def)

lemma fromString_toString:
  assumes "split_documented B" and "time_documented B" and "mapValid (measurements N)"
  shows "NodeLatency_fromString B (NodeLatency_toString B N) =
    Inr \<lparr>measurements = measurements N,
         latencyStatistics = pushAll real_of_int longQuot (map snd (measurements N)) (newStatistics 0)\<rparr>"
proof (cases "measurements N = []")
  case True
  then show ?thesis
    using assms(1)
    by (simp add: NodeLatency_fromString_def NodeLatency_toString_def split_documented_def
        newNodeLatency_def mapEmpty_def pushAll_def)
next
  case False
  have "splitOn '' '' (joinWith (measurementTokens B (measurements N)) '' '') = measurementTokens B (measurements N)"
    using assms(2) False
    by (intro splitOn_joinWith) (simp_all, auto simp: measurementTokens_def time_documented_def)
  then show ?thesis
    using assms(1) NodeLatency_loop_tokens [OF assms(2)] mapPut_entries [OF assms(3)]
    by (simp add: NodeLatency_fromString_def toString_joinWith split_documented_def
        fold_push_with_time newNodeLatency_def)
qed

section \<open>Properties\<close>

text \<open>
  A latency report is read back: for documented text forms of times, the string that a node
  writes gives a node with the same measurements, whose statistics are those of the measured
  durations.
\<close>

theorem latency_roundtrip:
  assumes "split_documented B" and "time_documented B" and "mapValid (measurements N)"
    and "length (measurements N) < 2 ^ 64"
  shows "\<exists>N'. NodeLatency_fromString B (NodeLatency_toString B N) = Inr N'
    \<and> measurements N' = measurements N
    \<and> summarises real_of_int longQuot 0 (map snd (measurements N)) (latencyStatistics N')"
  using fromString_toString [OF assms(1-3)] assms(4) summarises_pushAll [of "map snd (measurements N)" real_of_int longQuot 0]
  by simp

theorem latency_roundtrip_witness:
  "\<exists>N'. NodeLatency_fromString refBoost (NodeLatency_toString refBoost
       (NodeLatency_push 9 40 (NodeLatency_push 5 30 newNodeLatency))) = Inr N'
     \<and> measurements N' = [(5, 30), (9, 40)]"
proof -
  let ?N = "NodeLatency_push 9 40 (NodeLatency_push 5 30 newNodeLatency)"
  have m: "measurements ?N = [(5, 30), (9, 40)]"
    by (simp add: NodeLatency_push_def push_with_time_def newNodeLatency_def mapEmpty_def)
  then have "mapValid (measurements ?N)"
    by (simp add: mapValid_def)
  from latency_roundtrip [OF refBoost_split refBoost_time this] m show ?thesis
    by auto
qed

text \<open>
  Two measurements that end in the same microsecond collide: the map keeps the second only, while
  the statistics count both, so that a report of the node loses one that its own count includes.
\<close>

lemma latency_same_microsecond:
  "measurements (NodeLatency_push t d' (NodeLatency_push t d N)) = mapPut t d' (measurements N)
   \<and> NodeLatency_count (NodeLatency_push t d' (NodeLatency_push t d N)) = NodeLatency_count N + 2"
proof -
  have "mapPut t d' (mapPut t d m) = mapPut t d' m" for m :: "(int, int) stdmap"
    by (induction t d m rule: mapPut.induct) auto
  then show ?thesis
    by (simp add: NodeLatency_push_def push_with_time_def NodeLatency_count_def Statistics_count_def)
qed

lemma rate_fromString_toString: "NodeSuccessRate_fromString (NodeSuccessRate_toString R) = R"
proof -
  have bounds: "- (2 ^ (64 - 1)) \<le> sint w \<and> sint w < 2 ^ (64 - 1)" for w :: u64
    using sint_range_size [of w] by (simp add: word_size)
  have "extractInt 64 0 (istreamOf (showInt (sint (hits R)) @ CHR '' '' # showInt (sint (misses R))))
      = (sint (hits R), \<lparr>unread = CHR '' '' # showInt (sint (misses R)), failbit = False\<rparr>)"
    unfolding istreamOf_def using bounds by (intro extractInt_showInt) (auto simp: isDigit_def)
  moreover have "extractInt 64 0 \<lparr>unread = CHR '' '' # showInt (sint (misses R)), failbit = False\<rparr>
      = (sint (misses R), \<lparr>unread = [], failbit = False\<rparr>)"
    using extractInt_space_showInt [of 64 "sint (misses R)" "[]" 0] bounds by simp
  ultimately show ?thesis
    by (simp add: NodeSuccessRate_fromString_def NodeSuccessRate_toString_def)
qed

text \<open>
  A success rate report is read back exactly, for all values of the two 64-bit counters, and
  every hit or miss that was counted is in the count.
\<close>

lemma success_rate_roundtrip:
  "NodeSuccessRate_fromString (NodeSuccessRate_toString R) = R
   \<and> NodeSuccessRate_count (NodeSuccessRate_hit R) = NodeSuccessRate_count R + 1
   \<and> NodeSuccessRate_count (NodeSuccessRate_miss R) = NodeSuccessRate_count R + 1"
  by (simp add: rate_fromString_toString NodeSuccessRate_count_def NodeSuccessRate_hit_def NodeSuccessRate_miss_def)

text \<open>The success rate of a node that counted fewer than 2^63 operations lies between 0 and 1.\<close>

lemma success_rate_bounds:
  assumes "unat (hits R) + unat (misses R) < 2 ^ 63"
  shows "0 \<le> successRate R \<and> successRate R \<le> 1
    \<and> (unat (hits R) + unat (misses R) \<noteq> 0 \<longrightarrow>
         successRate R = real (unat (hits R)) / real (unat (hits R) + unat (misses R)))"
proof -
  have s: "sint w = int (unat w)" if "unat w < 2 ^ 63" for w :: u64
  proof -
    have "int (unat w) < int (2 ^ 63)"
      using that by (simp only: of_nat_less_iff)
    then have "uint w < 2 ^ 63"
      by simp
    moreover have "- (2 ^ 63) \<le> uint w"
      by (rule order_trans [OF _ uint_ge_0]) simp
    ultimately show ?thesis
      by (simp add: sint_uint signed_take_bit_int_eq_self_iff)
  qed
  have sum: "unat (misses R + hits R) = unat (hits R) + unat (misses R)"
    using assms by (simp add: unat_word_ariths)
  then have "sint (misses R + hits R) = int (unat (hits R) + unat (misses R))"
    using s [of "misses R + hits R"] assms by simp
  moreover have "sint (hits R) = int (unat (hits R))"
    using s assms by simp
  moreover have "misses R + hits R = 0 \<longleftrightarrow> unat (hits R) + unat (misses R) = 0"
    using sum by (metis unat_eq_zero)
  ultimately have "successRate R = (if unat (hits R) + unat (misses R) = 0 then 0
      else real (unat (hits R)) / real (unat (hits R) + unat (misses R)))"
    unfolding successRate_def by (simp only: of_int_of_nat_eq)
  then show ?thesis
    by (simp del: of_nat_unat)
qed

lemma success_rate_bounds_witness:
  "successRate \<lparr>hits = 1, misses = 3\<rparr> = 1 / 4"
  using success_rate_bounds [of "\<lparr>hits = 1, misses = 3\<rparr>"] by simp

end
