(* ===== verification/NodeState.thy ===== *)
theory NodeState
  imports Pipe Processes NodeMetrics
begin

text \<open>
  The state of a node of the DHT (\<open>src/src/controller/DhtNode.h\<close>) and the surroundings in which it runs.
  The subclass is the field \<open>backend\<close>; the members of \<open>KaddemoWrapper\<close> are the last three fields. The clock
  and the answers of the id servers of other nodes are the environment \<open>E\<close>; the readings of the clock
  are counted in the state, with the pipes.
\<close>

section \<open>Data\<close>

datatype backend =
    DummyDht
  | KaddemoWrapper
  | OpenchordWrapper
  | OwdhtshellWrapper string
  | PastConsoleWrapper

text \<open>\<open>peerReply\<close> is what a server at an address and port sends, \<open>None\<close> if it refuses the connection.\<close>

record environment =
  clock :: "nat \<Rightarrow> int"
  peerReply :: "ipAddress \<Rightarrow> int \<Rightarrow> string option"

record world = pipes +
  ticks :: nat

record DhtNode =
  backend :: backend
  nodeConnected :: bool
  entryPointHost :: string
  entryPointPort :: u16
  selfPort :: u16
  joinLatency :: NodeLatency
  leaveLatency :: NodeLatency
  putLatency :: NodeLatency
  getLatency :: NodeLatency
  joinSuccessRate :: NodeSuccessRate
  getSuccessRate :: NodeSuccessRate
  nodeId :: string
  threadStop :: bool
  idServerThread :: "(string \<times> int) option"  (* the id and port of its server *)

definition newDhtNode :: "backend \<Rightarrow> DhtNode" where
  "newDhtNode b =
     \<lparr>backend = b, nodeConnected = False, entryPointHost = '''', entryPointPort = 0, selfPort = 0,
      joinLatency = newNodeLatency, leaveLatency = newNodeLatency, putLatency = newNodeLatency,
      getLatency = newNodeLatency, joinSuccessRate = newNodeSuccessRate, getSuccessRate = newNodeSuccessRate,
      nodeId = '''', threadStop = False, idServerThread = None\<rparr>"

section \<open>Ports\<close>

definition DummyDht_portOffsetToPort :: "u16 \<Rightarrow> u16" where
  [simp]: "DummyDht_portOffsetToPort offset = offset"

definition Kaddemo_portOffsetToPort :: "u16 \<Rightarrow> u16" where
  [simp]: "Kaddemo_portOffsetToPort offset = offset * 2 + 5000"

definition Openchord_portOffsetToPort :: "u16 \<Rightarrow> u16" where
  [simp]: "Openchord_portOffsetToPort offset = offset + 5000"

definition Owdhtshell_portOffsetToPort :: "u16 \<Rightarrow> u16" where
  [simp]: "Owdhtshell_portOffsetToPort offset = offset + 5000"

definition PastConsole_portOffsetToPort :: "u16 \<Rightarrow> u16" where
  [simp]: "PastConsole_portOffsetToPort offset = offset + 5000"

fun portOffsetToPort :: "backend \<Rightarrow> u16 \<Rightarrow> u16" where
  "portOffsetToPort DummyDht offset = DummyDht_portOffsetToPort offset"
| "portOffsetToPort KaddemoWrapper offset = Kaddemo_portOffsetToPort offset"
| "portOffsetToPort OpenchordWrapper offset = Openchord_portOffsetToPort offset"
| "portOffsetToPort (OwdhtshellWrapper t) offset = Owdhtshell_portOffsetToPort offset"
| "portOffsetToPort PastConsoleWrapper offset = PastConsole_portOffsetToPort offset"

definition setEntryPoint :: "string \<Rightarrow> u16 \<Rightarrow> DhtNode \<Rightarrow> DhtNode" where
  "setEntryPoint host portOffset n =
     n\<lparr>entryPointHost := host, entryPointPort := portOffsetToPort (backend n) portOffset\<rparr>"

definition setSelfPortOffset :: "u16 \<Rightarrow> DhtNode \<Rightarrow> DhtNode" where
  "setSelfPortOffset portOffset n = n\<lparr>selfPort := portOffsetToPort (backend n) portOffset\<rparr>"

definition nodeStartsNewDht :: "DhtNode \<Rightarrow> bool" where
  "nodeStartsNewDht n \<longleftrightarrow> entryPointHost n = ''''"

definition showPort :: "u16 \<Rightarrow> string" where
  "showPort port = showInt (uint port)"

section \<open>The interface of the port assignment\<close>

locale port_assignment =
  fixes toPort :: "u16 \<Rightarrow> u16" and limit :: nat
  assumes toPort_inj: "unat a < limit \<Longrightarrow> unat b < limit \<Longrightarrow> toPort a = toPort b \<Longrightarrow> a = b"
begin

text \<open>Nodes of one host with different offsets listen on different ports.\<close>

lemma ports_distinct:
  assumes "distinct offsets" and "\<forall>a \<in> set offsets. unat a < limit"
  shows "distinct (map toPort offsets)"
  using assms by (simp add: distinct_map inj_on_def toPort_inj)

end

interpretation shifted_ports: port_assignment "\<lambda>offset. offset + 5000" 65536
  by unfold_locales simp

interpretation dummy_ports: port_assignment "portOffsetToPort DummyDht" 65536
  by unfold_locales simp

lemma unat_times_two:
  assumes "unat (a :: u16) < 32768"
  shows "unat (a * 2) = unat a * 2"
  using assms by (simp add: unat_word_ariths)

interpretation kaddemo_ports: port_assignment "portOffsetToPort KaddemoWrapper" 32768
proof
  fix a b :: u16
  assume a: "unat a < 32768" and b: "unat b < 32768"
    and "portOffsetToPort KaddemoWrapper a = portOffsetToPort KaddemoWrapper b"
  then have "a * 2 = b * 2"
    by simp
  then have "unat a * 2 = unat b * 2"
    using unat_times_two [OF a] unat_times_two [OF b] by metis
  then show "a = b"
    by (simp add: word_unat_eq_iff)
qed

lemma backend_ports_inj:
  assumes "unat a < 32768" and "unat b < 32768" and "portOffsetToPort k a = portOffsetToPort k b"
  shows "a = b"
proof (cases k)
  case KaddemoWrapper
  then show ?thesis
    using kaddemo_ports.toPort_inj assms by simp
qed (use assms shifted_ports.toPort_inj [of a b] in simp_all)

text \<open>The port after a kaddemo port, where its id server listens, is odd above an even base.\<close>

lemma kaddemo_id_port:
  fixes a b :: u16
  assumes "unat a < 32768" and "unat b < 32768"
  shows "portOffsetToPort KaddemoWrapper a + 1 \<noteq> portOffsetToPort KaddemoWrapper b"
proof
  assume "portOffsetToPort KaddemoWrapper a + 1 = portOffsetToPort KaddemoWrapper b"
  then have "a * 2 + 1 = b * 2"
    by (simp add: add.assoc) (simp add: add.commute)
  then have "unat (a * 2 + 1) = unat b * 2"
    using unat_times_two [OF assms(2)] by simp
  moreover have "unat (a * 2 + 1) = unat a * 2 + 1"
    using assms(1) unat_times_two [OF assms(1)] by (simp add: unat_word_ariths)
  ultimately have "even (unat a * 2 + 1)"
    by simp
  then show False
    by simp
qed

end
