(* ===== verification/KaddemoId.thy ===== *)
theory KaddemoId
  imports NodeState
begin

text \<open>
  \<open>src/src/controller/dhtnodes/KaddemoIdWrapper.cpp\<close>: the server with which the first kaddemo node tells
  its id to the others, and the client. The server is an event loop on asynchronous operations; the
  objects that the code allocates and the local string whose bytes an operation refers to are kept
  in explicit stores, because what is alive when an operation completes is what matters here.
\<close>

section \<open>The server\<close>

record KaddemoIdServer =
  serverId :: string
  serverPort :: int
  localStrings :: "nat \<Rightarrow> string option"  (* live strings by address *)
  nextAddress :: nat
  connections :: "nat list"  (* live KaddemoIdClientConnection objects *)
  nextConnection :: nat
  accepting :: "nat option"
  writes :: "(nat \<times> nat) list"  (* connection and address of the buffer *)

definition newKaddemoIdServer :: "string \<Rightarrow> int \<Rightarrow> KaddemoIdServer" where
  "newKaddemoIdServer i port =
     \<lparr>serverId = i, serverPort = port, localStrings = (\<lambda>a. None), nextAddress = 0, connections = [],
      nextConnection = 0, accepting = None, writes = []\<rparr>"

definition newConnection :: "KaddemoIdServer \<Rightarrow> nat \<times> KaddemoIdServer" where
  "newConnection S =
     (nextConnection S, S\<lparr>connections := connections S @ [nextConnection S], nextConnection := nextConnection S + 1\<rparr>)"

definition sendId :: "nat \<Rightarrow> nat \<Rightarrow> KaddemoIdServer \<Rightarrow> KaddemoIdServer" where
  "sendId client address S = S\<lparr>writes := writes S @ [(client, address)]\<rparr>"

definition handleIdWrite :: "nat \<Rightarrow> bool \<Rightarrow> KaddemoIdServer \<Rightarrow> KaddemoIdServer result" where
  "handleIdWrite client error S =
     (if error then Inl ExitFailure else Inr (S\<lparr>connections := remove1 client (connections S)\<rparr>))"

definition idAsyncAccept :: "KaddemoIdServer \<Rightarrow> KaddemoIdServer" where
  "idAsyncAccept S = (let (client, S) = newConnection S in S\<lparr>accepting := Some client\<rparr>)"

text \<open>What is sent, and the handler of an accept; its local string dies when it returns.\<close>

definition idServerReply :: "string \<Rightarrow> string" where
  "idServerReply i = i @ [newline]"

definition handleIdAccept :: "nat \<Rightarrow> bool \<Rightarrow> KaddemoIdServer \<Rightarrow> KaddemoIdServer result" where
  "handleIdAccept client error S =
     (if error then Inl ExitFailure
      else let address = nextAddress S;
               S = S\<lparr>localStrings := (localStrings S)(address := Some (idServerReply (serverId S))), nextAddress := address + 1\<rparr>;
               S = sendId client address S;
               S = idAsyncAccept S
           in Inr (S\<lparr>localStrings := (localStrings S)(address := None)\<rparr>))"

text \<open>\<open>poll_one\<close> runs one handler that is ready, if there is one.\<close>

datatype readyHandler =
    NothingReady
  | AcceptReady bool
  | WriteReady nat bool

fun poll_one :: "readyHandler \<Rightarrow> KaddemoIdServer \<Rightarrow> KaddemoIdServer result" where
  "poll_one NothingReady S = Inr S"
| "poll_one (AcceptReady error) S =
     (case accepting S of
        None \<Rightarrow> Inr S
      | Some client \<Rightarrow> handleIdAccept client error (S\<lparr>accepting := None\<rparr>))"
| "poll_one (WriteReady client error) S =
     (if client \<in> fst ` set (writes S)
      then handleIdWrite client error (S\<lparr>writes := filter (\<lambda>w. fst w \<noteq> client) (writes S)\<rparr>)
      else Inr S)"

text \<open>\<open>run\<close>, for the handlers that are ready in the rounds before the stop flag is seen.\<close>

definition runIdServer :: "readyHandler list \<Rightarrow> KaddemoIdServer \<Rightarrow> KaddemoIdServer result" where
  "runIdServer polls S = foldResult (\<lambda>S ready. poll_one ready S) (idAsyncAccept S) polls"

section \<open>The client\<close>

text \<open>The endpoint that the socket is connected to, and the last error.\<close>

fun idConnectLoop :: "(ipAddress \<Rightarrow> bool) \<Rightarrow> ipAddress list \<Rightarrow> bool \<Rightarrow> ipAddress option \<times> bool" where
  "idConnectLoop accepts [] error = (None, error)"
| "idConnectLoop accepts (endpoint # endpoints) error =
     (if accepts endpoint then (Some endpoint, False) else idConnectLoop accepts endpoints True)"

definition KaddemoIdClient_connect ::
    "'b boost_scheme \<Rightarrow> environment \<Rightarrow> string \<Rightarrow> int \<Rightarrow> ipAddress option result" where
  "KaddemoIdClient_connect B E host port =
     (case resolveHost B host of
        None \<Rightarrow> Inl SystemError
      | Some endpoints \<Rightarrow>
          let (socket, error) = idConnectLoop (\<lambda>ip. peerReply E ip port \<noteq> None) endpoints False
          in if error then Inl ExitFailure else Inr socket)"

text \<open>A read from a socket that is not connected fails, and so does one that ends before the newline.\<close>

definition KaddemoIdClient_getId :: "'b boost_scheme \<Rightarrow> environment \<Rightarrow> string \<Rightarrow> int \<Rightarrow> string result" where
  "KaddemoIdClient_getId B E host port =
     andThen (KaddemoIdClient_connect B E host port) (\<lambda>socket.
     case socket of
       None \<Rightarrow> Inl ExitFailure
     | Some ip \<Rightarrow>
         let buffer = (case peerReply E ip port of None \<Rightarrow> [] | Some reply \<Rightarrow> reply)
         in andThen (require (newline \<in> set buffer) ExitFailure) (\<lambda>_.
            Inr (takeWhile (\<lambda>c. c \<noteq> newline) buffer)))"

section \<open>The objects of the server\<close>

text \<open>
  Between two handlers: one connection waits for its accept, every other one that is alive waits for
  the end of its write, and no local string is alive.
\<close>

definition idServerOk :: "KaddemoIdServer \<Rightarrow> bool" where
  "idServerOk S \<longleftrightarrow> (\<exists>c. accepting S = Some c \<and> mset (connections S) = add_mset c (mset (map fst (writes S)))
     \<and> distinct (connections S) \<and> (\<forall>d \<in> set (connections S). d < nextConnection S))
     \<and> localStrings S = (\<lambda>a. None)"

inductive idServerStep :: "KaddemoIdServer \<Rightarrow> KaddemoIdServer \<Rightarrow> bool" where
  poll: "poll_one ready S = Inr S' \<Longrightarrow> idServerStep S S'"

inductive_cases idServerStepE: "idServerStep S S'"

lemma idAsyncAccept_starts: "idServerOk (idAsyncAccept (newKaddemoIdServer i port))"
  by (simp add: idServerOk_def idAsyncAccept_def newConnection_def newKaddemoIdServer_def)

lemma accept_ok:
  assumes "idServerOk S" and "accepting S = Some c" and "handleIdAccept c e (S\<lparr>accepting := None\<rparr>) = Inr S'"
  shows "idServerOk S'"
proof -
  have S': "S' = S\<lparr>localStrings := (\<lambda>a. None), nextAddress := nextAddress S + 1,
      connections := connections S @ [nextConnection S], nextConnection := nextConnection S + 1,
      accepting := Some (nextConnection S), writes := writes S @ [(c, nextAddress S)]\<rparr>"
    using assms(1,3)
    by (auto simp: handleIdAccept_def sendId_def idAsyncAccept_def newConnection_def idServerOk_def Let_def split: if_splits)
  have "nextConnection S \<notin> set (connections S)"
    using assms(1) by (auto simp: idServerOk_def)
  then show ?thesis
    using assms(1,2) by (auto simp: S' idServerOk_def)
qed

lemma write_ok:
  assumes "idServerOk S" and "c \<in> fst ` set (writes S)"
    and "handleIdWrite c e (S\<lparr>writes := filter (\<lambda>w. fst w \<noteq> c) (writes S)\<rparr>) = Inr S'"
  shows "idServerOk S'"
proof -
  have S': "S' = S\<lparr>writes := filter (\<lambda>w. fst w \<noteq> c) (writes S), connections := remove1 c (connections S)\<rparr>"
    using assms(3) by (auto simp: handleIdWrite_def split: if_splits)
  obtain d where d: "accepting S = Some d" "mset (connections S) = add_mset d (mset (map fst (writes S)))"
    and dist: "distinct (connections S)" and rest: "\<forall>d \<in> set (connections S). d < nextConnection S" "localStrings S = (\<lambda>a. None)"
    using assms(1) by (auto simp: idServerOk_def)
  have "distinct (d # map fst (writes S))"
    using dist d(2) by (metis mset.simps(2) mset_eq_imp_distinct_iff)
  then have ne: "d \<noteq> c" and one: "distinct (map fst (writes S))"
    using assms(2) by (auto simp: image_iff)
  have "map fst (filter (\<lambda>w. fst w \<noteq> c) ws) = remove1 c (map fst ws)" if "distinct (map fst ws)" for ws :: "(nat \<times> nat) list"
    using that by (induction ws) (auto simp: filter_id_conv remove1_idem image_iff)
  with one d(2) ne have "mset (remove1 c (connections S)) = add_mset d (mset (map fst (filter (\<lambda>w. fst w \<noteq> c) (writes S))))"
    by simp
  then show ?thesis
    using d(1) dist rest by (auto simp: S' idServerOk_def dest: notin_set_remove1)
qed

interpretation id_server: event_driven idServerStep idServerOk
proof
  fix S S'
  assume step: "idServerStep S S'" and ok: "idServerOk S"
  from step obtain ready where "poll_one ready S = Inr S'"
    by (rule idServerStepE)
  then show "idServerOk S'"
    using ok by (cases ready) (auto intro: accept_ok write_ok split: option.splits if_splits)
qed

lemma runIdServer_reaches:
  "foldResult (\<lambda>S ready. poll_one ready S) S polls = Inr S' \<Longrightarrow> idServerStep\<^sup>*\<^sup>* S S'"
proof (induction polls arbitrary: S)
  case (Cons ready polls)
  then obtain S1 where "poll_one ready S = Inr S1" and "idServerStep\<^sup>*\<^sup>* S1 S'"
    by (auto simp: andThen_Inr_iff)
  then show ?case
    by (meson converse_rtranclp_into_rtranclp idServerStep.poll)
qed simp

lemma runIdServer_ok: "runIdServer polls (newKaddemoIdServer i port) = Inr S \<Longrightarrow> idServerOk S"
  unfolding runIdServer_def
  by (rule id_server.inv_reachable [OF runIdServer_reaches idAsyncAccept_starts])

section \<open>Lemmas on the client\<close>

lemma idConnectLoop_find:
  "idConnectLoop accepts es error = (find accepts es, find accepts es = None \<and> (es \<noteq> [] \<or> error))"
  by (induction es arbitrary: error) auto

text \<open>A client gets the line of the first address that accepts; everything else ends it.\<close>

lemma getId_first:
  "KaddemoIdClient_getId B E host port =
     (case resolveHost B host of
        None \<Rightarrow> Inl SystemError
      | Some es \<Rightarrow>
          (case find (\<lambda>ip. peerReply E ip port \<noteq> None) es of
             None \<Rightarrow> Inl ExitFailure
           | Some ip \<Rightarrow>
               if newline \<in> set (the (peerReply E ip port))
               then Inr (takeWhile (\<lambda>c. c \<noteq> newline) (the (peerReply E ip port))) else Inl ExitFailure))"
proof (cases "resolveHost B host")
  case (Some es)
  show ?thesis
  proof (cases "find (\<lambda>ip. peerReply E ip port \<noteq> None) es")
    case None
    then show ?thesis
      unfolding KaddemoIdClient_getId_def KaddemoIdClient_connect_def Some option.case idConnectLoop_find Let_def prod.case
      by simp
  next
    case (Some ip)
    then obtain reply where "peerReply E ip port = Some reply"
      by (auto simp: find_Some_iff)
    with Some \<open>resolveHost B host = Some es\<close> show ?thesis
      unfolding KaddemoIdClient_getId_def KaddemoIdClient_connect_def idConnectLoop_find Let_def prod.case
      by simp
  qed
qed (simp add: KaddemoIdClient_getId_def KaddemoIdClient_connect_def)

lemma idServerReply_read: "newline \<notin> set i \<Longrightarrow> newline \<in> set (idServerReply i) \<and> takeWhile (\<lambda>c. c \<noteq> newline) (idServerReply i) = i"
  by (simp add: idServerReply_def)

section \<open>Properties\<close>



text \<open>
  The id of a kaddemo node gets through its id server: a client that reads what the server asks to
  send to every client has the id, for every id without a newline; a server that closes the connection
  before the newline ends the client's program.
\<close>

lemma kaddemo_id_roundtrip:
  assumes "newline \<notin> set i" and "resolveHost B host = Some (ip # ips)" and "peerReply E ip port = Some reply"
  shows "(reply = idServerReply i \<longrightarrow> KaddemoIdClient_getId B E host port = Inr i)
    \<and> (reply = i \<longrightarrow> KaddemoIdClient_getId B E host port = Inl ExitFailure)"
  using assms idServerReply_read [OF assms(1)] by (auto simp: getId_first)

end
