(* ===== verification/Wrappers.thy ===== *)
theory Wrappers
  imports KaddemoId
begin

text \<open>
  The classes of \<open>src/src/controller/dhtnodes\<close> that implement the virtual functions of \<open>DhtNode\<close>, one
  group of definitions for each: \<open>DummyDht\<close>, and the wrappers of the programs kaddemo, openchord,
  owdhtshell and past-console. Their text output for the log is left out.
\<close>

section \<open>Members of Wrapper\<close>

fun binaryName :: "backend \<Rightarrow> string" where
  "binaryName DummyDht = ''''"
| "binaryName KaddemoWrapper = ''kaddemo_static''"
| "binaryName OpenchordWrapper = ''openchord-console''"
| "binaryName (OwdhtshellWrapper t) = ''owdhtshell''"
| "binaryName PastConsoleWrapper = ''past-console''"

fun promptString :: "backend \<Rightarrow> string" where
  "promptString DummyDht = ''''"
| "promptString KaddemoWrapper = ''demo >''"
| "promptString OpenchordWrapper = ''oc >''"
| "promptString (OwdhtshellWrapper t) = ''Ready.''"
| "promptString PastConsoleWrapper = ''pc$''"

text \<open>The constructors of the wrappers run before the port is set: the directory has port 0.\<close>

definition newWrapperNode :: "backend \<Rightarrow> fileSystem \<Rightarrow> (DhtNode \<times> fileSystem) result" where
  "newWrapperNode b fs =
     (let node = newDhtNode b
      in andThen (newWrapper (binaryName b) (selfPort node) fs) (\<lambda>fs'. Inr (node, fs')))"

text \<open>\<open>try { ... } catch (RWPopenEOF& e) { }\<close> with what runs after it.\<close>

definition catchEOF :: "'a result \<Rightarrow> 'a \<Rightarrow> 'a result" where
  "catchEOF m handler = (if m = Inl RWPopenEOF then Inr handler else m)"

text \<open>Start the command and wait for the prompt; at the end of the output, stop and give up.\<close>

definition startOrFail :: "string list \<Rightarrow> DhtNode \<Rightarrow> world \<Rightarrow> (bool \<times> DhtNode \<times> world) result" where
  "startOrFail command n w =
     catchEOF (andThen (startWrapped (promptString (backend n)) command w) (\<lambda>w. Inr (True, n, w)))
       (False, n, stopWrapped (startChild command w))"

section \<open>DummyDht\<close>

definition newDummyDht :: "fileSystem \<Rightarrow> (DhtNode \<times> fileSystem) result" where
  "newDummyDht fs = Inr (newDhtNode DummyDht, fs)"

definition DummyDht_doJoin :: "DhtNode \<Rightarrow> world \<Rightarrow> (bool \<times> DhtNode \<times> world) result" where
  "DummyDht_doJoin n w = Inr (True, n, w)"

definition DummyDht_doLeave :: "DhtNode \<Rightarrow> world \<Rightarrow> (DhtNode \<times> world) result" where
  "DummyDht_doLeave n w = Inr (n, w)"

definition DummyDht_doPut :: "string \<Rightarrow> string \<Rightarrow> DhtNode \<Rightarrow> world \<Rightarrow> world result" where
  "DummyDht_doPut k v n w = Inr w"

definition DummyDht_doGet :: "string \<Rightarrow> DhtNode \<Rightarrow> world \<Rightarrow> (bool \<times> world) result" where
  "DummyDht_doGet k n w = Inr (False, w)"

section \<open>KaddemoWrapper\<close>

definition newKaddemo :: "fileSystem \<Rightarrow> (DhtNode \<times> fileSystem) result" where
  "newKaddemo fs = andThen (newWrapperNode KaddemoWrapper fs) (\<lambda>(n, fs). Inr (n\<lparr>threadStop := False\<rparr>, fs))"

definition getEntryPointId :: "'b boost_scheme \<Rightarrow> environment \<Rightarrow> DhtNode \<Rightarrow> string result" where
  "getEntryPointId B E n = KaddemoIdClient_getId B E (entryPointHost n) (uint (entryPointPort n) + 1)"

definition Kaddemo_command :: "'b boost_scheme \<Rightarrow> environment \<Rightarrow> DhtNode \<Rightarrow> string result" where
  "Kaddemo_command B E n =
     (let start = binaryName KaddemoWrapper @ '' '' @ ''-p '' @ showPort (selfPort n) @ '' ''
      in if nodeStartsNewDht n then
           andThen (getSelfIp B) (\<lambda>ip.
           Inr (start @ ''--externalport '' @ showPort (selfPort n) @ '' '' @ ''--externalip '' @ ip @ '' ''))
         else
           andThen (getHostIp B (entryPointHost n)) (\<lambda>ip.
           andThen (getEntryPointId B E n) (\<lambda>i.
           Inr (start @ ''--bs_ip '' @ ip @ '' '' @ ''--bs_local_ip '' @ ip @ '' ''
                @ ''--bs_port '' @ showPort (entryPointPort n) @ '' ''
                @ ''--bs_local_port '' @ showPort (entryPointPort n) @ '' ''
                @ ''--bs_id '' @ i @ '' ''))))"

definition Kaddemo_getSelfId :: "DhtNode \<Rightarrow> world \<Rightarrow> (DhtNode \<times> world) result" where
  "Kaddemo_getSelfId n w =
     (let w = sendLine (''getinfo'' @ [newline]) w
      in andThen (readUntil (\<lambda>line. comparePrefix line 11 '', Node_id: '') (incoming w)) (\<lambda>(line, cs).
         andThen (waitPrompt (promptString KaddemoWrapper) (w\<lparr>incoming := cs\<rparr>)) (\<lambda>w.
         Inr (n\<lparr>nodeId := c_str (drop 11 line)\<rparr>, w))))"

text \<open>
  The thread runs a server until it sees the flag \<open>threadStop\<close>, which it reads before each round. It
  serves clients as long as it is there and the flag is not set.
\<close>

definition wrapperIdServerRun :: "DhtNode \<Rightarrow> string \<times> int" where
  "wrapperIdServerRun n = (nodeId n, uint (selfPort n) + 1)"

definition startIdWrapperServer :: "DhtNode \<Rightarrow> DhtNode" where
  "startIdWrapperServer n = n\<lparr>idServerThread := Some (wrapperIdServerRun n)\<rparr>"

definition servedId :: "DhtNode \<Rightarrow> (string \<times> int) option" where
  "servedId n = (if threadStop n then None else idServerThread n)"

definition Kaddemo_doJoin :: "'b boost_scheme \<Rightarrow> environment \<Rightarrow> DhtNode \<Rightarrow> world \<Rightarrow> (bool \<times> DhtNode \<times> world) result" where
  "Kaddemo_doJoin B E n w =
     andThen (Kaddemo_command B E n) (\<lambda>command.
     andThen (startWrapped (promptString KaddemoWrapper) (shellCommand command) w) (\<lambda>w.
     andThen (Kaddemo_getSelfId n w) (\<lambda>(n, w).
     let n = (if nodeStartsNewDht n then startIdWrapperServer n else n)
     in Inr (True, n, w))))"

definition Kaddemo_doLeave :: "DhtNode \<Rightarrow> world \<Rightarrow> (DhtNode \<times> world) result" where
  "Kaddemo_doLeave n w =
     (let w = sendLine (''exit'' @ [newline]) w;
          n = (if nodeStartsNewDht n then n\<lparr>threadStop := True, idServerThread := None\<rparr> else n)
      in Inr (n, stopWrapped w))"

definition Kaddemo_doPut :: "string \<Rightarrow> string \<Rightarrow> DhtNode \<Rightarrow> world \<Rightarrow> world result" where
  "Kaddemo_doPut k v n w =
     (let ttl = 600
      in waitPrompt (promptString KaddemoWrapper)
           (sendLine (''storevalue '' @ k @ '' '' @ v @ '' '' @ showInt ttl @ [newline]) w))"

definition Kaddemo_doGet :: "string \<Rightarrow> DhtNode \<Rightarrow> world \<Rightarrow> (bool \<times> world) result" where
  "Kaddemo_doGet k n w =
     (let w = sendLine (''findvalue '' @ k @ [newline]) w
      in andThen (getLoopNext ''Values found for key'' (\<lambda>line. comparePrefix line 4 ''1.  '')
                    (promptString KaddemoWrapper) False (incoming w)) (\<lambda>(ret, cs).
         Inr (ret, w\<lparr>incoming := cs\<rparr>)))"

section \<open>OpenchordWrapper\<close>

definition newOpenchord :: "fileSystem \<Rightarrow> (DhtNode \<times> fileSystem) result" where
  "newOpenchord fs = newWrapperNode OpenchordWrapper fs"

definition Openchord_joinCommand :: "DhtNode \<Rightarrow> string" where
  "Openchord_joinCommand n =
     (if nodeStartsNewDht n then ''joinN -port '' @ showPort (selfPort n) @ [newline]
      else ''joinN -port '' @ showPort (selfPort n) @ '' -bootstrap ''
           @ entryPointHost n @ '':'' @ showPort (entryPointPort n) @ [newline])"

definition Openchord_doJoin :: "DhtNode \<Rightarrow> world \<Rightarrow> (bool \<times> DhtNode \<times> world) result" where
  "Openchord_doJoin n w =
     (let command = [binaryName OpenchordWrapper];
          started = startWrapped (promptString OpenchordWrapper) command w
      in if started = Inl RWPopenEOF then Inr (False, n, stopWrapped (startChild command w))
         else andThen started (\<lambda>w.
           let w = sendLine (Openchord_joinCommand n) w
           in catchEOF
             (andThen (readUntil (\<lambda>line. line = promptString OpenchordWrapper
                  \<or> comparePrefix line 32 ''Join/Creation of network failed.'') (incoming w)) (\<lambda>(line, cs).
              let w = w\<lparr>incoming := cs\<rparr>
              in if line = promptString OpenchordWrapper then Inr (True, n, w)
                 else Inr (False, n, stopWrapped (sendLine (''y'' @ [newline]) (sendLine (''exit'' @ [newline]) w)))))
             (False, n, stopWrapped w)))"

definition Openchord_doLeave :: "DhtNode \<Rightarrow> world \<Rightarrow> (DhtNode \<times> world) result" where
  "Openchord_doLeave n w =
     Inr (n, stopWrapped (sendLine (''y'' @ [newline]) (sendLine (''exit'' @ [newline]) w)))"

definition Openchord_doPut :: "string \<Rightarrow> string \<Rightarrow> DhtNode \<Rightarrow> world \<Rightarrow> world result" where
  "Openchord_doPut k v n w =
     waitPrompt (promptString OpenchordWrapper) (sendLine (''insertN -key '' @ k @ '' -value '' @ v @ [newline]) w)"

definition Openchord_doGet :: "string \<Rightarrow> DhtNode \<Rightarrow> world \<Rightarrow> (bool \<times> world) result" where
  "Openchord_doGet k n w =
     (let w = sendLine (''retrieveN -key '' @ k @ [newline]) w
      in andThen (getLoopNext ''Values associated with key'' (\<lambda>line. line \<noteq> [])
                    (promptString OpenchordWrapper) False (incoming w)) (\<lambda>(ret, cs).
         Inr (ret, w\<lparr>incoming := cs\<rparr>)))"

section \<open>OwdhtshellWrapper\<close>

definition newOwdhtshell :: "string \<Rightarrow> fileSystem \<Rightarrow> (DhtNode \<times> fileSystem) result" where
  "newOwdhtshell dhtType fs =
     andThen (newWrapperNode (OwdhtshellWrapper dhtType) fs) (\<lambda>r.
     andThen (require (dhtType \<in> {''Chord'', ''Kademlia'', ''Koorde'', ''LinearWalker'', ''Pastry'', ''Tapestry''}) ExitFailure)
     (\<lambda>_. Inr r))"

definition Owdhtshell_command :: "string \<Rightarrow> DhtNode \<Rightarrow> string list" where
  "Owdhtshell_command dhtType n =
     [binaryName (OwdhtshellWrapper dhtType), ''--no-upnp'', ''-d'', ''.'', ''-s'', showPort (selfPort n), ''-a'', dhtType]
     @ (if nodeStartsNewDht n then [] else [entryPointHost n @ '':'' @ showPort (entryPointPort n)])"

definition Owdhtshell_doJoin :: "string \<Rightarrow> DhtNode \<Rightarrow> world \<Rightarrow> (bool \<times> DhtNode \<times> world) result" where
  "Owdhtshell_doJoin dhtType n w = startOrFail (Owdhtshell_command dhtType n) n w"

definition Owdhtshell_doLeave :: "DhtNode \<Rightarrow> world \<Rightarrow> (DhtNode \<times> world) result" where
  "Owdhtshell_doLeave n w =
     Inr (n, stopWrapped (sendLine (''quit'' @ [newline]) (sendLine (''stop'' @ [newline]) w)))"

definition Owdhtshell_doPut :: "string \<Rightarrow> string \<Rightarrow> DhtNode \<Rightarrow> world \<Rightarrow> world result" where
  "Owdhtshell_doPut k v n w =
     waitPrompt (promptString (backend n)) (sendLine (''put '' @ k @ '' '' @ v @ [newline]) w)"

definition Owdhtshell_doGet :: "string \<Rightarrow> DhtNode \<Rightarrow> world \<Rightarrow> (bool \<times> world) result" where
  "Owdhtshell_doGet k n w =
     (let w = sendLine (''get '' @ k @ [newline]) w
      in andThen (getLoopInline ''value: '' (promptString (backend n)) False (incoming w)) (\<lambda>(ret, cs).
         Inr (ret, w\<lparr>incoming := cs\<rparr>)))"

section \<open>PastConsoleWrapper\<close>

definition newPastConsole :: "fileSystem \<Rightarrow> (DhtNode \<times> fileSystem) result" where
  "newPastConsole fs = newWrapperNode PastConsoleWrapper fs"

definition PastConsole_command :: "DhtNode \<Rightarrow> string list" where
  "PastConsole_command n =
     [binaryName PastConsoleWrapper, showPort (selfPort n)]
     @ (if nodeStartsNewDht n then [''bootstrap'']
        else [entryPointHost n, showPort (entryPointPort n)])"

definition PastConsole_doJoin :: "DhtNode \<Rightarrow> world \<Rightarrow> (bool \<times> DhtNode \<times> world) result" where
  "PastConsole_doJoin n w = startOrFail (PastConsole_command n) n w"

definition PastConsole_doLeave :: "DhtNode \<Rightarrow> world \<Rightarrow> (DhtNode \<times> world) result" where
  "PastConsole_doLeave n w =
     (let w = sendLine (''exit'' @ [newline]) w
      in andThen (readUntil (\<lambda>line. line = ''Bye!'') (incoming w)) (\<lambda>(line, cs).
         Inr (n, stopWrapped (w\<lparr>incoming := cs\<rparr>))))"

definition PastConsole_doPut :: "string \<Rightarrow> string \<Rightarrow> DhtNode \<Rightarrow> world \<Rightarrow> world result" where
  "PastConsole_doPut k v n w =
     waitPrompt (promptString PastConsoleWrapper) (sendLine (''put '' @ k @ '' '' @ v @ [newline]) w)"

definition PastConsole_doGet :: "string \<Rightarrow> DhtNode \<Rightarrow> world \<Rightarrow> (bool \<times> world) result" where
  "PastConsole_doGet k n w =
     (let w = sendLine (''get '' @ k @ [newline]) w
      in andThen (getLoopInline ''Value: '' (promptString PastConsoleWrapper) False (incoming w)) (\<lambda>(ret, cs).
         Inr (ret, w\<lparr>incoming := cs\<rparr>)))"

lemmas new_defs = newDummyDht_def newKaddemo_def newOpenchord_def newOwdhtshell_def newPastConsole_def

lemmas doJoin_defs =
  DummyDht_doJoin_def Kaddemo_doJoin_def Openchord_doJoin_def Owdhtshell_doJoin_def PastConsole_doJoin_def

lemmas doLeave_defs =
  DummyDht_doLeave_def Kaddemo_doLeave_def Openchord_doLeave_def Owdhtshell_doLeave_def PastConsole_doLeave_def

lemmas doPut_defs =
  DummyDht_doPut_def Kaddemo_doPut_def Openchord_doPut_def Owdhtshell_doPut_def PastConsole_doPut_def

lemmas doGet_defs =
  DummyDht_doGet_def Kaddemo_doGet_def Openchord_doGet_def Owdhtshell_doGet_def PastConsole_doGet_def

section \<open>What the operations change in the node\<close>

text \<open>The fields that a join or leave can change are the members of \<open>KaddemoWrapper\<close>.\<close>

definition sameButKaddemo :: "DhtNode \<Rightarrow> DhtNode \<Rightarrow> bool" where
  "sameButKaddemo n n' \<longleftrightarrow>
     n' = n\<lparr>nodeId := nodeId n', threadStop := threadStop n', idServerThread := idServerThread n'\<rparr>"

lemma sameButKaddemo_refl [simp]: "sameButKaddemo n n"
  by (simp add: sameButKaddemo_def)

lemma sameButKaddemo_fields:
  assumes "sameButKaddemo n n'"
  shows "backend n' = backend n" "nodeConnected n' = nodeConnected n" "entryPointHost n' = entryPointHost n"
    "entryPointPort n' = entryPointPort n" "selfPort n' = selfPort n"
    "joinLatency n' = joinLatency n" "leaveLatency n' = leaveLatency n" "putLatency n' = putLatency n"
    "getLatency n' = getLatency n" "joinSuccessRate n' = joinSuccessRate n" "getSuccessRate n' = getSuccessRate n"
proof -
  obtain i t s where "n' = n\<lparr>nodeId := i, threadStop := t, idServerThread := s\<rparr>"
    using assms unfolding sameButKaddemo_def by blast
  then show "backend n' = backend n" "nodeConnected n' = nodeConnected n" "entryPointHost n' = entryPointHost n"
    "entryPointPort n' = entryPointPort n" "selfPort n' = selfPort n"
    "joinLatency n' = joinLatency n" "leaveLatency n' = leaveLatency n" "putLatency n' = putLatency n"
    "getLatency n' = getLatency n" "joinSuccessRate n' = joinSuccessRate n" "getSuccessRate n' = getSuccessRate n"
    by simp_all
qed

lemma catchEOF_Inr: "catchEOF m h = Inr r \<Longrightarrow> m = Inr r \<or> r = h"
  by (auto simp: catchEOF_def split: if_splits)

lemma startOrFail_node: "startOrFail command n w = Inr (b, n', w') \<Longrightarrow> n' = n"
  unfolding startOrFail_def by (drule catchEOF_Inr) (auto simp: andThen_Inr_iff)

lemma Openchord_node:
  assumes "Openchord_doJoin n w = Inr (b, n', w')"
  shows "n' = n"
proof (cases "startWrapped (promptString OpenchordWrapper) [binaryName OpenchordWrapper] w")
  case (Inl e)
  then show ?thesis
    using assms by (auto simp: Openchord_doJoin_def Let_def split: if_splits)
next
  case (Inr w1)
  from assms show ?thesis
    unfolding Openchord_doJoin_def Let_def Inr
    by (auto simp: andThen_Inr_iff dest!: catchEOF_Inr split: if_splits)
qed

lemma getSelfId_node: "Kaddemo_getSelfId n w = Inr (n', w') \<Longrightarrow> \<exists>i. n' = n\<lparr>nodeId := i\<rparr>"
  by (auto simp: Kaddemo_getSelfId_def andThen_Inr_iff Let_def)

lemma Kaddemo_node:
  assumes "Kaddemo_doJoin B E n w = Inr (b, n', w')"
  shows "b \<and> threadStop n' = threadStop n \<and> sameButKaddemo n n'
    \<and> idServerThread n' = (if nodeStartsNewDht n then Some (nodeId n', uint (selfPort n) + 1) else idServerThread n)"
proof -
  obtain n1 w1 where id: "Kaddemo_getSelfId n w1 = Inr (n1, w')" and b
    and n': "n' = (if nodeStartsNewDht n1 then startIdWrapperServer n1 else n1)"
    using assms by (auto simp: Kaddemo_doJoin_def andThen_Inr_iff Let_def)
  obtain i where "n1 = n\<lparr>nodeId := i\<rparr>"
    using getSelfId_node [OF id] by blast
  then show ?thesis
    using \<open>b\<close> by (simp add: n' nodeStartsNewDht_def startIdWrapperServer_def wrapperIdServerRun_def sameButKaddemo_def)
qed

lemma Kaddemo_leaves:
  assumes "Kaddemo_doLeave n w = Inr (n', w')"
  shows "n' = (if nodeStartsNewDht n then n\<lparr>threadStop := True, idServerThread := None\<rparr> else n)"
  using assms by (auto simp: Kaddemo_doLeave_def Let_def)

end
