(* ===== verification/DhtNode.thy ===== *)
theory DhtNode
  imports Wrappers
begin

text \<open>
  \<open>src/src/controller/DhtNode.cpp\<close>: the factory, the virtual functions, and the processing of the four
  kinds of events with its measurements.
\<close>

section \<open>The factory\<close>

definition makeNode :: "string \<Rightarrow> fileSystem \<Rightarrow> (DhtNode \<times> fileSystem) result" where
  "makeNode type fs =
     (if type = ''dummy'' then newDummyDht fs
      else if type = ''kaddemo'' then newKaddemo fs
      else if type = ''openchord'' then newOpenchord fs
      else if type = ''owshellchord'' then newOwdhtshell ''Chord'' fs
      else if type = ''owshellkad'' then newOwdhtshell ''Kademlia'' fs
      else if type = ''owshellpastry'' then newOwdhtshell ''Pastry'' fs
      else if type = ''pastconsole'' then newPastConsole fs
      else Inl ExitFailure)"

section \<open>The virtual functions\<close>

definition doJoin :: "'b boost_scheme \<Rightarrow> environment \<Rightarrow> DhtNode \<Rightarrow> world \<Rightarrow> (bool \<times> DhtNode \<times> world) result" where
  "doJoin B E n w =
     (case backend n of
        DummyDht \<Rightarrow> DummyDht_doJoin n w
      | KaddemoWrapper \<Rightarrow> Kaddemo_doJoin B E n w
      | OpenchordWrapper \<Rightarrow> Openchord_doJoin n w
      | OwdhtshellWrapper t \<Rightarrow> Owdhtshell_doJoin t n w
      | PastConsoleWrapper \<Rightarrow> PastConsole_doJoin n w)"

definition doLeave :: "DhtNode \<Rightarrow> world \<Rightarrow> (DhtNode \<times> world) result" where
  "doLeave n w =
     (case backend n of
        DummyDht \<Rightarrow> DummyDht_doLeave n w
      | KaddemoWrapper \<Rightarrow> Kaddemo_doLeave n w
      | OpenchordWrapper \<Rightarrow> Openchord_doLeave n w
      | OwdhtshellWrapper t \<Rightarrow> Owdhtshell_doLeave n w
      | PastConsoleWrapper \<Rightarrow> PastConsole_doLeave n w)"

definition doPut :: "string \<Rightarrow> string \<Rightarrow> DhtNode \<Rightarrow> world \<Rightarrow> world result" where
  "doPut k v n w =
     (case backend n of
        DummyDht \<Rightarrow> DummyDht_doPut k v n w
      | KaddemoWrapper \<Rightarrow> Kaddemo_doPut k v n w
      | OpenchordWrapper \<Rightarrow> Openchord_doPut k v n w
      | OwdhtshellWrapper t \<Rightarrow> Owdhtshell_doPut k v n w
      | PastConsoleWrapper \<Rightarrow> PastConsole_doPut k v n w)"

definition doGet :: "string \<Rightarrow> DhtNode \<Rightarrow> world \<Rightarrow> (bool \<times> world) result" where
  "doGet k n w =
     (case backend n of
        DummyDht \<Rightarrow> DummyDht_doGet k n w
      | KaddemoWrapper \<Rightarrow> Kaddemo_doGet k n w
      | OpenchordWrapper \<Rightarrow> Openchord_doGet k n w
      | OwdhtshellWrapper t \<Rightarrow> Owdhtshell_doGet k n w
      | PastConsoleWrapper \<Rightarrow> PastConsole_doGet k n w)"

section \<open>Events\<close>

text \<open>
  Every operation is timed with two readings of the clock, and \<open>NodeLatency::push\<close> makes a third.
  \<open>elapsedAt E i\<close> is the duration between readings \<open>i\<close> and \<open>i + 1\<close>.
\<close>

definition elapsedAt :: "environment \<Rightarrow> nat \<Rightarrow> int" where
  "elapsedAt E i = clock E (i + 1) - clock E i"

definition pushMeasured :: "environment \<Rightarrow> nat \<Rightarrow> NodeLatency \<Rightarrow> NodeLatency" where
  "pushMeasured E i N = NodeLatency_push (clock E (i + 2)) (elapsedAt E i) N"

definition threeTicks :: "nat \<Rightarrow> world \<Rightarrow> world" where
  "threeTicks i w = w\<lparr>ticks := i + 3\<rparr>"

text \<open>One round of the loop of \<open>processJoinEvent\<close>, and the loop.\<close>

definition joinAttempt ::
    "'b boost_scheme \<Rightarrow> environment \<Rightarrow> DhtNode \<times> world \<Rightarrow> (bool \<times> DhtNode \<times> world) result" where
  "joinAttempt B E = (\<lambda>(n, w).
     andThen (doJoin B E n w) (\<lambda>(success, n, w').
     let n = n\<lparr>joinLatency := pushMeasured E (ticks w) (joinLatency n)\<rparr>;
         n = (if success then n\<lparr>joinSuccessRate := NodeSuccessRate_hit (joinSuccessRate n)\<rparr>
              else n\<lparr>joinSuccessRate := NodeSuccessRate_miss (joinSuccessRate n)\<rparr>)
     in Inr (success, n, threeTicks (ticks w) w')))"

partial_function (option) joinLoop ::
    "'b boost_scheme \<Rightarrow> environment \<Rightarrow> DhtNode \<times> world \<Rightarrow> (DhtNode \<times> world) result option" where
  "joinLoop B E st =
     (case joinAttempt B E st of
        Inl e \<Rightarrow> Some (Inl e)
      | Inr r \<Rightarrow> if fst r then Some (Inr (snd r)) else joinLoop B E (snd r))"

declare joinLoop.simps [code]

definition processJoinEvent ::
    "'b boost_scheme \<Rightarrow> environment \<Rightarrow> DhtNode \<times> world \<Rightarrow> (DhtNode \<times> world) result option" where
  "processJoinEvent B E st =
     (if nodeConnected (fst st) then Some (Inl ExitFailure)
      else map_option (\<lambda>r. andThen r (\<lambda>(n, w). Inr (n\<lparr>nodeConnected := True\<rparr>, w))) (joinLoop B E st))"

definition processLeaveEvent :: "environment \<Rightarrow> DhtNode \<times> world \<Rightarrow> (DhtNode \<times> world) result" where
  "processLeaveEvent E = (\<lambda>(n, w).
     andThen (require (nodeConnected n) ExitFailure) (\<lambda>_.
     andThen (doLeave n w) (\<lambda>(n, w').
     Inr (n\<lparr>leaveLatency := pushMeasured E (ticks w) (leaveLatency n), nodeConnected := False\<rparr>,
          threeTicks (ticks w) w'))))"

definition processPutEvent :: "environment \<Rightarrow> DhtEvent \<Rightarrow> DhtNode \<times> world \<Rightarrow> (DhtNode \<times> world) result" where
  "processPutEvent E event = (\<lambda>(n, w).
     if \<not> nodeConnected n then Inr (n, w)
     else andThen (doPut (key event) (val event) n w) (\<lambda>w'.
          Inr (n\<lparr>putLatency := pushMeasured E (ticks w) (putLatency n)\<rparr>, threeTicks (ticks w) w')))"

definition processGetEvent :: "environment \<Rightarrow> DhtEvent \<Rightarrow> DhtNode \<times> world \<Rightarrow> (DhtNode \<times> world) result" where
  "processGetEvent E event = (\<lambda>(n, w).
     if \<not> nodeConnected n then Inr (n, w)
     else andThen (doGet (key event) n w) (\<lambda>(success, w').
          let n = n\<lparr>getSuccessRate := (if success then NodeSuccessRate_hit (getSuccessRate n)
                                    else NodeSuccessRate_miss (getSuccessRate n))\<rparr>
          in Inr (n\<lparr>getLatency := pushMeasured E (ticks w) (getLatency n)\<rparr>, threeTicks (ticks w) w')))"

text \<open>The six strings of \<open>getResults\<close>, in the order of its parameters.\<close>

definition getResults :: "'b boost_scheme \<Rightarrow> DhtNode \<Rightarrow> string \<times> string \<times> string \<times> string \<times> string \<times> string" where
  "getResults B n =
     (NodeLatency_toString B (joinLatency n), NodeLatency_toString B (leaveLatency n),
      NodeLatency_toString B (putLatency n), NodeLatency_toString B (getLatency n),
      NodeSuccessRate_toString (joinSuccessRate n), NodeSuccessRate_toString (getSuccessRate n))"

section \<open>Joining\<close>

text \<open>The command with which owdhtshell and past-console nodes join.\<close>

fun consoleCommand :: "DhtNode \<Rightarrow> string list" where
  "consoleCommand n =
     (case backend n of OwdhtshellWrapper t \<Rightarrow> Owdhtshell_command t n | _ \<Rightarrow> PastConsole_command n)"

definition isConsole :: "DhtNode \<Rightarrow> bool" where
  "isConsole n \<longleftrightarrow> backend n = PastConsoleWrapper \<or> (\<exists>t. backend n = OwdhtshellWrapper t)"

lemma doJoin_console: "isConsole n \<Longrightarrow> doJoin B E n w = startOrFail (consoleCommand n) n w"
  by (auto simp: isConsole_def doJoin_def Owdhtshell_doJoin_def PastConsole_doJoin_def)

lemma goodLine_prompt: "isConsole n \<Longrightarrow> goodLine (promptString (backend n))"
  by (auto simp: isConsole_def goodLine_def)

text \<open>Output of a child that never shows the prompt, and of one that does.\<close>

definition failedOutput :: "DhtNode \<Rightarrow> bytes \<Rightarrow> bool" where
  "failedOutput n out \<longleftrightarrow> (\<exists>ls. out = linesText ls \<and> (\<forall>l \<in> set ls. goodLine l \<and> l \<noteq> promptString (backend n)))"

definition promptOutput :: "DhtNode \<Rightarrow> bytes \<Rightarrow> bytes \<Rightarrow> bool" where
  "promptOutput n out rest \<longleftrightarrow>
     (\<exists>ls. out = linesText ls @ promptString (backend n) @ newline # rest
        \<and> (\<forall>l \<in> set ls. goodLine l \<and> l \<noteq> promptString (backend n)))"

lemma startOrFail_failed:
  assumes "isConsole n" and "childOutputs w = out # outs" and "failedOutput n out"
  shows "startOrFail command n w = Inr (False, n, stopWrapped (startChild command w))"
proof -
  obtain ls where "out = linesText ls" and "\<forall>l \<in> set ls. goodLine l \<and> l \<noteq> promptString (backend n)"
    using assms(3) unfolding failedOutput_def by auto
  then have "readUntil (\<lambda>line. line = promptString (backend n)) out = Inl RWPopenEOF"
    using readUntil_eof [of ls "\<lambda>line. line = promptString (backend n)"] by simp
  then show ?thesis
    using assms(2) by (simp add: startOrFail_def catchEOF_def startWrapped_def waitPrompt_def startChild_def)
qed

lemma startOrFail_prompt:
  assumes "isConsole n" and "childOutputs w = out # outs" and "promptOutput n out rest"
  shows "startOrFail command n w = Inr (True, n, (startChild command w)\<lparr>incoming := rest\<rparr>)"
proof -
  obtain ls where "out = linesText ls @ promptString (backend n) @ newline # rest"
    and "\<forall>l \<in> set ls. goodLine l \<and> l \<noteq> promptString (backend n)"
    using assms(3) unfolding promptOutput_def by auto
  then have "readUntil (\<lambda>line. line = promptString (backend n)) out = Inr (promptString (backend n), rest)"
    using readUntil_lines [of ls "\<lambda>line. line = promptString (backend n)" "promptString (backend n)" rest]
      goodLine_prompt [OF assms(1)] by simp
  then show ?thesis
    using assms(2) by (simp add: startOrFail_def catchEOF_def startWrapped_def waitPrompt_def startChild_def)
qed

definition joinFields :: "DhtNode \<Rightarrow> DhtNode \<Rightarrow> bool" where
  "joinFields n n' \<longleftrightarrow> backend n' = backend n \<and> entryPointHost n' = entryPointHost n
     \<and> entryPointPort n' = entryPointPort n \<and> selfPort n' = selfPort n"

lemma isConsole_fields: "joinFields n n' \<Longrightarrow> isConsole n \<Longrightarrow> isConsole n' \<and> consoleCommand n' = consoleCommand n"
  by (auto simp: joinFields_def isConsole_def Owdhtshell_command_def PastConsole_command_def nodeStartsNewDht_def)

lemma joinLoop_console:
  assumes "isConsole n" and "childOutputs w = fails @ out # outs"
    and "\<forall>f \<in> set fails. failedOutput n f" and "promptOutput n out rest"
  shows "\<exists>n' w'. joinLoop B E (n, w) = Some (Inr (n', w'))
    \<and> joinFields n n' \<and> incoming w' = rest \<and> childOutputs w' = outs \<and> ticks w' = ticks w + 3 * (length fails + 1)
    \<and> commands w' = commands w @ replicate (length fails + 1) (consoleCommand n)
    \<and> hits (joinSuccessRate n') = hits (joinSuccessRate n) + 1
    \<and> misses (joinSuccessRate n') = misses (joinSuccessRate n) + of_nat (length fails)
    \<and> NodeLatency_count (joinLatency n') = NodeLatency_count (joinLatency n) + of_nat (length fails + 1)"
  using assms
proof (induction fails arbitrary: n w)
  case Nil
  then have "doJoin B E n w = Inr (True, n, (startChild (consoleCommand n) w)\<lparr>incoming := rest\<rparr>)"
    using startOrFail_prompt [of n w out outs rest] by (simp add: doJoin_console)
  then show ?case
    using Nil.prems(2)
    by (subst joinLoop.simps)
      (simp add: joinAttempt_def Let_def joinFields_def startChild_def threeTicks_def pushMeasured_def
        NodeLatency_push_def push_with_time_def NodeLatency_count_def Statistics_count_def NodeSuccessRate_hit_def)
next
  case (Cons f fails)
  have join: "doJoin B E n w = Inr (False, n, stopWrapped (startChild (consoleCommand n) w))"
    using startOrFail_failed [of n w f "fails @ out # outs"] Cons.prems by (simp add: doJoin_console)
  let ?n = "n\<lparr>joinLatency := pushMeasured E (ticks w) (joinLatency n),
              joinSuccessRate := NodeSuccessRate_miss (joinSuccessRate n)\<rparr>"
  let ?w = "threeTicks (ticks w) (stopWrapped (startChild (consoleCommand n) w))"
  have step: "joinLoop B E (n, w) = joinLoop B E (?n, ?w)"
    by (subst joinLoop.simps) (simp add: joinAttempt_def join Let_def)
  have console: "joinFields n ?n"
    by (simp add: joinFields_def)
  have w: "childOutputs ?w = fails @ out # outs" "ticks ?w = ticks w + 3" "commands ?w = commands w @ [consoleCommand n]"
    using Cons.prems(2) by (simp_all add: threeTicks_def stopWrapped_def stopChild_def startChild_def)
  have same: "failedOutput ?n = failedOutput n" "promptOutput ?n = promptOutput n"
    by (auto simp: failedOutput_def promptOutput_def fun_eq_iff)
  from Cons.IH [of ?n ?w, unfolded same] isConsole_fields [OF console Cons.prems(1)] Cons.prems(3,4) w
  show ?case
    unfolding step
    by (auto simp: joinFields_def NodeSuccessRate_miss_def pushMeasured_def NodeLatency_push_def push_with_time_def
        NodeLatency_count_def Statistics_count_def simp del: consoleCommand.simps)
qed

section \<open>What every operation keeps\<close>

text \<open>The measurements of the four latencies are maps of the standard library.\<close>

definition validNode :: "DhtNode \<Rightarrow> bool" where
  "validNode n \<longleftrightarrow> (\<forall>N \<in> {joinLatency n, leaveLatency n, putLatency n, getLatency n}. mapValid (measurements N))"

text \<open>Besides, every join attempt and every get is measured once and counted once.\<close>

definition nodeOk :: "DhtNode \<Rightarrow> bool" where
  "nodeOk n \<longleftrightarrow> NodeLatency_count (joinLatency n) = NodeSuccessRate_count (joinSuccessRate n)
     \<and> NodeLatency_count (getLatency n) = NodeSuccessRate_count (getSuccessRate n) \<and> validNode n"

lemmas nodeOk_defs = nodeOk_def validNode_def

lemma pushMeasured_valid [simp]: "mapValid (measurements N) \<Longrightarrow> mapValid (measurements (pushMeasured E i N))"
  by (simp add: pushMeasured_def NodeLatency_push_def push_with_time_def mapPut_valid)

lemma mapEmpty_valid [simp]: "mapValid mapEmpty"
  by (simp add: mapEmpty_def mapValid_def)

lemma counts_step [simp]:
  "NodeLatency_count (pushMeasured E i N) = NodeLatency_count N + 1"
  "NodeSuccessRate_count (NodeSuccessRate_hit R) = NodeSuccessRate_count R + 1"
  "NodeSuccessRate_count (NodeSuccessRate_miss R) = NodeSuccessRate_count R + 1"
  by (simp_all add: pushMeasured_def NodeLatency_push_def push_with_time_def NodeLatency_count_def Statistics_count_def
      NodeSuccessRate_count_def NodeSuccessRate_hit_def NodeSuccessRate_miss_def)

lemma doJoin_node:
  assumes "doJoin B E n w = Inr (b, n', w')"
  shows "sameButKaddemo n n'"
  using assms
  by (auto simp: doJoin_def DummyDht_doJoin_def Owdhtshell_doJoin_def PastConsole_doJoin_def
      dest: Kaddemo_node Openchord_node startOrFail_node split: backend.splits)

lemma doLeave_node:
  assumes "doLeave n w = Inr (n', w')"
  shows "sameButKaddemo n n'"
  using assms
  by (auto simp: doLeave_def doLeave_defs andThen_Inr_iff sameButKaddemo_def Let_def split: backend.splits if_splits)

lemma joinAttempt_ok:
  assumes "joinAttempt B E (n, w) = Inr (b, n', w')" and "nodeOk n"
  shows "nodeOk n' \<and> nodeConnected n' = nodeConnected n"
proof -
  obtain n1 w1 where join: "doJoin B E n w = Inr (b, n1, w1)"
    and n': "n' = n1\<lparr>joinLatency := pushMeasured E (ticks w) (joinLatency n1),
       joinSuccessRate := (if b then NodeSuccessRate_hit (joinSuccessRate n1) else NodeSuccessRate_miss (joinSuccessRate n1))\<rparr>"
    using assms(1) by (auto simp: joinAttempt_def andThen_Inr_iff Let_def split: if_splits)
  note sameButKaddemo_fields [OF doJoin_node [OF join]]
  then show ?thesis
    using assms(2) by (simp add: n' nodeOk_defs)
qed

text \<open>What every successful attempt keeps, the loop keeps.\<close>

lemma joinLoop_invariant:
  assumes "joinLoop B E st = Some (Inr st')" and "I (fst st)"
    and "\<And>n w b n' w'. joinAttempt B E (n, w) = Inr (b, n', w') \<Longrightarrow> I n \<Longrightarrow> I n'"
  shows "I (fst st')"
proof -
  let ?P = "\<lambda>B' E' (st :: DhtNode \<times> world) (r :: (DhtNode \<times> world) result). B' = B \<longrightarrow> E' = E \<longrightarrow> I (fst st) \<longrightarrow> (\<forall>st'. r = Inr st' \<longrightarrow> I (fst st'))"
  have "?P B E st (Inr st')"
  proof (rule joinLoop.raw_induct [where P = ?P, OF _ assms(1)])
    fix loop :: "'a boost_scheme \<Rightarrow> environment \<Rightarrow> DhtNode \<times> world \<Rightarrow> (DhtNode \<times> world) result option"
      and B' :: "'a boost_scheme" and E' :: environment and st y
    assume IH: "\<And>B E st y. loop B E st = Some y \<Longrightarrow> ?P B E st y"
      and step: "(case joinAttempt B' E' st of Inl e \<Rightarrow> Some (Inl e)
        | Inr r \<Rightarrow> if fst r then Some (Inr (snd r)) else loop B' E' (snd r)) = Some y"
    show "?P B' E' st y"
    proof (intro impI)
      assume eq: "B' = B" "E' = E" and ok: "I (fst st)"
      show "\<forall>st'. y = Inr st' \<longrightarrow> I (fst st')"
      proof (cases "joinAttempt B E st")
        case (Inl e)
        then have "y = Inl e" using step unfolding eq Inl by simp
        then show ?thesis by simp
      next
        case (Inr r)
        then have "joinAttempt B E (fst st, snd st) = Inr (fst r, fst (snd r), snd (snd r))"
          by simp
        then have next_ok: "I (fst (snd r))"
          using assms(3) ok by blast
        show ?thesis
        proof (cases "fst r")
          case True
          then have "y = Inr (snd r)" using step unfolding eq Inr by simp
          then show ?thesis using next_ok by simp
        next
          case False
          then have "loop B E (snd r) = Some y" using step unfolding eq Inr by simp
          from IH [OF this] next_ok show ?thesis by simp
        qed
      qed
    qed
  qed
  then show ?thesis using assms(2) by simp
qed

lemma joinLoop_ok:
  assumes "joinLoop B E st = Some (Inr st')" and "nodeOk (fst st)"
  shows "nodeOk (fst st')"
  by (rule joinLoop_invariant [where I = nodeOk, OF assms]) (use joinAttempt_ok in blast)

lemma joinAttempt_backend: "joinAttempt B E (n, w) = Inr (b, n', w') \<Longrightarrow> backend n' = backend n"
  by (auto simp: joinAttempt_def andThen_Inr_iff Let_def dest!: doJoin_node sameButKaddemo_fields(1) split: if_splits)

lemma processJoinEvent_backend:
  assumes "processJoinEvent B E (n, w) = Some (Inr (n', w'))"
  shows "backend n' = backend n"
proof -
  obtain n1 where loop: "joinLoop B E (n, w) = Some (Inr (n1, w'))" and "n' = n1\<lparr>nodeConnected := True\<rparr>"
    using assms by (auto simp: processJoinEvent_def andThen_Inr_iff split: if_splits)
  then show ?thesis
    using joinLoop_invariant [where I = "\<lambda>m. backend m = backend n", OF loop] joinAttempt_backend by fastforce
qed

text \<open>The dummy and kaddemo do not retry: their joins return.\<close>

lemma doJoin_no_retry:
  assumes "backend n \<in> {DummyDht, KaddemoWrapper}" and "doJoin B E n w = Inr (b, n', w')"
  shows b
  using assms by (auto simp: doJoin_def DummyDht_doJoin_def dest: Kaddemo_node)

lemma processJoinEvent_returns:
  assumes "backend n \<in> {DummyDht, KaddemoWrapper}"
  shows "\<exists>r. processJoinEvent B E (n, w) = Some r"
proof (cases "joinAttempt B E (n, w)")
  case (Inl e)
  then show ?thesis by (subst processJoinEvent_def, subst joinLoop.simps) simp
next
  case (Inr r)
  then obtain n1 w1 where "doJoin B E n w = Inr (fst r, n1, w1)"
    by (auto simp: joinAttempt_def andThen_Inr_iff Let_def)
  then have "fst r"
    by (rule doJoin_no_retry [OF assms])
  then show ?thesis
    using Inr by (subst processJoinEvent_def, subst joinLoop.simps) simp
qed

section \<open>Properties\<close>

text \<open>
  Ports: for offsets below 32768, every backend gives different nodes of a host different ports,
  and the port after a kaddemo port, where its id server listens, is never the port of a node. From
  32768 on, kaddemo ports repeat, because the offset is doubled in 16 bits.
\<close>

theorem node_ports_distinct:
  "(unat a < 32768 \<and> unat b < 32768 \<and> a \<noteq> b \<longrightarrow>
      portOffsetToPort k a \<noteq> portOffsetToPort k b
      \<and> portOffsetToPort KaddemoWrapper a + 1 \<noteq> portOffsetToPort KaddemoWrapper b
      \<and> portOffsetToPort KaddemoWrapper a + 1 \<noteq> portOffsetToPort KaddemoWrapper b + 1)
   \<and> portOffsetToPort KaddemoWrapper (a + 32768) = portOffsetToPort KaddemoWrapper a"
  using backend_ports_inj [of a b k] backend_ports_inj [of a b KaddemoWrapper] kaddemo_id_port [of a b]
  by auto

theorem node_ports_distinct_witness:
  "portOffsetToPort OpenchordWrapper 0 \<noteq> portOffsetToPort OpenchordWrapper 1
   \<and> portOffsetToPort KaddemoWrapper 0 + 1 \<noteq> portOffsetToPort KaddemoWrapper 1"
  using node_ports_distinct [of 0 1 OpenchordWrapper] by simp

text \<open>
  C19. Joining with retries: if the children of an owdhtshell or past-console node fail to show their
  prompt \<open>k\<close> times and the next one shows it, the join loop returns, the node is connected, the same
  command was run \<open>k + 1\<close> times, and exactly \<open>k\<close> misses, one hit and \<open>k + 1\<close> measurements were added;
  what the last child printed after the prompt is still unread.
\<close>

theorem join_retries:
  assumes "isConsole n" and "\<not> nodeConnected n" and "childOutputs w = fails @ out # outs"
    and "\<forall>f \<in> set fails. failedOutput n f" and "promptOutput n out rest"
  shows "\<exists>n' w'. processJoinEvent B E (n, w) = Some (Inr (n', w')) \<and> nodeConnected n'
    \<and> incoming w' = rest \<and> childOutputs w' = outs
    \<and> commands w' = commands w @ replicate (length fails + 1) (consoleCommand n)
    \<and> hits (joinSuccessRate n') = hits (joinSuccessRate n) + 1
    \<and> misses (joinSuccessRate n') = misses (joinSuccessRate n) + of_nat (length fails)
    \<and> NodeLatency_count (joinLatency n') = NodeLatency_count (joinLatency n) + of_nat (length fails + 1)"
proof -
  obtain n' w' where loop: "joinLoop B E (n, w) = Some (Inr (n', w'))"
    "incoming w' = rest" "childOutputs w' = outs"
    "commands w' = commands w @ replicate (length fails + 1) (consoleCommand n)"
    "hits (joinSuccessRate n') = hits (joinSuccessRate n) + 1"
    "misses (joinSuccessRate n') = misses (joinSuccessRate n) + of_nat (length fails)"
    "NodeLatency_count (joinLatency n') = NodeLatency_count (joinLatency n) + of_nat (length fails + 1)"
    using joinLoop_console [OF assms(1,3-5), of B E] by blast
  have "processJoinEvent B E (n, w) = Some (Inr (n'\<lparr>nodeConnected := True\<rparr>, w'))"
    using assms(2) by (simp add: processJoinEvent_def loop(1))
  with loop show ?thesis
    by (intro exI [of _ "n'\<lparr>nodeConnected := True\<rparr>"] exI [of _ w']) simp
qed

theorem join_retries_witness:
  "\<exists>n w n' w'. backend n = PastConsoleWrapper \<and> childOutputs w = [linesText [''no route''], linesText [''pc$'']]
    \<and> processJoinEvent refBoost \<lparr>clock = int, peerReply = (\<lambda>host port. None)\<rparr> (n, w) = Some (Inr (n', w'))
    \<and> nodeConnected n' \<and> misses (joinSuccessRate n') = 1
    \<and> commands w' = replicate 2 [''past-console'', ''0'', ''bootstrap'']"
proof -
  define n where "n = newDhtNode PastConsoleWrapper"
  define w where "w = \<lparr>childOutputs = [linesText [''no route''], linesText [''pc$'']], incoming = [], sent = [], commands = [], ticks = 0\<rparr>"
  have b: "backend n = PastConsoleWrapper" and console: "isConsole n" and off: "\<not> nodeConnected n"
    and zero: "misses (joinSuccessRate n) = 0" and fields: "selfPort n = 0" "entryPointHost n = []"
    by (simp_all add: n_def newDhtNode_def newNodeSuccessRate_def isConsole_def)
  have outs: "childOutputs w = [linesText [''no route'']] @ linesText [''pc$''] # []" and none: "commands w = []"
    by (simp_all add: w_def)
  have fails: "\<forall>f \<in> set [linesText [''no route'']]. failedOutput n f"
    by (auto simp: failedOutput_def goodLine_def b intro: exI [of _ "[''no route'']"] simp del: linesText_simps)
  have prompt: "promptOutput n (linesText [''pc$'']) []"
    unfolding promptOutput_def by (rule exI [of _ "[]"]) (simp add: b)
  have "showInt 0 = ''0''"
    by code_simp
  then have command: "consoleCommand n = [''past-console'', ''0'', ''bootstrap'']"
    by (simp add: PastConsole_command_def b nodeStartsNewDht_def fields showPort_def)
  obtain n' w' where "processJoinEvent refBoost \<lparr>clock = int, peerReply = (\<lambda>host port. None)\<rparr> (n, w) = Some (Inr (n', w'))"
    and "nodeConnected n'" and "misses (joinSuccessRate n') = 1"
    and "commands w' = replicate 2 [''past-console'', ''0'', ''bootstrap'']"
    using join_retries [OF console off outs fails prompt, of refBoost "\<lparr>clock = int, peerReply = (\<lambda>host port. None)\<rparr>"]
    unfolding command zero none by (auto simp: numeral_2_eq_2)
  then show ?thesis
    using b outs by (intro exI [of _ n] exI [of _ w] exI [of _ n'] exI [of _ w']) simp
qed

text \<open>
  A get of an owdhtshell or past-console node reads exactly up to its prompt: it succeeds if and
  only if one of the lines before the prompt starts with the marker of the program, and what follows
  the prompt stays unread.
\<close>

theorem get_reads_to_prompt:
  assumes "isConsole n" and "incoming w = linesText ls @ promptString (backend n) @ newline # rest"
    and "\<forall>l \<in> set ls. goodLine l \<and> l \<noteq> promptString (backend n)"
  shows "doGet k n w =
    Inr ((\<exists>l \<in> set ls. \<exists>v. l = (if backend n = PastConsoleWrapper then ''Value: '' else ''value: '') @ v),
         w\<lparr>sent := sent w @ [c_str (''get '' @ k @ [newline])], incoming := rest\<rparr>)"
proof (cases "backend n = PastConsoleWrapper")
  case True
  then have "getLoopInline ''Value: '' ''pc$'' False (incoming w) = Inr (\<exists>l \<in> set ls. \<exists>v. l = ''Value: '' @ v, rest)"
    using getLoopInline_lines [of ls "''pc$''" "''Value: ''" False rest] goodLine_prompt [OF assms(1)] assms(2,3)
    by (simp add: comparePrefix_iff)
  with True show ?thesis
    by (simp add: doGet_def PastConsole_doGet_def Owdhtshell_doGet_def sendLine_def Let_def)
next
  case False
  then obtain t where t: "backend n = OwdhtshellWrapper t"
    using assms(1) by (auto simp: isConsole_def)
  then have "getLoopInline ''value: '' ''Ready.'' False (incoming w) = Inr (\<exists>l \<in> set ls. \<exists>v. l = ''value: '' @ v, rest)"
    using getLoopInline_lines [of ls "''Ready.''" "''value: ''" False rest] goodLine_prompt [OF assms(1)] assms(2,3)
    by (simp add: comparePrefix_iff)
  with t show ?thesis
    by (simp add: doGet_def PastConsole_doGet_def Owdhtshell_doGet_def sendLine_def Let_def)
qed

theorem get_reads_to_prompt_witness:
  "let w = \<lparr>childOutputs = [], incoming = linesText [''value: 7''] @ ''Ready.'' @ newline # ''x'', sent = [], commands = [], ticks = 0\<rparr>
   in doGet ''k'' (newDhtNode (OwdhtshellWrapper ''Chord'')) w
      = Inr (True, w\<lparr>sent := [c_str (''get k'' @ [newline])], incoming := ''x''\<rparr>)"
proof -
  let ?n = "newDhtNode (OwdhtshellWrapper ''Chord'')"
  let ?w = "\<lparr>childOutputs = [], incoming = linesText [''value: 7''] @ ''Ready.'' @ newline # ''x'', sent = [], commands = [], ticks = 0\<rparr>"
  have "doGet ''k'' ?n ?w = Inr ((\<exists>l \<in> set [''value: 7'']. \<exists>v. l = (if backend ?n = PastConsoleWrapper then ''Value: '' else ''value: '') @ v),
         ?w\<lparr>sent := sent ?w @ [c_str (''get '' @ ''k'' @ [newline])], incoming := ''x''\<rparr>)"
    by (rule get_reads_to_prompt) (simp_all add: isConsole_def newDhtNode_def goodLine_def)
  then show ?thesis
    by (simp add: newDhtNode_def Let_def)
qed

lemma processLeaveEvent_node:
  assumes "processLeaveEvent E (n, w) = Inr (n', w')"
  shows "nodeConnected n \<and> (\<exists>n1. sameButKaddemo n n1
    \<and> n' = n1\<lparr>leaveLatency := pushMeasured E (ticks w) (leaveLatency n1), nodeConnected := False\<rparr>)"
proof -
  obtain n1 w1 where "nodeConnected n" and leave: "doLeave n w = Inr (n1, w1)"
    and "n' = n1\<lparr>leaveLatency := pushMeasured E (ticks w) (leaveLatency n1), nodeConnected := False\<rparr>"
    using assms by (auto simp: processLeaveEvent_def andThen_Inr_iff)
  with doLeave_node [OF leave] show ?thesis by blast
qed

lemma processPutEvent_node:
  assumes "processPutEvent E event (n, w) = Inr (n', w')"
  shows "n' = n \<or> n' = n\<lparr>putLatency := pushMeasured E (ticks w) (putLatency n)\<rparr>"
proof (cases "nodeConnected n")
  case True
  then have "andThen (doPut (key event) (val event) n w) (\<lambda>w'.
          Inr (n\<lparr>putLatency := pushMeasured E (ticks w) (putLatency n)\<rparr>, threeTicks (ticks w) w')) = Inr (n', w')"
    using assms by (simp only: processPutEvent_def prod.case not_True_eq_False if_False)
  then show ?thesis
    unfolding andThen_Inr_iff by blast
qed (use assms in \<open>simp add: processPutEvent_def\<close>)

lemma processGetEvent_node:
  assumes "processGetEvent E event (n, w) = Inr (n', w')"
  shows "n' = n \<or> (\<exists>success. n' = n\<lparr>getSuccessRate := (if success then NodeSuccessRate_hit (getSuccessRate n)
      else NodeSuccessRate_miss (getSuccessRate n)), getLatency := pushMeasured E (ticks w) (getLatency n)\<rparr>)"
proof (cases "nodeConnected n")
  case True
  then have "andThen (doGet (key event) n w) (\<lambda>(success, w').
          let n = n\<lparr>getSuccessRate := (if success then NodeSuccessRate_hit (getSuccessRate n)
                                    else NodeSuccessRate_miss (getSuccessRate n))\<rparr>
          in Inr (n\<lparr>getLatency := pushMeasured E (ticks w) (getLatency n)\<rparr>, threeTicks (ticks w) w')) = Inr (n', w')"
    using assms by (simp only: processGetEvent_def prod.case not_True_eq_False if_False)
  then obtain success where "n' = n\<lparr>getSuccessRate := (if success then NodeSuccessRate_hit (getSuccessRate n)
      else NodeSuccessRate_miss (getSuccessRate n)), getLatency := pushMeasured E (ticks w) (getLatency n)\<rparr>"
    unfolding andThen_Inr_iff Let_def by auto
  then show ?thesis by blast
qed (use assms in \<open>simp add: processGetEvent_def\<close>)



end
