(* ===== verification/Controller.thy ===== *)
theory Controller
  imports ControllerWorkload DhtNode Protocol
begin

text \<open>
  \<open>src/src/controller/DhtperfController.cpp\<close>: the program that runs one node. Its phases are functions
  on the state: connecting, reading the three messages of the master, the loop that processes the
  events of the workload, and the reports. The socket is two byte lists: what the master sends until
  the connection ends, and what was written to it. The readings of the timer are the environment: reading
  \<open>i\<close> of \<open>timer.expires_from_now()\<close> is \<open>left i\<close> microseconds. The thread that ends the process when
  the node hangs is represented by the time it waits; a run that it cuts short is one that this model
  leaves unfinished.
\<close>

section \<open>State\<close>

record DhtperfController =
  profile :: ControllerWorkloadProfile
  dhtNode :: "DhtNode option"
  fromMaster :: bytes  (* not read yet *)
  toMaster :: bytes  (* written *)
  writes :: nat  (* calls of ba::write made *)
  nodeWorld :: world
  draws :: nat
  files :: fileSystem

text \<open>The local variables of \<open>start\<close> and the state that it changes.\<close>

record running =
  node :: DhtNode
  outer :: world
  workload :: ControllerWorkloadProfile
  drawn :: nat
  readings :: nat  (* of the timer *)
  elapsed :: timeUnit
  remaining :: int  (* remaining.total_seconds() *)
  waits :: "timeUnit list"  (* waits on aux_timer *)

section \<open>Connecting and reading\<close>

text \<open>
  The loop over the resolved endpoints; the list says which of them accept. \<open>error\<close> keeps the result
  of the last attempt, and is not set if there is none.
\<close>

fun connectLoop :: "bool list \<Rightarrow> bool \<Rightarrow> bool" where
  "connectLoop [] error = error"
| "connectLoop (accepts # endpoints) error = (if accepts then False else connectLoop endpoints True)"

definition connect :: "bool list option \<Rightarrow> unit result" where
  "connect resolved =
     (case resolved of
        None \<Rightarrow> Inl SystemError
      | Some endpoints \<Rightarrow> require (\<not> connectLoop endpoints False) ExitFailure)"

text \<open>
  \<open>getNextMessage\<close>. The error of the second \<open>read\<close> is not looked at: a body that ends early is filled
  up with the zeros that the vector was created with.
\<close>

definition getNextMessage :: "endian \<Rightarrow> opcodeType \<Rightarrow> bytes \<Rightarrow> (Message \<times> bytes) result" where
  "getNextMessage en expected input =
     andThen (require (headerSize \<le> length input) ExitFailure) (\<lambda>_.
     let header = headerOfBytes en (take headerSize input);
         rest = drop headerSize input;
         n = unat (bodySize header);
         body = take n rest @ replicate (n - length rest) (CHR 0x00)
     in andThen (require (opcode header = expected) ExitFailure) (\<lambda>_.
        andThen (fromBits en header body) (\<lambda>m. Inr (m, drop n rest))))"

definition getDhtType :: "endian \<Rightarrow> DhtperfController \<Rightarrow> DhtperfController result" where
  "getDhtType en C =
     andThen (getNextMessage en opcode_DhtType (fromMaster C)) (\<lambda>(m, rest).
     andThen (getType m) (\<lambda>dhtType.
     andThen (makeNode dhtType (files C)) (\<lambda>(n, fs).
     Inr (C\<lparr>fromMaster := rest, dhtNode := Some n, files := fs\<rparr>))))"

definition setProfiles ::
    "'b boost_scheme \<Rightarrow> (DhtOperation \<times> string) list \<Rightarrow> DhtperfController \<Rightarrow> DhtperfController result" where
  "setProfiles B ps C = foldResult (\<lambda>C (op, text).
     andThen (setProfile B op text (profile C) (draws C)) (\<lambda>(b, W, k). Inr (C\<lparr>profile := W, draws := k\<rparr>))) C ps"

definition Controller_getProfile :: "'b boost_scheme \<Rightarrow> endian \<Rightarrow> DhtperfController \<Rightarrow> DhtperfController result" where
  "Controller_getProfile B en C =
     andThen (getNextMessage en opcode_Profile (fromMaster C)) (\<lambda>(m, rest).
     andThen (Message_getProfiles m) (\<lambda>(j, l, p, g).
     setProfiles B [(Join, j), (Leave, l), (Put, p), (Get, g)] (C\<lparr>fromMaster := rest\<rparr>)))"

definition waitForStartMessage :: "endian \<Rightarrow> DhtperfController \<Rightarrow> DhtperfController result" where
  "waitForStartMessage en C =
     andThen (getNextMessage en opcode_Start (fromMaster C)) (\<lambda>(m, rest).
     andThen (Start_duration m) (\<lambda>d.
     let C = C\<lparr>fromMaster := rest, profile := setDuration d (profile C)\<rparr>
     in case dhtNode C of
          None \<Rightarrow> Inl UndefinedBehaviour
        | Some n \<Rightarrow>
            andThen (Start_entryPointHost m) (\<lambda>host.
            andThen (Start_entryPointPortOffset m) (\<lambda>entryPointPortOffset.
            andThen (Start_selfPortOffset m) (\<lambda>selfPortOffset.
            Inr (C\<lparr>dhtNode := Some (setSelfPortOffset selfPortOffset
                      (setEntryPoint host entryPointPortOffset n))\<rparr>))))))"

section \<open>The event loop\<close>

text \<open>An operation that can fail and need not return.\<close>

definition thenRun :: "'a result option \<Rightarrow> ('a \<Rightarrow> 'b result option) \<Rightarrow> 'b result option" where
  "thenRun m f = (case m of None \<Rightarrow> None | Some (Inl e) \<Rightarrow> Some (Inl e) | Some (Inr x) \<Rightarrow> f x)"

text \<open>
  The macro \<open>DHTPERF_CHECK_DONE\<close>: one reading of the timer. \<open>total_seconds()\<close> truncates towards zero and
  the subtraction is one of 32-bit unsigned numbers. The first component says that the function returns.
\<close>

definition checkDone :: "(nat \<Rightarrow> int) \<Rightarrow> running \<Rightarrow> bool \<times> running" where
  "checkDone left s =
     (let seconds = left (readings s) sdiv 1000000;
          now = duration (workload s) - word_of_int seconds
      in (seconds < 0 \<or> now \<ge> duration (workload s),
          s\<lparr>readings := readings s + 1, elapsed := now, remaining := seconds\<rparr>))"

text \<open>\<open>BOOST_FOREACH(event, events) { dhtNode_->process(event); DHTPERF_CHECK_DONE }\<close>.\<close>

fun processEvents ::
    "(DhtEvent \<Rightarrow> DhtNode \<times> world \<Rightarrow> (DhtNode \<times> world) result option) \<Rightarrow> (nat \<Rightarrow> int)
     \<Rightarrow> DhtEvent list \<Rightarrow> running \<Rightarrow> (bool \<times> running) result option" where
  "processEvents process left [] s = Some (Inr (False, s))"
| "processEvents process left (event # events) s =
     thenRun (process event (node s, outer s)) (\<lambda>(n, w).
     let (stop, s') = checkDone left (s\<lparr>node := n, outer := w\<rparr>)
     in if stop then Some (Inr (True, s')) else processEvents process left events s')"

definition dueEvents :: "DhtOperation \<Rightarrow> timeUnit \<Rightarrow> running \<Rightarrow> (DhtEvent list \<times> running) result" where
  "dueEvents op now s = andThen (eventsFor op now (workload s)) (\<lambda>(es, W). Inr (es, s\<lparr>workload := W\<rparr>))"

text \<open>The branch that processes events: those of a connected node are all taken before the first is processed.\<close>

definition processDue ::
    "'b boost_scheme \<Rightarrow> environment \<Rightarrow> (nat \<Rightarrow> int) \<Rightarrow> running \<Rightarrow> (bool \<times> running) result option" where
  "processDue B E left s =
     (if nodeConnected (node s) then
        thenRun (Some (dueEvents Put (elapsed s) s)) (\<lambda>(putEvents, s).
        thenRun (Some (dueEvents Get (elapsed s) s)) (\<lambda>(getEvents, s).
        thenRun (Some (dueEvents Leave (elapsed s) s)) (\<lambda>(leaveEvents, s).
        thenRun (processEvents (\<lambda>e st. Some (processPutEvent E e st)) left putEvents s) (\<lambda>(stop, s).
        if stop then Some (Inr (True, s)) else
        thenRun (processEvents (\<lambda>e st. Some (processGetEvent E e st)) left getEvents s) (\<lambda>(stop, s).
        if stop then Some (Inr (True, s)) else
        processEvents (\<lambda>e st. Some (processLeaveEvent E st)) left leaveEvents s)))))
      else
        thenRun (Some (dueEvents Join (elapsed s) s)) (\<lambda>(joinEvents, s).
        processEvents (\<lambda>e st. processJoinEvent B E st) left joinEvents s))"

text \<open>The end of an iteration: when to go on, with the wait on \<open>aux_timer\<close>.\<close>

definition waitForNext :: "timeUnit \<Rightarrow> running \<Rightarrow> running" where
  "waitForNext nextEvent s =
     (if nextEvent \<noteq> 0 then
        (if nextEvent > elapsed s then s\<lparr>waits := waits s @ [nextEvent - elapsed s]\<rparr> else s)
      else s\<lparr>waits := waits s @ [word_of_int (remaining s)]\<rparr>)"

text \<open>The part of an iteration after the next event time is known.\<close>

definition processAndWait ::
    "'b boost_scheme \<Rightarrow> environment \<Rightarrow> (nat \<Rightarrow> int) \<Rightarrow> timeUnit \<Rightarrow> running \<Rightarrow> (bool \<times> running) result option" where
  "processAndWait B E left nextEvent s =
     thenRun (if elapsed s \<ge> nextEvent \<and> nextEvent \<noteq> 0 then processDue B E left s else Some (Inr (False, s)))
       (\<lambda>(stop, s). Some (Inr (stop, if stop then s else waitForNext nextEvent s)))"

text \<open>One iteration of \<open>while (1)\<close>; the first component says that \<open>start\<close> returns.\<close>

definition startIteration ::
    "'b boost_scheme \<Rightarrow> environment \<Rightarrow> (nat \<Rightarrow> int) \<Rightarrow> running \<Rightarrow> (bool \<times> running) result option" where
  "startIteration B E left s =
     (let (stop, s) = checkDone left s
      in if stop then Some (Inr (True, s))
         else thenRun (Some (workloadNextEventTime B (elapsed s) (nodeConnected (node s)) (workload s) (drawn s)))
           (\<lambda>(nextEvent, W, k).
           processAndWait B E left (if nextEvent > duration W then 0 else nextEvent) (s\<lparr>workload := W, drawn := k\<rparr>)))"

partial_function (option) startLoop ::
    "'b boost_scheme \<Rightarrow> environment \<Rightarrow> (nat \<Rightarrow> int) \<Rightarrow> running \<Rightarrow> running result option" where
  "startLoop B E left s =
     (case startIteration B E left s of
        None \<Rightarrow> None
      | Some (Inl e) \<Rightarrow> Some (Inl e)
      | Some (Inr r) \<Rightarrow> if fst r then Some (Inr (snd r)) else startLoop B E left (snd r))"

declare startLoop.simps [code]

definition start ::
    "'b boost_scheme \<Rightarrow> environment \<Rightarrow> (nat \<Rightarrow> int) \<Rightarrow> DhtperfController \<Rightarrow> DhtperfController result option" where
  "start B E left C =
     (case dhtNode C of
        None \<Rightarrow> Some (Inl UndefinedBehaviour)
      | Some n \<Rightarrow>
          thenRun (startLoop B E left
            \<lparr>node = n, outer = nodeWorld C, workload = profile C, drawn = draws C, readings = 0, elapsed = 0,
             remaining = 0, waits = []\<rparr>)
          (\<lambda>s. Some (Inr (C\<lparr>dhtNode := Some (node s), nodeWorld := outer s, profile := workload s, draws := drawn s\<rparr>))))"

text \<open>How long the timeout thread sleeps: \<open>int toWait = duration + ReportAndFinishTimeout + 10\<close>.\<close>

definition timeoutThreadWait :: "timeUnit \<Rightarrow> int" where
  "timeoutThreadWait d = sint (d + word_of_int ReportAndFinishTimeout + 10)"

section \<open>Reports\<close>

text \<open>\<open>ba::write(socket_, ba::buffer(bits, bits.size()), ba::transfer_all(), error)\<close> with the check of the error.\<close>

definition writeMessage :: "(nat \<Rightarrow> bool) \<Rightarrow> endian \<Rightarrow> Message \<Rightarrow> DhtperfController \<Rightarrow> DhtperfController result" where
  "writeMessage writeFails en m C =
     andThen (toBits en m) (\<lambda>bits.
     andThen (require (\<not> writeFails (writes C)) ExitFailure) (\<lambda>_.
     Inr (C\<lparr>toMaster := toMaster C @ bits, writes := writes C + 1\<rparr>)))"

definition reportResults ::
    "'b boost_scheme \<Rightarrow> (nat \<Rightarrow> bool) \<Rightarrow> endian \<Rightarrow> DhtperfController \<Rightarrow> DhtperfController result" where
  "reportResults B writeFails en C =
     (case dhtNode C of
        None \<Rightarrow> Inl UndefinedBehaviour
      | Some n \<Rightarrow>
          let (joinLatencyString, leaveLatencyString, putLatencyString, getLatencyString,
               joinSuccessRateString, getSuccessRateString) = getResults B n
          in andThen (writeMessage writeFails en (Report ''JoinLatency'' joinLatencyString) C) (\<lambda>C.
             andThen (writeMessage writeFails en (Report ''LeaveLatency'' leaveLatencyString) C) (\<lambda>C.
             andThen (writeMessage writeFails en (Report ''GetLatency'' getLatencyString) C) (\<lambda>C.
             andThen (writeMessage writeFails en (Report ''PutLatency'' putLatencyString) C) (\<lambda>C.
             andThen (writeMessage writeFails en (Report ''JoinSuccessRate'' joinSuccessRateString) C) (\<lambda>C.
             writeMessage writeFails en (Report ''GetSuccessRate'' getSuccessRateString) C))))))"

definition sendFinishMessage :: "(nat \<Rightarrow> bool) \<Rightarrow> endian \<Rightarrow> DhtperfController \<Rightarrow> DhtperfController result" where
  "sendFinishMessage writeFails en C = writeMessage writeFails en Finish C"

definition cleanup :: "DhtperfController \<Rightarrow> DhtperfController" where
  "cleanup C = C\<lparr>dhtNode := None\<rparr>"

text \<open>The timeout thread: how long it sleeps, and how it ends the process.\<close>

definition timeoutThreadFunction :: "DhtperfController \<Rightarrow> int \<times> DhtperfController \<times> failure" where
  "timeoutThreadFunction C = (timeoutThreadWait (duration (profile C)), cleanup C, ExitFailure)"

section \<open>The whole program\<close>

definition newDhtperfController :: "bytes \<Rightarrow> world \<Rightarrow> fileSystem \<Rightarrow> DhtperfController" where
  "newDhtperfController input w fs =
     \<lparr>profile = newControllerWorkloadProfile, dhtNode = None, fromMaster = input, toMaster = [], writes = 0,
      nodeWorld = w, draws = 0, files = fs\<rparr>"

definition run ::
    "'b boost_scheme \<Rightarrow> environment \<Rightarrow> (nat \<Rightarrow> int) \<Rightarrow> (nat \<Rightarrow> bool) \<Rightarrow> endian \<Rightarrow> bool list option
     \<Rightarrow> DhtperfController \<Rightarrow> DhtperfController result option" where
  "run B E left writeFails en resolved C =
     thenRun (Some (connect resolved)) (\<lambda>_.
     thenRun (Some (getDhtType en C)) (\<lambda>C.
     thenRun (Some (Controller_getProfile B en C)) (\<lambda>C.
     thenRun (Some (waitForStartMessage en C)) (\<lambda>C.
     thenRun (start B E left C) (\<lambda>C.
     thenRun (Some (reportResults B writeFails en C)) (\<lambda>C.
     Some (sendFinishMessage writeFails en C)))))))"

section \<open>Reading messages\<close>

lemma getNextMessage_complete:
  assumes "length body = unat (bodySize header)"
  shows "getNextMessage en op (headerBytes en header @ body @ rest) =
    (if opcode header = op then andThen (fromBits en header body) (\<lambda>m. Inr (m, rest)) else Inl ExitFailure)"
  using assms by (simp add: getNextMessage_def headerSize_def Let_def)

lemma getNextMessage_cut:
  assumes "length body \<le> unat (bodySize header)"
  shows "getNextMessage en op (headerBytes en header @ body) =
    (if opcode header = op
     then andThen (fromBits en header (body @ replicate (unat (bodySize header) - length body) (CHR 0x00))) (\<lambda>m. Inr (m, []))
     else Inl ExitFailure)"
  using assms by (simp add: getNextMessage_def headerSize_def Let_def)

lemma sendable_bits:
  assumes "sendable en m"
  shows "toBits en m = Inr (headerBytes en (messageHeader en m) @ bodyBytes en m)"
    and "length (bodyBytes en m) = unat (bodySize (messageHeader en m))"
    and "opcode (messageHeader en m) = messageOpcode m"
    and "fromBits en (messageHeader en m) (bodyBytes en m) = Inr m"
  using fromBits_layout [OF assms] assms
  by (simp_all add: toBits_layout sendable_def messageHeader_def unat_of_nat_u32)

lemma getNextMessage_sent:
  assumes "sendable en m" and "toBits en m = Inr bits" and "messageOpcode m = op"
  shows "getNextMessage en op (bits @ rest) = Inr (m, rest)"
  using getNextMessage_complete [OF sendable_bits(2) [OF assms(1)], where op = op and rest = rest and en = en] sendable_bits [OF assms(1)] assms(2,3)
  by auto

section \<open>The timer\<close>

lemma checkDone_snd:
  "snd (checkDone left s) = s\<lparr>readings := readings s + 1,
     elapsed := duration (workload s) - word_of_int (left (readings s) sdiv 1000000),
     remaining := left (readings s) sdiv 1000000\<rparr>"
  by (simp add: checkDone_def Let_def)

lemma sdiv_million_pos: "0 < (x :: int) sdiv 1000000 \<longleftrightarrow> 1000000 \<le> x"
  by (cases "0 \<le> x") (simp_all add: signed_divide_int_def sgn_if pos_imp_zdiv_pos_iff not_le)

lemma sdiv_million_neg: "x < 1000000 \<Longrightarrow> (x :: int) sdiv 1000000 \<le> 0"
  using sdiv_million_pos [of x] by linarith

text \<open>With less than a second left the function returns.\<close>

lemma checkDone_stops:
  assumes "left (readings s) < 1000000"
  shows "fst (checkDone left s)"
  using sdiv_million_neg [OF assms] by (cases "left (readings s) sdiv 1000000 = 0") (auto simp: checkDone_def Let_def)

text \<open>With a second or more left it does not, and \<open>elapsed\<close> is the time passed, rounded up.\<close>

lemma checkDone_goes_on:
  assumes "1000000 \<le> left (readings s)" and "left (readings s) \<le> int (unat (duration (workload s))) * 1000000"
  shows "\<not> fst (checkDone left s)"
    and "unat (elapsed (snd (checkDone left s))) = unat (duration (workload s)) - nat (left (readings s) div 1000000)"
    and "1 \<le> left (readings s) div 1000000 \<and> nat (left (readings s) div 1000000) \<le> unat (duration (workload s))"
proof -
  let ?d = "duration (workload s)" and ?t = "left (readings s) div 1000000"
  have t: "left (readings s) sdiv 1000000 = ?t"
    using assms(1) by (simp add: signed_divide_int_def sgn_if)
  have pos: "1 \<le> ?t"
    using assms(1) by (simp add: pos_imp_zdiv_pos_iff)
  have le: "?t \<le> int (unat ?d)"
    using zdiv_mono1 [OF assms(2), of 1000000] by simp
  then show bounds: "1 \<le> ?t \<and> nat ?t \<le> unat ?d"
    using pos by linarith
  obtain n where n: "?t = int n"
    using bounds by (metis int_nat_eq zero_le_one order_trans)
  have "unat (word_of_int (int n) :: u32) = n"
    using bounds n unat_u32_bound [of ?d] unat_of_nat_u32 [of n] by simp
  then have w: "unat (word_of_int ?t :: u32) = nat ?t"
    unfolding n by simp
  have sub: "unat (?d - word_of_int ?t) = unat ?d - nat ?t"
    using bounds w unat_sub [of "word_of_int ?t" ?d] by (simp only: word_le_nat_alt)
  show "unat (elapsed (snd (checkDone left s))) = unat ?d - nat ?t"
    by (simp add: checkDone_snd t sub)
  have "unat (?d - word_of_int ?t) < unat ?d"
    using sub bounds by linarith
  then have "\<not> ?d \<le> ?d - word_of_int ?t"
    by (simp add: word_le_nat_alt)
  then show "\<not> fst (checkDone left s)"
    using pos by (simp add: checkDone_def Let_def t)
qed

section \<open>One iteration\<close>

lemma thenRun_Inr_iff: "thenRun m f = Some (Inr y) \<longleftrightarrow> (\<exists>x. m = Some (Inr x) \<and> f x = Some (Inr y))"
  by (auto simp: thenRun_def split: option.splits sum.splits)

lemma thenRun_simps [simp]:
  "thenRun None f = None"
  "thenRun (Some (Inl e)) f = Some (Inl e)"
  "thenRun (Some (Inr x)) f = f x"
  by (simp_all add: thenRun_def)

lemma thenRun_returns:
  assumes "\<exists>r. m = Some r" and "\<And>x. m = Some (Inr x) \<Longrightarrow> \<exists>r. f x = Some r"
  shows "\<exists>r. thenRun m f = Some r"
  using assms by (auto simp: thenRun_def split: option.splits sum.splits)

text \<open>The condition of the macro, for a reading of \<open>t\<close> microseconds.\<close>

definition isDone :: "int \<Rightarrow> timeUnit \<Rightarrow> bool" where
  "isDone t d \<longleftrightarrow> t sdiv 1000000 < 0 \<or> d \<le> d - word_of_int (t sdiv 1000000)"

lemma fst_checkDone: "fst (checkDone left s) \<longleftrightarrow> isDone (left (readings s)) (duration (workload s))"
  by (simp add: checkDone_def isDone_def Let_def)

text \<open>
  Processing a list of events changes the node, its world, the clock readings and nothing else; what
  every single event keeps of the node is kept; and if time is not up, all events are processed.
\<close>

lemma processEvents_result:
  assumes "processEvents process left es s = Some (Inr (stop, s'))" and "I (node s)"
    and "\<And>e n w n' w'. e \<in> set es \<Longrightarrow> process e (n, w) = Some (Inr (n', w')) \<Longrightarrow> I n \<Longrightarrow> I n'"
  shows "I (node s')" and "workload s' = workload s" and "drawn s' = drawn s" and "waits s' = waits s"
    and "readings s \<le> readings s'"
    and "stop \<longrightarrow> (\<exists>i < readings s'. isDone (left i) (duration (workload s)))"
proof -
  have "I (node s') \<and> workload s' = workload s \<and> drawn s' = drawn s \<and> waits s' = waits s \<and> readings s \<le> readings s'
    \<and> (stop \<longrightarrow> (\<exists>i < readings s'. isDone (left i) (duration (workload s))))"
    using assms
  proof (induction es arbitrary: s)
    case (Cons e es)
    from Cons.prems(1) obtain n w where p: "process e (node s, outer s) = Some (Inr (n, w))"
      and rest: "(let (stop, s') = checkDone left (s\<lparr>node := n, outer := w\<rparr>)
       in if stop then Some (Inr (True, s')) else processEvents process left es s') = Some (Inr (stop, s'))"
      by (auto simp: thenRun_Inr_iff)
    let ?s = "s\<lparr>node := n, outer := w\<rparr>"
    let ?c = "snd (checkDone left ?s)"
    have n: "I n"
      using Cons.prems(3) [OF _ p] Cons.prems(2) by simp
    have c: "node ?c = n" "workload ?c = workload s" "drawn ?c = drawn s" "waits ?c = waits s" "readings ?c = readings s + 1"
      by (simp_all add: checkDone_snd)
    show ?case
    proof (cases "fst (checkDone left ?s)")
      case True
      then have "stop" and s': "s' = ?c"
        using rest by (auto simp: split_def Let_def)
      then show ?thesis
        using n c True by (auto simp: fst_checkDone)
    next
      case False
      then have "processEvents process left es ?c = Some (Inr (stop, s'))"
        using rest by (simp add: split_def Let_def)
      moreover have "I n'" if "e' \<in> set es" "process e' (m, w) = Some (Inr (n', w'))" "I m" for e' m w n' w'
        using Cons.prems(3) [OF _ that(2,3)] that(1) by simp
      ultimately show ?thesis
        using Cons.IH [of ?c] n c by auto
    qed
  qed simp
  then show "I (node s')" and "workload s' = workload s" and "drawn s' = drawn s" and "waits s' = waits s"
    and "readings s \<le> readings s'"
    and "stop \<longrightarrow> (\<exists>i < readings s'. isDone (left i) (duration (workload s)))"
    by blast+
qed

text \<open>The invariant of the loop, and what a part of an iteration does to the rest of the state.\<close>

definition runOk :: "backend \<Rightarrow> running \<Rightarrow> bool" where
  "runOk b s \<longleftrightarrow> nodeOk (node s) \<and> backend (node s) = b \<and> workloadOk (workload s)"

definition ranOn :: "(nat \<Rightarrow> int) \<Rightarrow> backend \<Rightarrow> running \<Rightarrow> bool \<Rightarrow> running \<Rightarrow> bool" where
  "ranOn left b s stop s' \<longleftrightarrow> runOk b s' \<and> duration (workload s') = duration (workload s) \<and> readings s \<le> readings s'
     \<and> (stop \<longrightarrow> (\<exists>i < readings s'. isDone (left i) (duration (workload s))))"

lemma ranOn_trans: "ranOn left b s False s1 \<Longrightarrow> ranOn left b s1 stop s2 \<Longrightarrow> ranOn left b s stop s2"
  by (auto simp: ranOn_def)

lemma ranOn_runOk: "ranOn left b s stop s' \<Longrightarrow> runOk b s'"
  by (simp add: ranOn_def)

lemma processEvents_ranOn:
  assumes "processEvents process left es s = Some (Inr (stop, s'))" and "runOk b s"
    and "\<And>e n w n' w'. process e (n, w) = Some (Inr (n', w')) \<Longrightarrow> nodeOk n \<and> backend n = b \<Longrightarrow> nodeOk n' \<and> backend n' = b"
  shows "ranOn left b s stop s'"
proof -
  have "nodeOk (node s) \<and> backend (node s) = b"
    using assms(2) by (simp add: runOk_def)
  note facts = processEvents_result [where I = "\<lambda>n. nodeOk n \<and> backend n = b", OF assms(1) this assms(3)]
  show ?thesis
    using facts assms(2) by (simp add: ranOn_def runOk_def)
qed

lemma node_operations_keep:
  "Some (processPutEvent E e (n, w)) = Some (Inr (n', w')) \<Longrightarrow> nodeOk n \<and> backend n = b \<Longrightarrow> nodeOk n' \<and> backend n' = b"
  "Some (processGetEvent E e (n, w)) = Some (Inr (n', w')) \<Longrightarrow> nodeOk n \<and> backend n = b \<Longrightarrow> nodeOk n' \<and> backend n' = b"
  "Some (processLeaveEvent E (n, w)) = Some (Inr (n', w')) \<Longrightarrow> nodeOk n \<and> backend n = b \<Longrightarrow> nodeOk n' \<and> backend n' = b"
  "processJoinEvent B E (n, w) = Some (Inr (n', w')) \<Longrightarrow> nodeOk n \<and> backend n = b \<Longrightarrow> nodeOk n' \<and> backend n' = b"
proof -
  assume "Some (processPutEvent E e (n, w)) = Some (Inr (n', w'))" and n: "nodeOk n \<and> backend n = b"
  then have "n' = n \<or> n' = n\<lparr>putLatency := pushMeasured E (ticks w) (putLatency n)\<rparr>"
    using processPutEvent_node by blast
  then show "nodeOk n' \<and> backend n' = b"
    using n by (auto simp: nodeOk_defs)
next
  assume "Some (processGetEvent E e (n, w)) = Some (Inr (n', w'))" and n: "nodeOk n \<and> backend n = b"
  then have "processGetEvent E e (n, w) = Inr (n', w')"
    by blast
  from processGetEvent_node [OF this] n show "nodeOk n' \<and> backend n' = b"
    by (auto simp: nodeOk_defs)
next
  assume "Some (processLeaveEvent E (n, w)) = Some (Inr (n', w'))" and n: "nodeOk n \<and> backend n = b"
  then have "processLeaveEvent E (n, w) = Inr (n', w')"
    by blast
  from processLeaveEvent_node [OF this] obtain n1 where n1: "sameButKaddemo n n1"
    and n': "n' = n1\<lparr>leaveLatency := pushMeasured E (ticks w) (leaveLatency n1), nodeConnected := False\<rparr>"
    by blast
  show "nodeOk n' \<and> backend n' = b"
    using sameButKaddemo_fields [OF n1] n by (simp add: n' nodeOk_defs)
next
  assume p: "processJoinEvent B E (n, w) = Some (Inr (n', w'))" and n: "nodeOk n \<and> backend n = b"
  then obtain n1 where "joinLoop B E (n, w) = Some (Inr (n1, w'))" and "n' = n1\<lparr>nodeConnected := True\<rparr>"
    by (auto simp: processJoinEvent_def andThen_Inr_iff split: if_splits)
  then have "nodeOk n'"
    using joinLoop_ok [of B E "(n, w)" "(n1, w')"] n by (simp add: nodeOk_defs)
  then show "nodeOk n' \<and> backend n' = b"
    using processJoinEvent_backend [OF p] n by simp
qed

lemma dueEvents_ranOn:
  assumes "dueEvents op now s = Inr (es, s')" and "runOk b s"
  shows "ranOn left b s False s'" and "s' = s\<lparr>workload := workload s'\<rparr>"
proof -
  obtain W where e: "eventsFor op now (workload s) = Inr (es, W)" and s': "s' = s\<lparr>workload := W\<rparr>"
    using assms(1) by (auto simp: dueEvents_def andThen_Inr_iff)
  show "ranOn left b s False s'"
    using eventsFor_ok [OF e] assms(2) by (simp add: ranOn_def runOk_def s')
  show "s' = s\<lparr>workload := workload s'\<rparr>"
    by (simp add: s')
qed

text \<open>Sequencing in \<open>processDue\<close>: taking the due events, and going on unless time is up.\<close>

lemma dueEvents_then:
  assumes "thenRun (Some (dueEvents op now s)) (\<lambda>(es, s1). f es s1) = Some (Inr (stop, s'))" and "runOk b s"
    and "\<And>es s1. dueEvents op now s = Inr (es, s1) \<Longrightarrow> runOk b s1 \<Longrightarrow> f es s1 = Some (Inr (stop, s')) \<Longrightarrow> ranOn left b s1 stop s'"
  shows "ranOn left b s stop s'"
proof -
  obtain es s1 where due: "dueEvents op now s = Inr (es, s1)" and rest: "f es s1 = Some (Inr (stop, s'))"
    using assms(1) by (auto simp: thenRun_Inr_iff)
  have r1: "ranOn left b s False s1"
    using dueEvents_ranOn(1) [OF due assms(2)] .
  show ?thesis
    by (rule ranOn_trans [OF r1 assms(3) [OF due ranOn_runOk [OF r1] rest]])
qed

lemma unless_done_then:
  assumes "thenRun m (\<lambda>(stop, s). if stop then Some (Inr (True, s)) else f s) = Some (Inr (stop, s'))"
    and "\<And>stop s1. m = Some (Inr (stop, s1)) \<Longrightarrow> ranOn left b s stop s1"
    and "\<And>s1. runOk b s1 \<Longrightarrow> f s1 = Some (Inr (stop, s')) \<Longrightarrow> ranOn left b s1 stop s'"
  shows "ranOn left b s stop s'"
proof -
  obtain stop1 s1 where m: "m = Some (Inr (stop1, s1))"
    and rest: "(if stop1 then Some (Inr (True, s1)) else f s1) = Some (Inr (stop, s'))"
    using assms(1) by (auto simp: thenRun_Inr_iff)
  have r1: "ranOn left b s stop1 s1"
    using assms(2) [OF m] .
  show ?thesis
  proof (cases stop1)
    case True
    then show ?thesis using rest r1 by simp
  next
    case False
    then have "ranOn left b s False s1" and "ranOn left b s1 stop s'"
      using r1 assms(3) [OF ranOn_runOk [OF r1]] rest by simp_all
    then show ?thesis
      by (rule ranOn_trans)
  qed
qed

lemma processDue_ranOn:
  assumes "processDue B E left s = Some (Inr (stop, s'))" and "runOk b s"
  shows "ranOn left b s stop s'"
proof (cases "nodeConnected (node s)")
  case True
  note due = assms(1) [unfolded processDue_def if_P [OF True]]
  show ?thesis
    apply (rule dueEvents_then [OF due assms(2)])
    apply (erule dueEvents_then, assumption)
    apply (erule dueEvents_then, assumption)
    apply (erule unless_done_then)
     apply (erule processEvents_ranOn, assumption, erule node_operations_keep(1), assumption)
    apply (erule unless_done_then)
     apply (erule processEvents_ranOn, assumption, erule node_operations_keep(2), assumption)
    apply (erule processEvents_ranOn, assumption, erule node_operations_keep(3), assumption)
    done
next
  case False
  note due = assms(1) [unfolded processDue_def if_not_P [OF False]]
  show ?thesis
    by (rule dueEvents_then [OF due assms(2)])
      (erule processEvents_ranOn, assumption, erule node_operations_keep(4), assumption)
qed

lemma processAndWait_ranOn:
  assumes "processAndWait B E left nextEvent s = Some (Inr (stop, s'))" and "runOk b s"
  shows "ranOn left b s stop s'"
proof -
  obtain s1 where due: "(if elapsed s \<ge> nextEvent \<and> nextEvent \<noteq> 0 then processDue B E left s else Some (Inr (False, s)))
        = Some (Inr (stop, s1))"
    and s': "s' = (if stop then s1 else waitForNext nextEvent s1)"
    using assms(1) by (auto simp: processAndWait_def thenRun_Inr_iff)
  have "ranOn left b s stop s1"
  proof (cases "elapsed s \<ge> nextEvent \<and> nextEvent \<noteq> 0")
    case True
    then show ?thesis using processDue_ranOn [OF _ assms(2)] due by simp
  next
    case False
    then have "\<not> stop" and "s1 = s"
      unfolding due [symmetric, unfolded if_not_P [OF False]] using due by auto
    then show ?thesis using assms(2) by (simp add: ranOn_def)
  qed
  then show ?thesis
    by (auto simp: s' ranOn_def runOk_def waitForNext_def)
qed

text \<open>An iteration reads the timer at least once, so it brings the loop closer to its end.\<close>

lemma startIteration_ranOn:
  assumes "startIteration B E left s = Some (Inr (stop, s'))" and "runOk b s"
  shows "ranOn left b s stop s' \<and> readings s < readings s'"
proof -
  obtain stop1 c where cd: "checkDone left s = (stop1, c)"
    by (cases "checkDone left s")
  then have stop1: "stop1 \<longleftrightarrow> isDone (left (readings s)) (duration (workload s))"
    and c: "c = s\<lparr>readings := readings s + 1, elapsed := elapsed c, remaining := remaining c\<rparr>"
    using fst_checkDone [of left s] checkDone_snd [of left s] by simp_all
  have rc: "ranOn left b s stop1 c" and r: "readings c = readings s + 1"
    unfolding stop1 by (subst c, use assms(2) in \<open>auto simp: ranOn_def runOk_def\<close>)+
  show ?thesis
  proof (cases stop1)
    case True
    then have "stop" and "s' = c"
      using assms(1) cd by (auto simp: startIteration_def)
    with rc r True show ?thesis by simp
  next
    case False
    then obtain next' W k where w: "workloadNextEventTime B (elapsed c) (nodeConnected (node c)) (workload c) (drawn c) = Inr (next', W, k)"
      and rest: "processAndWait B E left (if next' > duration W then 0 else next') (c\<lparr>workload := W, drawn := k\<rparr>)
         = Some (Inr (stop, s'))"
      using assms(1) cd by (auto simp: startIteration_def thenRun_Inr_iff)
    have "workloadOk W \<and> duration W = duration (workload s)"
      using workloadNextEventTime_ok [OF _ w] rc by (simp add: ranOn_def runOk_def)
    then have c1: "ranOn left b s False (c\<lparr>workload := W, drawn := k\<rparr>)"
      using rc by (simp add: ranOn_def runOk_def)
    have "ranOn left b (c\<lparr>workload := W, drawn := k\<rparr>) stop s'"
      using processAndWait_ranOn [OF rest ranOn_runOk [OF c1]] .
    then show ?thesis
      using ranOn_trans [OF c1] r by (auto simp: ranOn_def)
  qed
qed

section \<open>The loop\<close>

lemma startLoop_result:
  assumes "startLoop B E left s = Some (Inr s')" and "runOk b s"
  shows "ranOn left b s True s'"
proof -
  let ?P = "\<lambda>B' E' left' (s :: running) (r :: running result).
    left' = left \<longrightarrow> runOk b s \<longrightarrow> (\<forall>s'. r = Inr s' \<longrightarrow> ranOn left b s True s')"
  have "?P B E left s (Inr s')"
  proof (rule startLoop.raw_induct [where P = ?P, OF _ assms(1)])
    fix loop :: "'a boost_scheme \<Rightarrow> environment \<Rightarrow> (nat \<Rightarrow> int) \<Rightarrow> running \<Rightarrow> running result option"
      and B' :: "'a boost_scheme" and E' left' s y
    assume IH: "\<And>B E left s y. loop B E left s = Some y \<Longrightarrow> ?P B E left s y"
      and step: "(case startIteration B' E' left' s of None \<Rightarrow> None | Some (Inl e) \<Rightarrow> Some (Inl e)
        | Some (Inr r) \<Rightarrow> if fst r then Some (Inr (snd r)) else loop B' E' left' (snd r)) = Some y"
    show "?P B' E' left' s y"
    proof (intro impI allI)
      fix s' assume eq: "left' = left" and ok: "runOk b s" and y: "y = Inr s'"
      obtain stop s1 where it: "startIteration B' E' left' s = Some (Inr (stop, s1))"
        and rest: "(if stop then Some (Inr s1) else loop B' E' left' s1) = Some y"
        using step y by (cases "startIteration B' E' left' s") (auto split: sum.splits, metis fst_conv snd_conv)
      have r1: "ranOn left b s stop s1"
        using startIteration_ranOn [OF it ok] eq by simp
      show "ranOn left b s True s'"
      proof (cases stop)
        case True
        then show ?thesis using r1 rest y by simp
      next
        case False
        then have "loop B' E' left' s1 = Some y"
          using rest by simp
        from IH [OF this] eq ranOn_runOk [OF r1] y have "ranOn left b s1 True s'"
          by blast
        then show ?thesis
          using r1 False ranOn_trans by simp
      qed
    qed
  qed
  then show ?thesis using assms(2) by simp
qed

text \<open>What \<open>start\<close> keeps, if it returns, and that the end of the duration was seen.\<close>

lemma start_result:
  assumes "start B E left C = Some (Inr C')" and "dhtNode C = Some n" and "nodeOk n" and "workloadOk (profile C)"
  shows "\<exists>n'. dhtNode C' = Some n' \<and> nodeOk n' \<and> backend n' = backend n"
    and "workloadOk (profile C')" and "duration (profile C') = duration (profile C)"
    and "toMaster C' = toMaster C" and "fromMaster C' = fromMaster C"
    and "\<exists>i. isDone (left i) (duration (profile C))"
proof -
  let ?s = "\<lparr>node = n, outer = nodeWorld C, workload = profile C, drawn = draws C, readings = 0, elapsed = 0,
             remaining = 0, waits = []\<rparr>"
  obtain s' where loop: "startLoop B E left ?s = Some (Inr s')"
    and C': "C' = C\<lparr>dhtNode := Some (node s'), nodeWorld := outer s', profile := workload s', draws := drawn s'\<rparr>"
    using assms(1) by (auto simp: start_def assms(2) thenRun_Inr_iff)
  have "runOk (backend n) ?s"
    using assms(3,4) by (simp add: runOk_def)
  from startLoop_result [OF loop this]
  have "runOk (backend n) s'" "duration (workload s') = duration (profile C)" "\<exists>i. isDone (left i) (duration (profile C))"
    by (auto simp: ranOn_def)
  then show "\<exists>n'. dhtNode C' = Some n' \<and> nodeOk n' \<and> backend n' = backend n"
    and "workloadOk (profile C')" and "duration (profile C') = duration (profile C)"
    and "toMaster C' = toMaster C" and "fromMaster C' = fromMaster C"
    and "\<exists>i. isDone (left i) (duration (profile C))"
    by (simp_all add: C' runOk_def)
qed

text \<open>Iterations return when joins do.\<close>

lemma processEvents_returns:
  assumes "runOk b s" and "\<And>e n w. backend n = b \<Longrightarrow> \<exists>r. process e (n, w) = Some r"
    and "\<And>e n w n' w'. process e (n, w) = Some (Inr (n', w')) \<Longrightarrow> nodeOk n \<and> backend n = b \<Longrightarrow> nodeOk n' \<and> backend n' = b"
  shows "\<exists>r. processEvents process left es s = Some r"
  using assms(1)
proof (induction es arbitrary: s)
  case (Cons e es)
  have b: "nodeOk (node s) \<and> backend (node s) = b" and W: "workloadOk (workload s)"
    using Cons.prems by (simp_all add: runOk_def)
  show ?case
    unfolding processEvents.simps
  proof (rule thenRun_returns)
    show "\<exists>r. process e (node s, outer s) = Some r"
      using assms(2) b by blast
    fix x assume p: "process e (node s, outer s) = Some (Inr x)"
    obtain n w where x: "x = (n, w)" by fastforce
    have n: "nodeOk n \<and> backend n = b"
      using assms(3) [OF p [unfolded x] b] .
    then have ok: "runOk b (snd (checkDone left (s\<lparr>node := n, outer := w\<rparr>)))"
      using W by (simp add: runOk_def checkDone_snd)
    show "\<exists>r. (case x of (n, w) \<Rightarrow> let (stop, s') = checkDone left (s\<lparr>node := n, outer := w\<rparr>)
        in if stop then Some (Inr (True, s')) else processEvents process left es s') = Some r"
      using Cons.IH [OF ok] by (simp add: x Let_def split_def)
  qed
qed simp

lemma dueEvents_then_returns:
  assumes "runOk b s" and "\<And>es s1. runOk b s1 \<Longrightarrow> \<exists>r. f es s1 = Some r"
  shows "\<exists>r. thenRun (Some (dueEvents op now s)) (\<lambda>(es, s1). f es s1) = Some r"
proof (rule thenRun_returns)
  fix x assume "Some (dueEvents op now s) = Some (Inr x)"
  then have "runOk b (snd x)"
    using dueEvents_ranOn(1) [OF _ assms(1), of op now "fst x" "snd x"] ranOn_runOk by simp blast
  then show "\<exists>r. (case x of (es, s1) \<Rightarrow> f es s1) = Some r"
    using assms(2) by (simp add: split_def)
qed simp

lemma unless_done_then_returns:
  assumes "\<exists>r. m = Some r" and "\<And>stop s1. m = Some (Inr (stop, s1)) \<Longrightarrow> runOk b s1"
    and "\<And>s1. runOk b s1 \<Longrightarrow> \<exists>r. f s1 = Some r"
  shows "\<exists>r. thenRun m (\<lambda>(stop, s). if stop then Some (Inr (True, s)) else f s) = Some r"
  using assms(1) by (rule thenRun_returns) (use assms(2,3) in \<open>auto split: prod.splits\<close>)

lemma processDue_returns:
  assumes "runOk b s" and "b \<in> {DummyDht, KaddemoWrapper}"
  shows "\<exists>r. processDue B E left s = Some r"
proof -
  note keep = ranOn_runOk [OF processEvents_ranOn]
  have put: "runOk b s \<Longrightarrow> \<exists>r. processEvents (\<lambda>e st. Some (processPutEvent E e st)) left es s = Some r" for es s
    by (erule processEvents_returns) (simp, erule node_operations_keep(1))
  have get: "runOk b s \<Longrightarrow> \<exists>r. processEvents (\<lambda>e st. Some (processGetEvent E e st)) left es s = Some r" for es s
    by (erule processEvents_returns) (simp, erule node_operations_keep(2))
  have leave: "runOk b s \<Longrightarrow> \<exists>r. processEvents (\<lambda>e st. Some (processLeaveEvent E st)) left es s = Some r" for es s
    by (erule processEvents_returns) (simp, erule node_operations_keep(3))
  have join: "runOk b s \<Longrightarrow> \<exists>r. processEvents (\<lambda>e st. processJoinEvent B E st) left es s = Some r" for es s
    by (erule processEvents_returns) (use assms(2) processJoinEvent_returns in blast, erule node_operations_keep(4))
  show ?thesis
  proof (cases "nodeConnected (node s)")
    case True
    show ?thesis
      unfolding processDue_def if_P [OF True]
      apply (rule dueEvents_then_returns [OF assms(1)])
      apply (erule dueEvents_then_returns)
      apply (erule dueEvents_then_returns)
      apply (rule unless_done_then_returns, erule put, erule (1) keep, erule node_operations_keep(1), assumption)
      apply (rule unless_done_then_returns, erule get, erule (1) keep, erule node_operations_keep(2), assumption)
      apply (erule leave)
      done
  next
    case False
    show ?thesis
      unfolding processDue_def if_not_P [OF False]
      by (rule dueEvents_then_returns [OF assms(1)]) (erule join)
  qed
qed

lemma processAndWait_returns:
  assumes "runOk b s" and "b \<in> {DummyDht, KaddemoWrapper}"
  shows "\<exists>r. processAndWait B E left nextEvent s = Some r"
  unfolding processAndWait_def
  by (rule thenRun_returns) (use processDue_returns [OF assms] in auto)

lemma startIteration_returns:
  assumes "runOk b s" and "b \<in> {DummyDht, KaddemoWrapper}"
  shows "\<exists>r. startIteration B E left s = Some r"
proof -
  obtain stop c where cd: "checkDone left s = (stop, c)"
    by (cases "checkDone left s")
  have c: "runOk b c"
    using assms(1) checkDone_snd [of left s] by (simp add: runOk_def cd)
  have "\<exists>r. thenRun (Some (workloadNextEventTime B (elapsed c) (nodeConnected (node c)) (workload c) (drawn c)))
      (\<lambda>(nextEvent, W, k). processAndWait B E left (if nextEvent > duration W then 0 else nextEvent)
         (c\<lparr>workload := W, drawn := k\<rparr>)) = Some r"
  proof (rule thenRun_returns)
    fix x assume x: "Some (workloadNextEventTime B (elapsed c) (nodeConnected (node c)) (workload c) (drawn c)) = Some (Inr x)"
    obtain n W k where n: "x = (n, W, k)"
      by (cases x)
    with x have w: "workloadNextEventTime B (elapsed c) (nodeConnected (node c)) (workload c) (drawn c) = Inr (n, W, k)"
      by simp
    have ok: "runOk b (c\<lparr>workload := W, drawn := k\<rparr>)"
      using c workloadNextEventTime_ok [OF _ w] by (simp add: runOk_def)
    show "\<exists>r. (case x of (nextEvent, W, k) \<Rightarrow> processAndWait B E left (if nextEvent > duration W then 0 else nextEvent)
         (c\<lparr>workload := W, drawn := k\<rparr>)) = Some r"
      unfolding n prod.case by (rule processAndWait_returns [OF ok assms(2)])
  qed simp
  then show ?thesis
    by (simp add: startIteration_def cd)
qed

lemma startLoop_returns:
  assumes "runOk b s" and "b \<in> {DummyDht, KaddemoWrapper}" and "\<And>j. m \<le> j \<Longrightarrow> left j < 1000000"
  shows "\<exists>r. startLoop B E left s = Some r"
  using assms(1)
proof (induction "m - readings s" arbitrary: s rule: less_induct)
  case less
  obtain r where it: "startIteration B E left s = Some r"
    using startIteration_returns [OF less.prems assms(2)] by blast
  show ?case
  proof (cases r)
    case (Inl e)
    then show ?thesis by (subst startLoop.simps) (simp add: it)
  next
    case (Inr x)
    obtain stop s1 where x: "x = (stop, s1)" by fastforce
    have r1: "ranOn left b s stop s1" "readings s < readings s1"
      using startIteration_ranOn [OF it [unfolded Inr x] less.prems] by simp_all
    have "\<exists>r. startLoop B E left s1 = Some r" if "\<not> stop"
    proof -
      have "\<not> m \<le> readings s"
      proof
        assume "m \<le> readings s"
        then have "fst (checkDone left s)"
          using assms(3) checkDone_stops by blast
        then have "startIteration B E left s = Some (Inr (True, snd (checkDone left s)))"
          by (simp add: startIteration_def split_def Let_def)
        with it Inr x that show False by simp
      qed
      then show ?thesis
        using less.hyps [OF _ ranOn_runOk [OF r1(1)]] r1(2) by simp
    qed
    then show ?thesis
      by (subst startLoop.simps) (simp add: it Inr x)
  qed
qed

section \<open>Every due event is processed once\<close>

definition dueCount :: "DhtOperation \<Rightarrow> running \<Rightarrow> nat" where
  "dueCount op s = size (filter_mset (\<lambda>e. time e \<le> elapsed s) (pendingOf op (workload s)))"

definition laterThan :: "timeUnit \<Rightarrow> DhtEvent multiset \<Rightarrow> DhtEvent multiset" where
  "laterThan t M = filter_mset (\<lambda>e. t < time e) M"

lemma dueEvents_count:
  assumes "dueEvents op now s = Inr (es, s')" and "workloadOk (workload s)" and "now = elapsed s"
  shows "length es = dueCount op s" and "node s' = node s" and "elapsed s' = elapsed s" and "workloadOk (workload s')"
    and "pendingOf op' (workload s') = (if op' = op then laterThan now (pendingOf op (workload s)) else pendingOf op' (workload s))"
    and "op' \<noteq> op \<Longrightarrow> dueCount op' s' = dueCount op' s"
proof -
  obtain W where e: "eventsFor op now (workload s) = Inr (es, W)" and s': "s' = s\<lparr>workload := W\<rparr>"
    using assms(1) by (auto simp: dueEvents_def andThen_Inr_iff)
  note p = eventsFor_pending [OF e assms(2)]
  show "node s' = node s" "elapsed s' = elapsed s" by (simp_all add: s')
  show "workloadOk (workload s')" using eventsFor_ok [OF e assms(2)] by (simp add: s')
  show "length es = dueCount op s"
    using p(1) by (metis assms(3) dueCount_def size_mset)
  show "pendingOf op' (workload s') = (if op' = op then laterThan now (pendingOf op (workload s)) else pendingOf op' (workload s))"
    using p(2) [of op'] by (simp add: s' laterThan_def)
  then show "op' \<noteq> op \<Longrightarrow> dueCount op' s' = dueCount op' s"
    by (simp add: dueCount_def s')
qed

lemma processEvents_count:
  assumes "processEvents process left es s = Some (Inr (False, s'))" and "I (node s)"
    and "\<And>e n w n' w'. process e (n, w) = Some (Inr (n', w')) \<Longrightarrow> I n \<Longrightarrow> I n' \<and> m n' = (m n :: u64) + 1"
  shows "I (node s') \<and> m (node s') = m (node s) + of_nat (length es)"
  using assms(1,2)
proof (induction es arbitrary: s)
  case (Cons e es)
  from Cons.prems(1) obtain n w where p: "process e (node s, outer s) = Some (Inr (n, w))"
    and rest: "(let (stop, s') = checkDone left (s\<lparr>node := n, outer := w\<rparr>)
       in if stop then Some (Inr (True, s')) else processEvents process left es s') = Some (Inr (False, s'))"
    by (auto simp: thenRun_Inr_iff)
  let ?c = "snd (checkDone left (s\<lparr>node := n, outer := w\<rparr>))"
  have n: "I (node ?c)" "m (node ?c) = m (node s) + 1"
    using assms(3) [OF p Cons.prems(2)] by (simp_all add: checkDone_snd)
  have "processEvents process left es ?c = Some (Inr (False, s'))"
    using rest by (simp add: split_def Let_def split: if_splits)
  from Cons.IH [OF this n(1)] n(2) show ?case by simp
qed simp

text \<open>One event of each kind on a connected node.\<close>

lemma put_counted:
  assumes "Some (processPutEvent E e (n, w)) = Some (Inr (n', w'))"
    and "nodeConnected n \<and> (getLatency n, leaveLatency n) = c"
  shows "(nodeConnected n' \<and> (getLatency n', leaveLatency n') = c)
    \<and> NodeLatency_count (putLatency n') = NodeLatency_count (putLatency n) + 1"
proof -
  have "processPutEvent E e (n, w) = Inr (n', w')"
    using assms(1) by blast
  then have "n' = n\<lparr>putLatency := pushMeasured E (ticks w) (putLatency n)\<rparr>"
    using assms(2) unfolding processPutEvent_def by (auto simp: andThen_Inr_iff simp del: counts_step)
  then show ?thesis using assms(2) by simp
qed

lemma get_counted:
  assumes "Some (processGetEvent E e (n, w)) = Some (Inr (n', w'))"
    and "nodeConnected n \<and> (putLatency n, leaveLatency n) = c"
  shows "(nodeConnected n' \<and> (putLatency n', leaveLatency n') = c)
    \<and> NodeLatency_count (getLatency n') = NodeLatency_count (getLatency n) + 1"
proof -
  have "processGetEvent E e (n, w) = Inr (n', w')"
    using assms(1) by blast
  then obtain R where "n' = n\<lparr>getSuccessRate := R, getLatency := pushMeasured E (ticks w) (getLatency n)\<rparr>"
    using assms(2) unfolding processGetEvent_def by (auto simp: andThen_Inr_iff Let_def simp del: counts_step)
  then show ?thesis using assms(2) by simp
qed

text \<open>Of several leaves only the first finds a connected node, of several joins a disconnected one.\<close>

lemma processEvents_leaves:
  assumes "processEvents (\<lambda>e st. Some (processLeaveEvent E st)) left es s = Some (Inr (False, s'))" and "nodeConnected (node s)"
  shows "length es \<le> 1 \<and> (nodeConnected (node s') \<longleftrightarrow> es = [])
    \<and> (putLatency (node s'), getLatency (node s')) = (putLatency (node s), getLatency (node s))
    \<and> NodeLatency_count (leaveLatency (node s')) = NodeLatency_count (leaveLatency (node s)) + of_nat (length es)"
proof (cases es)
  case (Cons e es')
  then obtain n w where p: "processLeaveEvent E (node s, outer s) = Inr (n, w)"
    and rest: "processEvents (\<lambda>e st. Some (processLeaveEvent E st)) left es' (snd (checkDone left (s\<lparr>node := n, outer := w\<rparr>)))
       = Some (Inr (False, s'))"
    using assms(1) by (auto simp: thenRun_Inr_iff split_def Let_def split: if_splits)
  obtain n1 where n1: "sameButKaddemo (node s) n1"
    and n: "n = n1\<lparr>leaveLatency := pushMeasured E (ticks (outer s)) (leaveLatency n1), nodeConnected := False\<rparr>"
    using processLeaveEvent_node [OF p] by blast
  have "es' = []"
  proof (cases es')
    case (Cons e' es'')
    then show ?thesis
      using rest by (simp add: checkDone_snd n processLeaveEvent_def)
  qed simp
  with rest have "s' = snd (checkDone left (s\<lparr>node := n, outer := w\<rparr>))"
    by simp
  then show ?thesis
    using Cons \<open>es' = []\<close> sameButKaddemo_fields [OF n1] by (simp add: checkDone_snd n)
qed (use assms in simp)

lemma processEvents_joins:
  assumes "processEvents (\<lambda>e st. processJoinEvent B E st) left es s = Some (Inr (False, s'))" and "\<not> nodeConnected (node s)"
  shows "length es \<le> 1 \<and> (nodeConnected (node s') \<longleftrightarrow> es \<noteq> [])"
proof (cases es)
  case (Cons e es')
  then obtain n w where p: "processJoinEvent B E (node s, outer s) = Some (Inr (n, w))"
    and rest: "processEvents (\<lambda>e st. processJoinEvent B E st) left es' (snd (checkDone left (s\<lparr>node := n, outer := w\<rparr>)))
       = Some (Inr (False, s'))"
    using assms(1) by (auto simp: thenRun_Inr_iff split_def Let_def split: if_splits)
  have n: "nodeConnected n"
    using p assms(2) by (auto simp: processJoinEvent_def andThen_Inr_iff)
  have "es' = []"
  proof (cases es')
    case (Cons e' es'')
    then show ?thesis
      using rest by (simp add: checkDone_snd n processJoinEvent_def)
  qed simp
  with rest have "s' = snd (checkDone left (s\<lparr>node := n, outer := w\<rparr>))"
    by simp
  then show ?thesis
    using Cons \<open>es' = []\<close> by (simp add: checkDone_snd n)
qed (use assms in simp)

lemma processDue_connected:
  assumes "processDue B E left s = Some (Inr (False, s'))" and "workloadOk (workload s)" and "nodeConnected (node s)"
  shows "NodeLatency_count (putLatency (node s')) = NodeLatency_count (putLatency (node s)) + of_nat (dueCount Put s)"
    and "NodeLatency_count (getLatency (node s')) = NodeLatency_count (getLatency (node s)) + of_nat (dueCount Get s)"
    and "NodeLatency_count (leaveLatency (node s')) = NodeLatency_count (leaveLatency (node s)) + of_nat (dueCount Leave s)"
    and "dueCount Leave s \<le> 1 \<and> (nodeConnected (node s') \<longleftrightarrow> dueCount Leave s = 0)"
    and "op \<noteq> Join \<Longrightarrow> pendingOf op (workload s') = laterThan (elapsed s) (pendingOf op (workload s))"
proof -
  obtain ps s1 gs s2 ls s3 s4 s5 where due: "dueEvents Put (elapsed s) s = Inr (ps, s1)"
      "dueEvents Get (elapsed s1) s1 = Inr (gs, s2)" "dueEvents Leave (elapsed s2) s2 = Inr (ls, s3)"
    and puts: "processEvents (\<lambda>e st. Some (processPutEvent E e st)) left ps s3 = Some (Inr (False, s4))"
    and gets: "processEvents (\<lambda>e st. Some (processGetEvent E e st)) left gs s4 = Some (Inr (False, s5))"
    and leaves: "processEvents (\<lambda>e st. Some (processLeaveEvent E st)) left ls s5 = Some (Inr (False, s'))"
    using assms(1,3) by (auto simp: processDue_def thenRun_Inr_iff split: if_splits)
  note d1 = dueEvents_count [OF due(1) assms(2) refl]
  note d2 = dueEvents_count [OF due(2) d1(4) refl]
  note d3 = dueEvents_count [OF due(3) d2(4) refl]
  have len: "length ps = dueCount Put s" "length gs = dueCount Get s" "length ls = dueCount Leave s"
    using d1(1,6) d2(1,6) d3(1) by simp_all
  have c3: "node s3 = node s"
    using d1(2) d2(2) d3(2) by simp
  have p: "(nodeConnected (node s4) \<and> (getLatency (node s4), leaveLatency (node s4)) = (getLatency (node s3), leaveLatency (node s3)))
      \<and> NodeLatency_count (putLatency (node s4)) = NodeLatency_count (putLatency (node s3)) + of_nat (length ps)"
    by (rule processEvents_count [OF puts _ put_counted]) (use assms(3) c3 in simp_all)
  have g: "(nodeConnected (node s5) \<and> (putLatency (node s5), leaveLatency (node s5)) = (putLatency (node s4), leaveLatency (node s4)))
      \<and> NodeLatency_count (getLatency (node s5)) = NodeLatency_count (getLatency (node s4)) + of_nat (length gs)"
    by (rule processEvents_count [OF gets _ get_counted]) (use p in simp_all)
  note l = processEvents_leaves [OF leaves]
  show "NodeLatency_count (putLatency (node s')) = NodeLatency_count (putLatency (node s)) + of_nat (dueCount Put s)"
    and "NodeLatency_count (getLatency (node s')) = NodeLatency_count (getLatency (node s)) + of_nat (dueCount Get s)"
    and "NodeLatency_count (leaveLatency (node s')) = NodeLatency_count (leaveLatency (node s)) + of_nat (dueCount Leave s)"
    and "dueCount Leave s \<le> 1 \<and> (nodeConnected (node s') \<longleftrightarrow> dueCount Leave s = 0)"
    using p g l c3 len by auto
  have "workload s' = workload s3"
    using processEvents_result(2) [OF puts TrueI] processEvents_result(2) [OF gets TrueI]
      processEvents_result(2) [OF leaves TrueI] by simp
  then show "op \<noteq> Join \<Longrightarrow> pendingOf op (workload s') = laterThan (elapsed s) (pendingOf op (workload s))"
    using d1(3,5) d2(3,5) d3(3,5) by (cases op) simp_all
qed

lemma processDue_disconnected:
  assumes "processDue B E left s = Some (Inr (False, s'))" and "workloadOk (workload s)" and "\<not> nodeConnected (node s)"
  shows "dueCount Join s \<le> 1 \<and> (nodeConnected (node s') \<longleftrightarrow> dueCount Join s = 1)"
    and "pendingOf Join (workload s') = laterThan (elapsed s) (pendingOf Join (workload s))"
proof -
  obtain js s1 where due: "dueEvents Join (elapsed s) s = Inr (js, s1)"
    and joins: "processEvents (\<lambda>e st. processJoinEvent B E st) left js s1 = Some (Inr (False, s'))"
    using assms(1,3) by (auto simp: processDue_def thenRun_Inr_iff split: if_splits)
  note d = dueEvents_count [OF due assms(2) refl]
  show "dueCount Join s \<le> 1 \<and> (nodeConnected (node s') \<longleftrightarrow> dueCount Join s = 1)"
    using processEvents_joins [OF joins] d(1,2) assms(3) by (cases js) auto
  show "pendingOf Join (workload s') = laterThan (elapsed s) (pendingOf Join (workload s))"
    using processEvents_result(2) [OF joins TrueI] d(5) [of Join] by simp
qed

lemma two_joins:
  assumes "processJoinEvent B E (node s, outer s) = Some (Inr (n, w))" and "2 \<le> length es"
    and "\<not> isDone (left (readings s)) (duration (workload s))"
  shows "processEvents (\<lambda>e st. processJoinEvent B E st) left es s = Some (Inl ExitFailure)"
proof -
  obtain e1 e2 es' where es: "es = e1 # e2 # es'"
    using assms(2) by (metis Suc_le_length_iff numeral_2_eq_2)
  have "nodeConnected n"
    using assms(1) by (auto simp: processJoinEvent_def andThen_Inr_iff split: if_splits)
  then show ?thesis
    using assms(1,3) fst_checkDone [of left "s\<lparr>node := n, outer := w\<rparr>"]
    by (simp add: es split_def Let_def checkDone_snd processJoinEvent_def)
qed

section \<open>A workload without events\<close>

definition emptyProfile :: "DhtOperation \<Rightarrow> EventProfile" where
  "emptyProfile op = \<lparr>eventType = op, impl = NoneProfile, eventQueue = EventQueue_empty\<rparr>"

definition quietWorkload :: "timeUnit \<Rightarrow> ControllerWorkloadProfile" where
  "quietWorkload d =
     \<lparr>joinProfile = Some (emptyProfile Join), leaveProfile = Some (emptyProfile Leave),
      putProfile = Some (emptyProfile Put), getProfile = Some (emptyProfile Get), duration = d\<rparr>"

definition quietWorld :: world where
  "quietWorld = \<lparr>childOutputs = [], incoming = [], sent = [], commands = [], ticks = 0\<rparr>"

definition quietController :: "timeUnit \<Rightarrow> DhtperfController" where
  "quietController d = (newDhtperfController [] quietWorld \<lparr>entryAt = (\<lambda>p. None), statDenied = (\<lambda>p. False), mkdirDenied = (\<lambda>p. False),
       chdirDenied = (\<lambda>p. False), setpgidDenied = False, workingDirectory = [], leadsGroup = False\<rparr>)
     \<lparr>profile := quietWorkload d, dhtNode := Some (newDhtNode DummyDht)\<rparr>"

lemma emptyProfile_ok [simp]: "profileOk (emptyProfile op)" "eventType (emptyProfile op) = op"
  by (simp_all add: emptyProfile_def profileOk_def EventQueue_empty_def [symmetric])

lemma quietWorkload_ok: "workloadOk (quietWorkload d)"
  unfolding workloadOk_def holdsProfile_def
  by (intro allI, rename_tac op, case_tac op) (simp_all add: quietWorkload_def)

lemma newDhtNode_ok: "nodeOk (newDhtNode b)"
  by (simp add: nodeOk_defs newDhtNode_def newNodeLatency_def newNodeSuccessRate_def NodeLatency_count_def
      NodeSuccessRate_count_def Statistics_count_def newStatistics_def)

section \<open>Properties\<close>

text \<open>
  Messages arrive as they were sent: whatever follows it on the connection, the bytes of a well-formed
  message are read as that message and nothing more is taken, if its type is the one expected; if not,
  the program ends.
\<close>

lemma controller_reads_messages:
  assumes "sendable en m" and "toBits en m = Inr bits"
  shows "getNextMessage en expected (bits @ rest) =
    (if messageOpcode m = expected then Inr (m, rest) else Inl ExitFailure)"
  using getNextMessage_complete [OF sendable_bits(2) [OF assms(1)], where op = expected and rest = rest and en = en]
    sendable_bits [OF assms(1)] assms(2)
  by auto

lemma controller_reads_messages_witness:
  "\<exists>bits. toBits LittleEndian (DhtType ''dummy'') = Inr bits
     \<and> getNextMessage LittleEndian opcode_DhtType (bits @ ''rest'') = Inr (DhtType ''dummy'', ''rest'')
     \<and> getNextMessage LittleEndian opcode_Start (bits @ ''rest'') = Inl ExitFailure"
proof -
  have ok: "sendable LittleEndian (DhtType ''dummy'')"
    by (simp add: sendable_def)
  obtain bits where "toBits LittleEndian (DhtType ''dummy'') = Inr bits"
    using sendable_bits(1) [OF ok] by blast
  then show ?thesis
    using controller_reads_messages [OF ok, of bits] by (auto simp: opcode_defs)
qed

text \<open>
  A message that is cut short is not noticed, because the error of reading its body is not looked at:
  a start message whose last bytes never arrive is accepted, with zeros in place of the end of its host.
\<close>

theorem cut_start_message_accepted:
  assumes "sendable en (Start d (host @ lost) entryOffset selfOffset)"
    and "toBits en (Start d (host @ lost) entryOffset selfOffset) = Inr (bits @ lost)"
  shows "getNextMessage en opcode_Start bits =
    Inr (Start d (host @ replicate (length lost) (CHR 0x00)) entryOffset selfOffset, [])"
proof -
  let ?m = "Start d (host @ lost) entryOffset selfOffset"
  let ?zeros = "replicate (length lost) (CHR 0x00)"
  let ?m' = "Start d (host @ ?zeros) entryOffset selfOffset"
  have bits: "bits = headerBytes en (messageHeader en ?m) @ bodyBytes en (Start d host entryOffset selfOffset)"
    using sendable_bits(1) [OF assms(1)] assms(2) by simp
  have n: "unat (bodySize (messageHeader en ?m)) = length (bodyBytes en (Start d host entryOffset selfOffset)) + length lost"
    using sendable_bits(2) [OF assms(1)] by simp
  have same: "messageHeader en ?m = messageHeader en ?m'"
    by (simp add: messageHeader_def)
  have "sendable en ?m'"
    using assms(1) by (simp add: sendable_def)
  then have "fromBits en (messageHeader en ?m) (bodyBytes en (Start d host entryOffset selfOffset) @ ?zeros) = Inr ?m'"
    using sendable_bits(4) [of en ?m'] unfolding same by simp
  then show ?thesis
    using getNextMessage_cut [of "bodyBytes en (Start d host entryOffset selfOffset)" "messageHeader en ?m" en opcode_Start]
      sendable_bits(3) [OF assms(1)] n bits by simp
qed

theorem cut_start_message_accepted_witness:
  "\<exists>bits. toBits LittleEndian (Start 40 ''10.0.0.1'' 0 1) = Inr (bits @ ''.1'')
     \<and> getNextMessage LittleEndian opcode_Start bits = Inr (Start 40 (''10.0.0'' @ [CHR 0x00, CHR 0x00]) 0 1, [])"
proof -
  have ok: "sendable LittleEndian (Start 40 (''10.0.0'' @ ''.1'') 0 1)"
    by (simp add: sendable_def)
  obtain bits where bits: "toBits LittleEndian (Start 40 (''10.0.0'' @ ''.1'') 0 1) = Inr (bits @ ''.1'')"
    using sendable_bits(1) [OF ok] by (auto simp: append_assoc [symmetric] simp del: append_assoc)
  show ?thesis
    using cut_start_message_accepted [OF ok bits] bits by (intro exI [of _ bits]) (simp add: numeral_2_eq_2)
qed

text \<open>
  The event loop ends: once every reading of the timer shows less than a second left, \<open>start\<close>
  returns (with a result or with the end of the program), for the backends whose joins do not retry,
  whatever the workload and however the operations of the node turn out.
\<close>

theorem start_returns:
  assumes "dhtNode C = Some n" and "backend n \<in> {DummyDht, KaddemoWrapper}" and "nodeOk n"
    and "workloadOk (profile C)" and "\<forall>j. m \<le> j \<longrightarrow> left j < 1000000"
  shows "\<exists>r. start B E left C = Some r"
proof -
  let ?s = "\<lparr>node = n, outer = nodeWorld C, workload = profile C, drawn = draws C, readings = 0, elapsed = 0,
             remaining = 0, waits = []\<rparr>"
  have "runOk (backend n) ?s"
    using assms(3,4) by (simp add: runOk_def)
  then obtain r where "startLoop B E left ?s = Some r"
    using startLoop_returns [OF _ assms(2), of ?s m left B E] assms(5) by blast
  then show ?thesis
    by (cases r) (simp_all add: start_def assms(1))
qed

theorem start_returns_witness:
  "\<exists>r. start refBoost \<lparr>clock = int, peerReply = (\<lambda>host port. None)\<rparr> (\<lambda>i. 40000000 - int i * 700000) (quietController 40) = Some r"
  by (rule start_returns [where n = "newDhtNode DummyDht" and m = 100])
    (simp_all add: quietController_def newDhtNode_ok quietWorkload_ok, simp add: newDhtNode_def)

text \<open>
  C33. The event loop uses the time of the workload: if it returns normally (and the clock never shows more
  than the duration), a reading of the timer showed less than one second left; by then the node
  and its profiles are well formed, of the same backend, and nothing was written to the master.
\<close>

theorem start_until_last_second:
  assumes "start B E left C = Some (Inr C')" and "dhtNode C = Some n" and "nodeOk n" and "workloadOk (profile C)"
    and "\<forall>i. left i \<le> int (unat (duration (profile C))) * 1000000"
  shows "(\<exists>i. left i < 1000000)
    \<and> (\<exists>n'. dhtNode C' = Some n' \<and> nodeOk n' \<and> backend n' = backend n) \<and> workloadOk (profile C')
    \<and> duration (profile C') = duration (profile C) \<and> toMaster C' = toMaster C \<and> fromMaster C' = fromMaster C"
proof -
  note r = start_result [OF assms(1-4)]
  obtain i where "isDone (left i) (duration (profile C))"
    using r(6) by blast
  let ?s = "\<lparr>node = n, outer = nodeWorld C, workload = profile C, drawn = draws C, readings = i, elapsed = 0,
             remaining = 0, waits = []\<rparr>"
  have "left i < 1000000"
    using \<open>isDone (left i) _\<close> checkDone_goes_on(1) [of left ?s] assms(5) fst_checkDone [of left ?s] by force
  then show ?thesis
    using r(1-5) by blast
qed

theorem start_until_last_second_witness:
  "\<exists>C' n'. start refBoost \<lparr>clock = int, peerReply = (\<lambda>host port. None)\<rparr> (\<lambda>i. 2000000 - int i * 1500000) (quietController 2)
      = Some (Inr C') \<and> dhtNode C' = Some n' \<and> nodeOk n'"
proof -
  let ?left = "\<lambda>i. 2000000 - int i * 1500000"
  let ?E = "\<lparr>clock = int, peerReply = (\<lambda>host port. None)\<rparr>"
  have "case start refBoost ?E ?left (quietController 2) of Some (Inr C') \<Rightarrow> True | _ \<Rightarrow> False"
    by code_simp
  then obtain C' where C': "start refBoost ?E ?left (quietController 2) = Some (Inr C')"
    by (auto split: option.splits sum.splits)
  have "\<exists>n'. dhtNode C' = Some n' \<and> nodeOk n' \<and> backend n' = backend (newDhtNode DummyDht)"
    using start_until_last_second [OF C', of "newDhtNode DummyDht"]
    by (simp add: quietController_def newDhtNode_ok quietWorkload_ok) (simp add: quietWorkload_def)
  then show ?thesis
    using C' by blast
qed



text \<open>
  C40. Two joins that are due at the same time end the program: after the first one the node is connected
  when it is asked to join again (as with the profile \<open>exact 5 5\<close>).
\<close>

theorem simultaneous_joins_exit:
  assumes "workloadOk (workload s)" and "\<not> nodeConnected (node s)" and "2 \<le> dueCount Join s"
    and "processJoinEvent B E (node s, outer s) = Some (Inr (n, w))" and "1000000 \<le> left (readings s)"
    and "left (readings s) \<le> int (unat (duration (workload s))) * 1000000"
  shows "processDue B E left s = Some (Inl ExitFailure)"
proof -
  obtain es W where e: "eventsFor Join (elapsed s) (workload s) = Inr (es, W)"
    using eventsFor_total [OF assms(1)] by blast
  then have due: "dueEvents Join (elapsed s) s = Inr (es, s\<lparr>workload := W\<rparr>)"
    by (simp add: dueEvents_def)
  have "duration W = duration (workload s)"
    using eventsFor_ok [OF e assms(1)] by simp
  moreover have "\<not> isDone (left (readings s)) (duration (workload s))"
    using checkDone_goes_on(1) [of left s] assms(5,6) by (simp add: fst_checkDone)
  moreover have "2 \<le> length es"
    using dueEvents_count(1) [OF due assms(1) refl] assms(3) by simp
  ultimately have "processEvents (\<lambda>e st. processJoinEvent B E st) left es (s\<lparr>workload := W\<rparr>) = Some (Inl ExitFailure)"
    using two_joins [of B E "s\<lparr>workload := W\<rparr>" n w es left] assms(4) by simp
  then show ?thesis
    using assms(2) by (simp add: processDue_def due)
qed

theorem simultaneous_joins_exit_witness:
  "\<exists>P s. makeProfile refBoost Join ''exact 5 5'' 0 = Inr (P, 0)
     \<and> workload s = (quietWorkload 40)\<lparr>joinProfile := Some P\<rparr> \<and> elapsed s = 5
     \<and> processDue refBoost \<lparr>clock = int, peerReply = (\<lambda>host port. None)\<rparr> (\<lambda>i. 35000000) s = Some (Inl ExitFailure)"
proof -
  let ?E = "\<lparr>clock = int, peerReply = (\<lambda>host port. None)\<rparr>"
  let ?P = "\<lparr>eventType = Join, impl = Exact, eventQueue = [DhtJoinEvent 5, DhtJoinEvent 5]\<rparr>"
  let ?s = "\<lparr>node = newDhtNode DummyDht, outer = quietWorld, workload = (quietWorkload 40)\<lparr>joinProfile := Some ?P\<rparr>,
     drawn = 0, readings = 1, elapsed = 5, remaining = 35, waits = []\<rparr>"
  have P: "makeProfile refBoost Join ''exact 5 5'' 0 = Inr (?P, 0)"
    by code_simp
  have "profileOk ?P"
    using makeProfile_ok [OF P] by simp
  then have "holdsProfile op (workload ?s)" for op
    by (cases op) (simp_all add: holdsProfile_def quietWorkload_def)
  then have ok: "workloadOk (workload ?s)"
    by (simp add: workloadOk_def)
  obtain n w where join: "processJoinEvent refBoost ?E (newDhtNode DummyDht, quietWorld) = Some (Inr (n, w))"
  proof -
    have "case processJoinEvent refBoost ?E (newDhtNode DummyDht, quietWorld) of Some (Inr r) \<Rightarrow> True | _ \<Rightarrow> False"
      by code_simp
    then show thesis
      using that by (auto split: option.splits sum.splits)
  qed
  have "processDue refBoost ?E (\<lambda>i. 35000000) ?s = Some (Inl ExitFailure)"
    by (rule simultaneous_joins_exit [OF ok, of _ _ n w])
      (use join in \<open>simp_all add: dueCount_def pendingOf_def quietWorkload_def newDhtNode_def\<close>)
  then show ?thesis
    using P by (intro exI [of _ ?P] exI [of _ ?s]) simp
qed

end
