(* ===== verification/ControllerConnection.thy ===== *)
theory ControllerConnection
  imports Protocol
begin

text \<open>
  \<open>src/src/master/ControllerConnection.cpp\<close>: the master's end of the connection to one controller.
  An asynchronous operation of Boost.Asio is a field that says what is under way; the completion
  handlers are the functions that the event loop calls. \<open>async_write\<close> requires that no other write is
  under way and that its buffer stays as it is until the handler runs; \<open>overlapped\<close> records a
  violation.
\<close>

section \<open>State\<close>

datatype readState = NoRead | HeaderRead | BodyRead

record ControllerConnection =
  peerHost :: string
  peerConnected :: bool
  headerBuffer :: MessageHeader
  bodyBuffer :: bytes
  writeBuffer :: bytes
  reading :: readState
  pendingWrites :: nat
  overlapped :: bool
  writesStarted :: "bytes list"

definition newControllerConnection :: "string \<Rightarrow> ControllerConnection" where
  "newControllerConnection host =
     \<lparr>peerHost = host, peerConnected = True, headerBuffer = \<lparr>opcode = 0, bodySize = 0\<rparr>, bodyBuffer = [],
      writeBuffer = [], reading = NoRead, pendingWrites = 0, overlapped = False, writesStarted = []\<rparr>"

section \<open>Operations\<close>

text \<open>\<open>socket_.remote_endpoint()\<close> throws when the connection is lost.\<close>

definition remoteHost :: "ControllerConnection \<Rightarrow> string result" where
  "remoteHost c = (if peerConnected c then Inr (peerHost c) else Inl SystemError)"

definition asyncWaitForMessage :: "ControllerConnection \<Rightarrow> ControllerConnection" where
  "asyncWaitForMessage c = c\<lparr>reading := HeaderRead\<rparr>"

definition sendMessage :: "endian \<Rightarrow> Message \<Rightarrow> ControllerConnection \<Rightarrow> ControllerConnection result" where
  "sendMessage en message c =
     andThen (toBits en message) (\<lambda>bits.
     Inr (c\<lparr>writeBuffer := bits, pendingWrites := pendingWrites c + 1,
            overlapped := overlapped c \<or> 0 < pendingWrites c, writesStarted := writesStarted c @ [bits]\<rparr>))"

text \<open>The handler of a write; its argument is whether the write failed.\<close>

definition handleWrite :: "bool \<Rightarrow> ControllerConnection \<Rightarrow> ControllerConnection result" where
  "handleWrite error c =
     (let c = c\<lparr>pendingWrites := pendingWrites c - 1\<rparr>
      in if error then andThen (remoteHost c) (\<lambda>_. Inl ExitFailure) else Inr c)"

text \<open>
  What a completed read asks for: a message for \<open>messageHandler_\<close>, a call of
  \<open>disconnectionHandler_\<close>, or nothing yet.
\<close>

datatype readOutcome = Continue | Received Message | Disconnected

definition connectionMessage :: "endian \<Rightarrow> ControllerConnection \<Rightarrow> readOutcome result" where
  "connectionMessage en c =
     andThen (fromBits en (headerBuffer c) (bodyBuffer c)) (\<lambda>message. Inr (Received message))"

text \<open>\<open>bodyBuffer_.resize(n)\<close>.\<close>

definition resizeBody :: "nat \<Rightarrow> bytes \<Rightarrow> bytes" where
  "resizeBody n body = take n body @ replicate (n - length body) (CHR 0x00)"

text \<open>\<open>header\<close> holds the eight bytes of the read, \<open>None\<close> if it failed. The read is over in both cases.\<close>

definition handleHeaderRead ::
    "endian \<Rightarrow> bytes option \<Rightarrow> ControllerConnection \<Rightarrow> (readOutcome \<times> ControllerConnection) result" where
  "handleHeaderRead en header c =
     (let c = c\<lparr>reading := NoRead\<rparr> in
      case header of
        None \<Rightarrow> andThen (remoteHost c) (\<lambda>_. Inr (Disconnected, c))
      | Some bs \<Rightarrow>
          let c = c\<lparr>headerBuffer := headerOfBytes en bs\<rparr> in
          andThen (require (length bs = headerSize) AssertionFailed) (\<lambda>_.
          andThen (remoteHost c) (\<lambda>_.
          if 0 < bodySize (headerBuffer c)
          then Inr (Continue, c\<lparr>bodyBuffer := resizeBody (unat (bodySize (headerBuffer c))) (bodyBuffer c),
                               reading := BodyRead\<rparr>)
          else andThen (connectionMessage en c) (\<lambda>r. Inr (r, c)))))"

definition handleBodyRead ::
    "endian \<Rightarrow> bytes option \<Rightarrow> ControllerConnection \<Rightarrow> (readOutcome \<times> ControllerConnection) result" where
  "handleBodyRead en body c =
     (let c = c\<lparr>reading := NoRead\<rparr> in
      case body of
        None \<Rightarrow> andThen (remoteHost c) (\<lambda>_. Inr (Disconnected, c))
      | Some bs \<Rightarrow>
          let c = c\<lparr>bodyBuffer := bs\<rparr> in
          andThen (require (length bs = unat (bodySize (headerBuffer c))) AssertionFailed) (\<lambda>_.
          andThen (connectionMessage en c) (\<lambda>r. Inr (r, c))))"

section \<open>Properties\<close>

lemma handleHeaderRead_reading:
  assumes "handleHeaderRead en header c = Inr (r, c')"
  shows "r = Continue \<and> reading c' = BodyRead \<or> r \<noteq> Continue \<and> reading c' = NoRead"
  using assms
  by (auto simp: handleHeaderRead_def connectionMessage_def andThen_Inr_iff Let_def split: option.splits if_splits)

lemma handleBodyRead_reading:
  assumes "handleBodyRead en body c = Inr (r, c')"
  shows "r \<noteq> Continue \<and> reading c' = NoRead"
  using assms
  by (auto simp: handleBodyRead_def connectionMessage_def andThen_Inr_iff Let_def split: option.splits)

end
