(* ===== verification/MasterWorkload.thy ===== *)
theory MasterWorkload
  imports StdMap ThirdParty Events
begin

text \<open>
  \<open>src/src/master/MasterWorkloadProfile.cpp\<close> and \<open>MasterWorkload.cpp\<close>: the workload file of the master.
  The profiles are shared objects: the map of profiles and the static variable \<open>currentProfile\<close> hold
  references to them, which the model makes explicit as indices into the field \<open>store\<close>.
\<close>

section \<open>MasterWorkloadProfile\<close>

record MasterWorkloadProfile =
  profileName :: string
  joinText :: string
  leaveText :: string
  putText :: string
  getText :: string

definition newMasterWorkloadProfile :: "string \<Rightarrow> MasterWorkloadProfile" where
  "newMasterWorkloadProfile name =
     \<lparr>profileName = name, joinText = '''', leaveText = '''', putText = '''', getText = ''''\<rparr>"

definition MasterProfile_isComplete :: "MasterWorkloadProfile \<Rightarrow> bool" where
  "MasterProfile_isComplete p \<longleftrightarrow>
     \<not> (joinText p = '''' \<or> leaveText p = '''' \<or> putText p = '''' \<or> getText p = '''')"

text \<open>A profile that is set twice ends the program.\<close>

definition MasterProfile_setProfile ::
    "DhtOperation \<Rightarrow> string \<Rightarrow> MasterWorkloadProfile \<Rightarrow> MasterWorkloadProfile result" where
  "MasterProfile_setProfile type text p =
     (case type of
        Join \<Rightarrow> andThen (require (joinText p = '''') ExitFailure) (\<lambda>_. Inr (p\<lparr>joinText := text\<rparr>))
      | Leave \<Rightarrow> andThen (require (leaveText p = '''') ExitFailure) (\<lambda>_. Inr (p\<lparr>leaveText := text\<rparr>))
      | Put \<Rightarrow> andThen (require (putText p = '''') ExitFailure) (\<lambda>_. Inr (p\<lparr>putText := text\<rparr>))
      | Get \<Rightarrow> andThen (require (getText p = '''') ExitFailure) (\<lambda>_. Inr (p\<lparr>getText := text\<rparr>)))"

definition MasterProfile_getProfile :: "MasterWorkloadProfile \<Rightarrow> string \<times> string \<times> string \<times> string" where
  "MasterProfile_getProfile p = (joinText p, leaveText p, putText p, getText p)"

section \<open>MasterWorkload\<close>

record MasterWorkload =
  nodes :: u32
  workloadDuration :: u32
  profiles :: "(string, nat) stdmap"
  nodeProfiles :: "(u32, string) stdmap"
  store :: "MasterWorkloadProfile list"
  currentProfile :: "nat option"

definition newMasterWorkload :: MasterWorkload where
  "newMasterWorkload =
     \<lparr>nodes = 0, workloadDuration = 0, profiles = mapEmpty, nodeProfiles = mapEmpty, store = [], currentProfile = None\<rparr>"

text \<open>
  \<open>profiles_[nodeProfiles_[nodeNumber]]->getProfile(...)\<close>. A missing entry of either map makes
  \<open>operator[]\<close> insert an empty one, and the null pointer fails the assertion of \<open>shared_ptr\<close>.
\<close>

definition getNodeProfile :: "u32 \<Rightarrow> MasterWorkload \<Rightarrow> (string \<times> string \<times> string \<times> string) result" where
  "getNodeProfile nodeNumber W =
     (case mapFind (profiles W) (mapAt '''' (nodeProfiles W) nodeNumber) of
        None \<Rightarrow> Inl AssertionFailed
      | Some r \<Rightarrow> andThen (vectorAt (store W) r) (\<lambda>p. Inr (MasterProfile_getProfile p)))"

definition getNodeEntryPointHost :: "u32 \<Rightarrow> nat" where
  "getNodeEntryPointHost nodeNumber = 0"

section \<open>Lines of the workload file\<close>

text \<open>\<open>matches[i]\<close> for the i-th group.\<close>

definition matchAt :: "string list \<Rightarrow> nat \<Rightarrow> string" where
  "matchAt ms i = (if i < length ms then ms ! i else '''')"

text \<open>\<open>profile NAME\<close>: a new object, in the map (in place of an earlier one of this name) and current.\<close>

definition addProfile :: "string \<Rightarrow> MasterWorkload \<Rightarrow> MasterWorkload" where
  "addProfile name W =
     W\<lparr>store := store W @ [newMasterWorkloadProfile name],
       profiles := mapPut name (length (store W)) (profiles W),
       currentProfile := Some (length (store W))\<rparr>"

text \<open>\<open>currentProfile->setProfile(type, profile)\<close>; the result of the call is not looked at.\<close>

definition setCurrent :: "DhtOperation \<Rightarrow> string \<Rightarrow> nat \<Rightarrow> MasterWorkload \<Rightarrow> MasterWorkload result" where
  "setCurrent type text r W =
     andThen (vectorAt (store W) r) (\<lambda>p.
     andThen (MasterProfile_setProfile type text p) (\<lambda>p'. Inr (W\<lparr>store := (store W)[r := p']\<rparr>)))"

definition operationNamed :: "string \<Rightarrow> DhtOperation option" where
  "operationNamed type =
     (if type = ''join'' then Some Join else if type = ''leave'' then Some Leave
      else if type = ''put'' then Some Put else if type = ''get'' then Some Get else None)"

definition setOperation :: "string \<Rightarrow> string \<Rightarrow> MasterWorkload \<Rightarrow> (bool \<times> MasterWorkload) result" where
  "setOperation type text W =
     (case currentProfile W of
        None \<Rightarrow> Inr (False, W)
      | Some r \<Rightarrow>
          (case operationNamed type of
             None \<Rightarrow> Inr (True, W)
           | Some op \<Rightarrow> andThen (setCurrent op text r W) (\<lambda>W. Inr (True, W))))"

text \<open>\<open>for (i = 0; i < nodes_; i++) nodeProfiles_[i] = profileName\<close>.\<close>

definition setDefault :: "string \<Rightarrow> MasterWorkload \<Rightarrow> MasterWorkload" where
  "setDefault name W =
     W\<lparr>nodeProfiles := fold (\<lambda>i. mapPut (of_nat i) name) [0..<unat (nodes W)] (nodeProfiles W)\<rparr>"

definition processConfigLine :: "'b boost_scheme \<Rightarrow> string \<Rightarrow> MasterWorkload \<Rightarrow> (bool \<times> MasterWorkload) result" where
  "processConfigLine B line W =
     (if line \<noteq> [] \<and> hd line = CHR ''#'' then Inr (True, W) else
      case regexMatch B nodesPattern (c_str line) of
        Some ms \<Rightarrow>
          if nodes W = 0
          then andThen (castUnsigned B (matchAt ms 0)) (\<lambda>n. Inr (True, W\<lparr>nodes := n\<rparr>))
          else Inr (True, W)
      | None \<Rightarrow>
      case regexMatch B durationPattern (c_str line) of
        Some ms \<Rightarrow> andThen (castUnsigned B (matchAt ms 0)) (\<lambda>d. Inr (True, W\<lparr>workloadDuration := d\<rparr>))
      | None \<Rightarrow>
      case regexMatch B profilePattern (c_str line) of
        Some ms \<Rightarrow> Inr (True, addProfile (matchAt ms 0) W)
      | None \<Rightarrow>
      case regexMatch B operationPattern (c_str line) of
        Some ms \<Rightarrow> setOperation (matchAt ms 0) (matchAt ms 1) W
      | None \<Rightarrow>
      case regexMatch B defaultPattern (c_str line) of
        Some ms \<Rightarrow> Inr (True, setDefault (matchAt ms 0) W)
      | None \<Rightarrow>
      case regexMatch B nodePattern (c_str line) of
        Some ms \<Rightarrow>
          andThen (castUnsigned B (matchAt ms 0)) (\<lambda>nodeId.
          Inr (True, W\<lparr>nodeProfiles := mapPut nodeId (matchAt ms 1) (nodeProfiles W)\<rparr>))
      | None \<Rightarrow> Inr (True, W))"

section \<open>Reading the file\<close>

text \<open>A \<open>std::ifstream\<close>: what is not read yet, and the flag \<open>eof\<close>. \<open>getline\<close> into an empty string.\<close>

type_synonym fileStream = "string \<times> bool"

definition getline :: "fileStream \<Rightarrow> string \<times> fileStream" where
  "getline f =
     (let (rest, eof) = f; line = takeWhile (\<lambda>c. c \<noteq> newline) rest
      in if eof then ([], f)
         else if newline \<in> set rest then (line, drop (length line + 1) rest, False)
         else (line, [], True))"

lemma getline_line:
  assumes "newline \<notin> set l"
  shows "getline (l @ newline # rest, False) = (l, rest, False)"
    and "getline (l, False) = (l, [], True)"
  using assms by (simp_all add: getline_def Let_def) (auto simp: takeWhile_eq_all_conv)

lemma getline_eof: "getline (rest, True) = ([], rest, True)"
  by (simp add: getline_def Let_def)

lemma getline_cases:
  obtains "f = (fst f, True)" and "getline f = ([], f)"
  | l rest where "f = (l @ newline # rest, False)" and "newline \<notin> set l" and "getline f = (l, rest, False)"
  | l where "f = (l, False)" and "newline \<notin> set l" and "getline f = (l, [], True)"
proof (cases "snd f")
  case True
  then show thesis using that(1) getline_eof [of "fst f"] by (metis prod.collapse)
next
  case False
  then have f: "f = (fst f, False)" by (metis prod.collapse)
  show thesis
  proof (cases "newline \<in> set (fst f)")
    case True
    then obtain l rest where "fst f = l @ newline # rest" and "newline \<notin> set l"
      by (meson split_list_first)
    then show thesis using that(2) [of l rest] f getline_line(1) [of l rest] by simp
  next
    case n: False
    then show thesis using that(3) [of "fst f"] f getline_line(2) [OF n] by simp
  qed
qed

lemma getline_shorter: "length (fst (getline f)) + length (fst (snd (getline f))) \<le> length (fst f)"
  by (rule getline_cases [of f]) simp_all

text \<open>A line that ends with a backslash goes on in the next one.\<close>

function continued :: "string \<Rightarrow> fileStream \<Rightarrow> string \<times> fileStream" where
  "continued line f =
     (if line \<noteq> [] \<and> last line = backslash
      then (let (nextLine, f') = getline f in continued (butlast line @ nextLine) f')
      else (line, f))"
  by pat_completeness auto
termination
proof (relation "measure (\<lambda>(line, f). length line + length (fst f))")
  fix line :: string and f x nextLine f'
  assume "line \<noteq> [] \<and> last line = backslash" and "x = getline f" and "(nextLine, f') = x"
  then have "length nextLine + length (fst f') \<le> length (fst f)" and "0 < length line"
    using getline_shorter [of f] by (metis fst_conv snd_conv, simp)
  then show "((butlast line @ nextLine, f'), line, f) \<in> measure (\<lambda>(line, f). length line + length (fst f))"
    by (cases line) auto
qed simp

declare continued.simps [simp del]

lemma continued_shorter:
  assumes "continued line f = (line', f')"
  shows "length line' + length (fst f') \<le> length line + length (fst f)"
  using assms
proof (induction line f rule: continued.induct)
  case (1 line f)
  show ?case
  proof (cases "line \<noteq> [] \<and> last line = backslash")
    case True
    let ?g = "getline f"
    have "continued (butlast line @ fst ?g) (snd ?g) = (line', f')"
      using "1.prems" True by (simp add: continued.simps [of line f] split_def Let_def)
    then have "length line' + length (fst f') \<le> length (butlast line @ fst ?g) + length (fst (snd ?g))"
      using "1.IH" [OF True refl, of "fst ?g" "snd ?g"] by simp
    moreover have "length (butlast line) < length line" using True by simp
    ultimately show ?thesis
      using getline_shorter [of f] by simp
  next
    case False
    then have "continued line f = (line, f)" by (auto simp: continued.simps [of line f])
    then show ?thesis using "1.prems" by simp
  qed
qed

lemma continued_eof: "continued line f = (line', f') \<Longrightarrow> snd f \<Longrightarrow> snd f'"
proof (induction line f rule: continued.induct)
  case (1 line f)
  have "getline f = ([], f)"
    using getline_eof [of "fst f"] "1.prems"(2) by (metis prod.collapse)
  with 1 show ?case
    by (auto simp: continued.simps [of line f] split: if_splits)
qed

text \<open>The loop \<open>while (!file.eof())\<close>.\<close>

function configLoop :: "'b boost_scheme \<Rightarrow> fileStream \<Rightarrow> MasterWorkload \<Rightarrow> (bool \<times> MasterWorkload) result" where
  "configLoop B f W =
     (if snd f then Inr (True, W)
      else (let (line, f') = getline f; (line', f'') = continued line f'
            in case processConfigLine B line' W of
                 Inl e \<Rightarrow> Inl e
               | Inr (ok, W') \<Rightarrow> if ok then configLoop B f'' W' else Inr (False, W')))"
  by pat_completeness auto
termination
proof (relation "measure (\<lambda>(B, f, W). length (fst f) + (if snd f then 0 else 1))")
  fix B :: "'b boost_scheme" and f W x line f' y line' f'' z ok W'
  assume eof: "\<not> snd f" and x: "x = getline f" "(line, f') = x" and y: "y = continued line f'" "(line', f'') = y"
  have "length (fst f'') + (if snd f'' then 0 else 1) < length (fst f) + 1"
  proof (rule getline_cases [of f])
    assume "f = (fst f, True)"
    then have "snd f" by (metis snd_conv)
    with eof show ?thesis by simp
  next
    fix l rest assume f: "f = (l @ newline # rest, False)" and "getline f = (l, rest, False)"
    then have "length line' + length (fst f'') \<le> length l + length rest"
      using continued_shorter [of line f' line' f''] x y by simp
    then show ?thesis by (simp add: f)
  next
    fix l assume f: "f = (l, False)" and g: "getline f = (l, [], True)"
    then have "length line' + length (fst f'') \<le> length l" and "snd f''"
      using continued_shorter [of line f' line' f''] continued_eof [of line f' line' f''] x y by simp_all
    then show ?thesis by (simp add: f)
  qed
  then show "((B, f'', W'), B, f, W) \<in> measure (\<lambda>(B, f, W). length (fst f) + (if snd f then 0 else 1))"
    using eof by simp
qed simp

declare configLoop.simps [simp del]

text \<open>The checks after the loop.\<close>

definition profilesComplete :: "MasterWorkload \<Rightarrow> bool" where
  "profilesComplete W \<longleftrightarrow>
     list_all (\<lambda>(name, r). MasterProfile_isComplete (store W ! r)) (profiles W)"

definition nodesHaveProfiles :: "MasterWorkload \<Rightarrow> bool" where
  "nodesHaveProfiles W \<longleftrightarrow>
     list_all (\<lambda>i. case mapFind (nodeProfiles W) (of_nat i) of None \<Rightarrow> False
                 | Some name \<Rightarrow> mapFind (profiles W) name \<noteq> None) [0..<unat (nodes W)]"

text \<open>
  \<open>loadConfig\<close>; \<open>contents\<close> is what the file holds, if it can be opened, and \<open>nodesArg\<close> is an \<open>int\<close>.
  \<open>currentProfile\<close> is static: a second call starts with the one of the first.
\<close>

definition loadConfig ::
    "'b boost_scheme \<Rightarrow> string option \<Rightarrow> int \<Rightarrow> MasterWorkload \<Rightarrow> (bool \<times> MasterWorkload) result" where
  "loadConfig B contents nodesArg W =
     (case contents of
        None \<Rightarrow> Inr (False, W)
      | Some text \<Rightarrow>
          let W = W\<lparr>nodes := word_of_int nodesArg, workloadDuration := 0, profiles := mapEmpty, nodeProfiles := mapEmpty\<rparr>
          in andThen (configLoop B (text, False) W) (\<lambda>(ok, W).
             Inr (ok \<and> nodes W \<noteq> 0 \<and> workloadDuration W \<noteq> 0 \<and> profiles W \<noteq> []
                    \<and> profilesComplete W \<and> nodesHaveProfiles W, W)))"

section \<open>One line at a time\<close>

text \<open>A line that stands for itself in the file: no newline, and no backslash at its end.\<close>

definition plainLine :: "string \<Rightarrow> bool" where
  "plainLine l \<longleftrightarrow> newline \<notin> set l \<and> (l = [] \<or> last l \<noteq> backslash)"

lemma continued_plain: "l = [] \<or> last l \<noteq> backslash \<Longrightarrow> continued l f = (l, f)"
  by (auto simp: continued.simps [of l f])

lemma continued_backslash:
  "continued (l @ [backslash]) f = continued (l @ fst (getline f)) (snd (getline f))"
  by (cases "getline f") (simp add: continued.simps [of "l @ [backslash]" f])

lemma configLoop_line:
  assumes "plainLine l"
  shows "configLoop B (l @ newline # rest, False) W =
    (case processConfigLine B l W of
       Inl e \<Rightarrow> Inl e
     | Inr (ok, W') \<Rightarrow> if ok then configLoop B (rest, False) W' else Inr (False, W'))"
  using assms getline_line(1) [of l rest] continued_plain [of l]
  by (simp add: configLoop.simps [of B "(l @ newline # rest, False)"] plainLine_def)

lemma configLoop_end:
  "configLoop B ([], False) W =
    (case processConfigLine B [] W of
       Inl e \<Rightarrow> Inl e
     | Inr (ok, W') \<Rightarrow> if ok then Inr (True, W') else Inr (False, W'))"
  using getline_line(2) [of "[]"] continued_plain [of "[]"]
  by (simp add: configLoop.simps [of B "([], False)"] configLoop.simps [of B "([], True)"] split: sum.splits prod.splits)

text \<open>A run over lines that are all accepted.\<close>

fun acceptLines :: "'b boost_scheme \<Rightarrow> string list \<Rightarrow> MasterWorkload \<Rightarrow> MasterWorkload option" where
  "acceptLines B [] W = Some W"
| "acceptLines B (l # ls) W =
     (case processConfigLine B l W of Inr (True, W') \<Rightarrow> acceptLines B ls W' | _ \<Rightarrow> None)"

lemma acceptLines_append:
  "acceptLines B (ls @ ls') W = (case acceptLines B ls W of None \<Rightarrow> None | Some W' \<Rightarrow> acceptLines B ls' W')"
  by (induction ls arbitrary: W) (auto split: sum.splits prod.splits bool.splits)

lemma configLoop_lines:
  assumes "\<forall>l \<in> set ls. plainLine l" and "acceptLines B ls W = Some W'"
  shows "configLoop B (linesText ls @ rest, False) W = configLoop B (rest, False) W'"
  using assms
  by (induction ls arbitrary: W) (auto simp: configLoop_line split: sum.splits prod.splits bool.splits)

section \<open>The lines of the workload file language\<close>

definition word :: "string \<Rightarrow> bool" where
  "word w \<longleftrightarrow> w \<noteq> [] \<and> list_all isWordChar w"

definition profileText :: "string \<Rightarrow> bool" where
  "profileText t \<longleftrightarrow> t \<noteq> [] \<and> isWordChar (hd t) \<and> plainLine t \<and> CHR 0x00 \<notin> set t"

lemma isWordChar_plain: "isWordChar c \<Longrightarrow> c \<noteq> newline \<and> c \<noteq> CHR 0x00 \<and> c \<noteq> backslash \<and> c \<noteq> CHR '' ''"
  by (auto simp: isWordChar_def isDigit_def backslash_def)

lemma word_plain:
  assumes "word w"
  shows "newline \<notin> set w" and "CHR 0x00 \<notin> set w" and "backslash \<notin> set w" and "CHR '' '' \<notin> set w"
    and "w \<noteq> []" and "list_all isWordChar w" and "last w \<noteq> backslash"
proof -
  have c: "\<forall>c \<in> set w. c \<noteq> newline \<and> c \<noteq> CHR 0x00 \<and> c \<noteq> backslash \<and> c \<noteq> CHR '' ''"
    using assms isWordChar_plain by (auto simp: word_def list_all_iff)
  show "newline \<notin> set w" "CHR 0x00 \<notin> set w" "backslash \<notin> set w" "CHR '' '' \<notin> set w"
    using c by blast+
  show w: "w \<noteq> []" and "list_all isWordChar w" using assms by (simp_all add: word_def)
  show "last w \<noteq> backslash" using c w by (meson last_in_set)
qed

lemma showNat_word: "word (showNat n)" "list_all isDigit (showNat n)"
  using showNat_digits [of _ n] by (auto simp: word_def list_all_iff isWordChar_def)

lemma c_str_id [simp]: "CHR 0x00 \<notin> set s \<Longrightarrow> c_str s = s"
  by (simp add: c_str_def takeWhile_eq_all_conv) metis

lemma firstWord_space: "CHR '' '' \<notin> set w \<Longrightarrow> firstWord (w @ CHR '' '' # s) = w"
  by (simp add: firstWord_def)

lemma firstWord_simps [simp]:
  "firstWord [] = []"
  "firstWord (c # s) = (if c = CHR '' '' then [] else c # firstWord s)"
  by (simp_all add: firstWord_def)

lemma isPrefix_Cons [simp]:
  "isPrefix [] s"
  "\<not> isPrefix (a # p) []"
  "isPrefix (a # p) (b # s) \<longleftrightarrow> a = b \<and> isPrefix p s"
  by (auto simp: isPrefix_def)

lemma regex_match:
  assumes "regex_documented B" and "newline \<notin> set s"
  shows "regexMatch B nodesPattern s = matchRest ''nodes '' isDigit s"
    and "regexMatch B durationPattern s = matchRest ''duration '' isDigit s"
    and "regexMatch B profilePattern s = matchRest ''profile '' isWordChar s"
    and "regexMatch B operationPattern s = matchOperation s"
    and "regexMatch B defaultPattern s = matchRest ''default-profile '' isWordChar s"
    and "regexMatch B nodePattern s = matchNode s"
  using assms by (simp_all add: regex_documented_def)

lemmas line_defs =
  processConfigLine_def castUnsigned_def matchAt_def matchRest_def matchOperation_def matchNode_def Let_def

lemma line_nodes:
  assumes "regex_documented B" and "cast_documented B"
  shows "processConfigLine B (''nodes '' @ showNat (unat n)) W =
    Inr (True, if nodes W = 0 then W\<lparr>nodes := n\<rparr> else W)"
  using word_plain [OF showNat_word(1) [of "unat n"]] showNat_word(2) assms(2)
  by (simp add: line_defs regex_match [OF assms(1)] cast_documented_def)

lemma line_duration:
  assumes "regex_documented B" and "cast_documented B"
  shows "processConfigLine B (''duration '' @ showNat (unat n)) W = Inr (True, W\<lparr>workloadDuration := n\<rparr>)"
  using word_plain [OF showNat_word(1) [of "unat n"]] showNat_word(2) assms(2)
  by (simp add: line_defs regex_match [OF assms(1)] cast_documented_def)

lemma line_profile:
  assumes "regex_documented B" and "word w"
  shows "processConfigLine B (''profile '' @ w) W = Inr (True, addProfile w W)"
  using word_plain [OF assms(2)]
  by (simp add: line_defs regex_match [OF assms(1)])

lemma line_default:
  assumes "regex_documented B" and "word w"
  shows "processConfigLine B (''default-profile '' @ w) W = Inr (True, setDefault w W)"
  using word_plain [OF assms(2)]
  by (simp add: line_defs regex_match [OF assms(1)])

lemma line_empty:
  assumes "regex_documented B"
  shows "processConfigLine B [] W = Inr (True, W)"
  by (simp add: line_defs regex_match [OF assms(1)])

lemma line_node:
  assumes "regex_documented B" and "cast_documented B" and "word w"
  shows "processConfigLine B (''node '' @ showNat (unat n) @ '' '' @ w) W =
    Inr (True, W\<lparr>nodeProfiles := mapPut n w (nodeProfiles W)\<rparr>)"
  using word_plain [OF assms(3)] word_plain [OF showNat_word(1) [of "unat n"]] assms(2)
  by (simp add: line_defs regex_match [OF assms(1)] cast_documented_def firstWord_space)

lemma line_operation:
  assumes "regex_documented B" and "profileText t" and "op \<in> {''join'', ''leave'', ''put'', ''get''}"
  shows "processConfigLine B (op @ '' '' @ t) W = setOperation op t W"
proof -
  have "newline \<notin> set t" "CHR 0x00 \<notin> set t" "t \<noteq> []" "isWordChar (hd t)"
    using assms(2) by (simp_all add: profileText_def plainLine_def)
  then show ?thesis
    using assms(3) by (auto simp: line_defs regex_match [OF assms(1)])
qed

section \<open>The checks are sufficient\<close>

text \<open>The references of the map of profiles point into the store, which only grows.\<close>

definition refsValid :: "MasterWorkload \<Rightarrow> bool" where
  "refsValid W \<longleftrightarrow> (\<forall>(name, r) \<in> set (profiles W). r < length (store W)) \<and> mapValid (profiles W)"

lemma setOperation_keeps:
  assumes "setOperation op t W = Inr (ok, W')"
  shows "profiles W' = profiles W" and "length (store W') = length (store W)"
    and "nodes W' = nodes W" and "nodeProfiles W' = nodeProfiles W"
  using assms
  by (auto simp: setOperation_def setCurrent_def andThen_Inr_iff split: option.splits)

lemma processConfigLine_cases:
  assumes "processConfigLine B l W = Inr (ok, W')"
  obtains "W' = W" | n where "nodes W = 0" and "W' = W\<lparr>nodes := n\<rparr>" | d where "W' = W\<lparr>workloadDuration := d\<rparr>"
  | name where "W' = addProfile name W" | op t where "setOperation op t W = Inr (ok, W')"
  | name where "W' = setDefault name W" | i name where "W' = W\<lparr>nodeProfiles := mapPut i name (nodeProfiles W)\<rparr>"
proof -
  have "W' = W \<or> (nodes W = 0 \<and> (\<exists>n. W' = W\<lparr>nodes := n\<rparr>)) \<or> (\<exists>d. W' = W\<lparr>workloadDuration := d\<rparr>)
    \<or> (\<exists>name. W' = addProfile name W) \<or> (\<exists>op t. setOperation op t W = Inr (ok, W'))
    \<or> (\<exists>name. W' = setDefault name W) \<or> (\<exists>i name. W' = W\<lparr>nodeProfiles := mapPut i name (nodeProfiles W)\<rparr>)"
    using assms unfolding processConfigLine_def andThen_def
    by (simp split: if_split_asm option.split_asm sum.split_asm; blast)
  then show thesis using that by blast
qed

lemma addProfile_refs:
  assumes "refsValid W"
  shows "refsValid (addProfile name W)"
proof -
  let ?m = "mapPut name (length (store W)) (profiles W)"
  have v: "mapValid ?m" using assms by (simp add: refsValid_def mapPut_valid)
  have "r < Suc (length (store W))" if "(n, r) \<in> set ?m" for n r
  proof -
    have "mapFind ?m n = Some r" using stdmap.entries_find [OF v] that by simp
    then have "r = length (store W) \<or> (n, r) \<in> set (profiles W)"
      using assms stdmap.entries_find [of "profiles W"] by (simp add: refsValid_def split: if_splits)
    then show ?thesis using assms by (auto simp: refsValid_def)
  qed
  then show ?thesis using v by (auto simp: refsValid_def addProfile_def)
qed

lemma processConfigLine_refs:
  assumes "processConfigLine B l W = Inr (ok, W')" and "refsValid W"
  shows "refsValid W'"
  using assms(1)
proof (cases rule: processConfigLine_cases)
  case (5 op t)
  then show ?thesis using setOperation_keeps [OF 5] assms(2) by (simp add: refsValid_def)
qed (use assms(2) addProfile_refs in \<open>simp_all add: refsValid_def setDefault_def\<close>)

lemma processConfigLine_nodes:
  assumes "processConfigLine B l W = Inr (ok, W')" and "nodes W \<noteq> 0"
  shows "nodes W' = nodes W"
  using assms(1)
  by (cases rule: processConfigLine_cases)
    (use assms(2) setOperation_keeps(3) in \<open>simp_all add: addProfile_def setDefault_def\<close>)

text \<open>What every accepted line keeps, the loop keeps.\<close>

lemma configLoop_keeps:
  assumes "configLoop B f W = Inr (ok, W')" and "P W"
    and "\<And>l W ok W'. processConfigLine B l W = Inr (ok, W') \<Longrightarrow> P W \<Longrightarrow> P W'"
  shows "P W'"
  using assms
proof (induction B f W rule: configLoop.induct)
  case (1 B f W)
  obtain l g where l: "getline f = (l, g)" by (cases "getline f")
  obtain l' g' where l': "continued l g = (l', g')" by (cases "continued l g")
  show ?case
  proof (cases "snd f")
    case True
    then show ?thesis using "1.prems"(1,2) by (simp add: configLoop.simps [of B f])
  next
    case False
    then obtain ok1 W1 where w: "processConfigLine B l' W = Inr (ok1, W1)"
      and r: "(if ok1 then configLoop B g' W1 else Inr (False, W1)) = Inr (ok, W')"
      using "1.prems"(1) l l' by (auto simp: configLoop.simps [of B f] split: sum.splits)
    have p: "P W1" using "1.prems"(3) [OF w "1.prems"(2)] .
    show ?thesis
    proof (cases ok1)
      case True
      have "configLoop B g' W1 = Inr (ok, W')" using r True by simp
      from "1.IH" [OF False l [symmetric] refl l' [symmetric] refl w refl True this p "1.prems"(3)]
      show ?thesis by simp
    next
      case False
      then show ?thesis using r p by simp
    qed
  qed
qed

lemma loadConfig_True:
  assumes "loadConfig B contents n W0 = Inr (True, W)"
  obtains s where "contents = Some s"
    and "configLoop B (s, False) (W0\<lparr>nodes := word_of_int n, workloadDuration := 0, profiles := mapEmpty, nodeProfiles := mapEmpty\<rparr>) = Inr (True, W)"
    and "nodes W \<noteq> 0" and "workloadDuration W \<noteq> 0" and "profilesComplete W" and "nodesHaveProfiles W"
  using assms by (auto simp: loadConfig_def andThen_Inr_iff Let_def split: option.splits)

lemma loadConfig_refs:
  assumes "loadConfig B contents n W0 = Inr (True, W)"
  shows "refsValid W"
  using assms
proof (rule loadConfig_True)
  fix s
  assume r: "configLoop B (s, False) (W0\<lparr>nodes := word_of_int n, workloadDuration := 0, profiles := mapEmpty, nodeProfiles := mapEmpty\<rparr>) = Inr (True, W)"
  show ?thesis
    by (rule configLoop_keeps [OF r _ processConfigLine_refs]) (auto simp: refsValid_def mapEmpty_def mapValid_def)
qed

lemma getNodeProfile_checked:
  assumes "refsValid W" and "profilesComplete W" and "nodesHaveProfiles W" and "i < unat (nodes W)"
  obtains j l p g where "getNodeProfile (of_nat i) W = Inr (j, l, p, g)"
    and "j \<noteq> ''''" and "l \<noteq> ''''" and "p \<noteq> ''''" and "g \<noteq> ''''"
proof -
  obtain name where name: "mapFind (nodeProfiles W) (of_nat i) = Some name" "mapFind (profiles W) name \<noteq> None"
    using assms(3,4) by (fastforce simp: nodesHaveProfiles_def list_all_iff split: option.splits)
  then obtain r where r: "mapFind (profiles W) name = Some r" by blast
  then have "(name, r) \<in> set (profiles W)"
    using assms(1) stdmap.entries_find [of "profiles W"] by (simp add: refsValid_def)
  then have "r < length (store W)" and "MasterProfile_isComplete (store W ! r)"
    using assms(1,2) by (auto simp: refsValid_def profilesComplete_def list_all_iff)
  then show thesis
    using that name(1) r
    by (simp add: getNodeProfile_def mapAt_def vectorAt_def MasterProfile_getProfile_def MasterProfile_isComplete_def)
qed

lemma loadConfig_nodes_argument:
  assumes "loadConfig B contents n W0 = Inr (True, W)" and "(word_of_int n :: u32) \<noteq> 0"
  shows "nodes W = word_of_int n"
  using assms(1)
proof (rule loadConfig_True)
  fix s
  assume r: "configLoop B (s, False) (W0\<lparr>nodes := word_of_int n, workloadDuration := 0, profiles := mapEmpty, nodeProfiles := mapEmpty\<rparr>) = Inr (True, W)"
  show ?thesis
    by (rule configLoop_keeps [OF r, of "\<lambda>W. nodes W = word_of_int n"])
      (simp, metis processConfigLine_nodes assms(2))
qed

section \<open>Writing a workload file\<close>

type_synonym profileTexts = "string \<times> string \<times> string \<times> string"

fun profileLines :: "string \<times> profileTexts \<Rightarrow> string list" where
  "profileLines (name, j, l, p, g) =
     [''profile '' @ name, ''join '' @ j, ''leave '' @ l, ''put '' @ p, ''get '' @ g]"

fun storedProfile :: "string \<times> profileTexts \<Rightarrow> MasterWorkloadProfile" where
  "storedProfile (name, j, l, p, g) =
     \<lparr>profileName = name, joinText = j, leaveText = l, putText = p, getText = g\<rparr>"

fun goodProfile :: "string \<times> profileTexts \<Rightarrow> bool" where
  "goodProfile (name, j, l, p, g) \<longleftrightarrow>
     word name \<and> profileText j \<and> profileText l \<and> profileText p \<and> profileText g"

definition nodeLine :: "u32 \<times> string \<Rightarrow> string" where
  "nodeLine iw = ''node '' @ showNat (unat (fst iw)) @ '' '' @ snd iw"

definition configLines ::
    "u32 \<Rightarrow> u32 \<Rightarrow> (string \<times> profileTexts) list \<Rightarrow> string \<Rightarrow> (u32 \<times> string) list \<Rightarrow> string list" where
  "configLines n d ps dflt chosen =
     [''nodes '' @ showNat (unat n), ''duration '' @ showNat (unat d)] @ concat (map profileLines ps)
       @ [''default-profile '' @ dflt] @ map nodeLine chosen"

text \<open>The profile that a node gets: the last \<open>node\<close> line for it, else the default.\<close>

definition chosenProfile :: "string \<Rightarrow> (u32 \<times> string) list \<Rightarrow> u32 \<Rightarrow> string" where
  "chosenProfile dflt chosen i = (case map_of (rev chosen) i of None \<Rightarrow> dflt | Some w \<Rightarrow> w)"

lemma accept_profile:
  assumes "regex_documented B" and "goodProfile p"
  shows "acceptLines B (profileLines p) W =
    Some (W\<lparr>store := store W @ [storedProfile p],
      profiles := mapPut (fst p) (length (store W)) (profiles W), currentProfile := Some (length (store W))\<rparr>)"
proof (cases p)
  case (fields name j l pu g)
  note op = line_operation [OF assms(1), of _ "''join''"] line_operation [OF assms(1), of _ "''leave''"]
    line_operation [OF assms(1), of _ "''put''"] line_operation [OF assms(1), of _ "''get''"]
  show ?thesis
    using assms(2) op line_profile [OF assms(1), of name]
    by (simp add: fields addProfile_def setOperation_def operationNamed_def setCurrent_def
        vectorAt_def MasterProfile_setProfile_def newMasterWorkloadProfile_def)
qed

lemma accept_profiles:
  assumes "regex_documented B" and "\<forall>p \<in> set ps. goodProfile p"
  shows "\<exists>c. acceptLines B (concat (map profileLines ps)) W =
    Some (W\<lparr>store := store W @ map storedProfile ps,
      profiles := fold (\<lambda>(k, v). mapPut k v) (zip (map fst ps) [length (store W)..<length (store W) + length ps]) (profiles W),
      currentProfile := c\<rparr>)"
  using assms(2)
proof (induction ps arbitrary: W)
  case Nil
  show ?case by (rule exI [of _ "currentProfile W"]) simp
next
  case (Cons p ps)
  show ?case
    using Cons accept_profile [OF assms(1), of p W]
      Cons.IH [of "W\<lparr>store := store W @ [storedProfile p],
        profiles := mapPut (fst p) (length (store W)) (profiles W), currentProfile := Some (length (store W))\<rparr>"]
    by (simp add: acceptLines_append upt_conv_Cons del: upt_Suc)
qed

lemma accept_nodes:
  assumes "regex_documented B" and "cast_documented B" and "\<forall>iw \<in> set chosen. word (snd iw)"
  shows "acceptLines B (map nodeLine chosen) W =
    Some (W\<lparr>nodeProfiles := fold (\<lambda>(k, v). mapPut k v) chosen (nodeProfiles W)\<rparr>)"
  using assms(3)
proof (induction chosen arbitrary: W)
  case (Cons iw chosen)
  then show ?case
    using line_node [OF assms(1,2), of "snd iw" "fst iw" W] by (simp add: nodeLine_def split_def)
qed simp

lemma fold_constant:
  "fold (\<lambda>i. mapPut (of_nat i) name) is m = fold (\<lambda>(k, v). mapPut k v) (map (\<lambda>i. (of_nat i :: u32, name)) is) m"
  by (induction "is" arbitrary: m) simp_all

lemma find_setDefault:
  assumes "i < 4294967296"
  shows "mapFind (nodeProfiles (setDefault name W)) (of_nat i) =
    (if i < unat (nodes W) then Some name else mapFind (nodeProfiles W) (of_nat i))"
proof -
  have rev_of: "map_of (rev (map (\<lambda>i. (of_nat i :: u32, name)) is)) k = (if k \<in> of_nat ` set is then Some name else None)"
    for "is" and k :: u32
    by (induction "is") (auto simp: map_add_def)
  have mem: "(of_nat i :: u32) \<in> of_nat ` {0..<unat (nodes W)} \<longleftrightarrow> i < unat (nodes W)"
  proof
    assume "(of_nat i :: u32) \<in> of_nat ` {0..<unat (nodes W)}"
    then obtain j where j: "j < unat (nodes W)" and "(of_nat i :: u32) = of_nat j" by auto
    then have "unat (of_nat i :: u32) = unat (of_nat j :: u32)" by simp
    then show "i < unat (nodes W)"
      using assms j unat_u32_bound [of "nodes W"] unat_of_nat_u32 [of i] unat_of_nat_u32 [of j] by simp
  qed simp
  have "mapFind (nodeProfiles (setDefault name W)) (of_nat i) =
      mapFind (fold (\<lambda>(k, v). mapPut k v) (map (\<lambda>i. (of_nat i, name)) [0..<unat (nodes W)]) (nodeProfiles W)) (of_nat i)"
    by (simp only: setDefault_def fold_constant) simp
  also have "\<dots> = (if i < unat (nodes W) then Some name else mapFind (nodeProfiles W) (of_nat i))"
    unfolding stdmap.find_fold rev_of set_upt mem by simp
  finally show ?thesis .
qed

lemma plainLine_append:
  assumes "newline \<notin> set u" and "plainLine v" and "v \<noteq> []"
  shows "plainLine (u @ v)"
  using assms by (simp add: plainLine_def)

lemma plainLine_Cons [simp]: "s \<noteq> [] \<Longrightarrow> plainLine (c # s) \<longleftrightarrow> c \<noteq> newline \<and> plainLine s"
  by (auto simp: plainLine_def)

lemma word_plainLine: "word w \<Longrightarrow> plainLine w \<and> w \<noteq> []"
  using word_plain by (simp add: plainLine_def)

lemma configLines_plain:
  assumes "\<forall>p \<in> set ps. goodProfile p" and "word dflt" and "\<forall>iw \<in> set chosen. word (snd iw)"
  shows "\<forall>l \<in> set (configLines n d ps dflt chosen). plainLine l"
proof -
  have p: "\<forall>l \<in> set (profileLines p). plainLine l" if "goodProfile p" for p
    using that by (cases p) (auto simp: profileText_def intro!: plainLine_append dest: word_plainLine)
  have n: "plainLine (nodeLine iw)" if "word (snd iw)" for iw
    unfolding nodeLine_def using word_plainLine [OF that] word_plain(1) [OF showNat_word(1)]
    by (intro plainLine_append) auto
  have ps: "\<forall>l \<in> set (concat (map profileLines ps)). plainLine l"
    using assms(1) p by fastforce
  have "\<forall>l \<in> set (map nodeLine chosen). plainLine l"
    using assms(3) n by simp
  then show ?thesis
    using ps assms(2) word_plainLine [OF showNat_word(1)] word_plainLine [of dflt]
    by (simp add: configLines_def ball_Un del: profileLines.simps)
qed

lemma find_index:
  assumes "distinct ks" and "i < length ks"
  shows "mapFind (fold (\<lambda>(k, v). mapPut k v) (zip ks [0..<length ks]) mapEmpty) (ks ! i) = Some i"
proof -
  have "distinct (map fst (zip ks [0..<length ks]))"
    using assms(1) by simp
  then have "map_of (rev (zip ks [0..<length ks])) = map_of (zip ks [0..<length ks])"
    by (simp add: map_of_rev_distinct)
  moreover have "map_of (zip ks [0..<length ks]) (ks ! i) = Some i"
    using assms by (simp add: map_of_zip_nth)
  ultimately show ?thesis
    by (simp add: stdmap.find_fold)
qed

lemma accept_config:
  assumes "regex_documented B" and "cast_documented B" and "n \<noteq> 0"
    and "\<forall>p \<in> set ps. goodProfile p" and "word dflt" and "\<forall>iw \<in> set chosen. word (snd iw)"
  shows "\<exists>W. acceptLines B (configLines n d ps dflt chosen) newMasterWorkload = Some W
    \<and> nodes W = n \<and> workloadDuration W = d \<and> store W = map storedProfile ps
    \<and> profiles W = fold (\<lambda>(k, v). mapPut k v) (zip (map fst ps) [0..<length ps]) mapEmpty
    \<and> (\<forall>i < unat n. mapFind (nodeProfiles W) (of_nat i) = Some (chosenProfile dflt chosen (of_nat i)))"
proof -
  let ?W = "newMasterWorkload\<lparr>nodes := n, workloadDuration := d\<rparr>"
  let ?m = "fold (\<lambda>(k, v). mapPut k v) (zip (map fst ps) [0..<length ps]) mapEmpty"
  obtain c where c: "acceptLines B (concat (map profileLines ps)) ?W =
      Some (?W\<lparr>store := map storedProfile ps, profiles := ?m, currentProfile := c\<rparr>)"
    using accept_profiles [OF assms(1,4), of ?W] by (auto simp: newMasterWorkload_def)
  let ?V = "setDefault dflt (?W\<lparr>store := map storedProfile ps, profiles := ?m, currentProfile := c\<rparr>)"
  let ?U = "?V\<lparr>nodeProfiles := fold (\<lambda>(k, v). mapPut k v) chosen (nodeProfiles ?V)\<rparr>"
  have "acceptLines B [''nodes '' @ showNat (unat n), ''duration '' @ showNat (unat d)] newMasterWorkload = Some ?W"
    using line_nodes [OF assms(1,2), of n newMasterWorkload] line_duration [OF assms(1,2), of d]
    by (simp add: newMasterWorkload_def)
  moreover have "acceptLines B [''default-profile '' @ dflt]
      (?W\<lparr>store := map storedProfile ps, profiles := ?m, currentProfile := c\<rparr>) = Some ?V"
    using line_default [OF assms(1,5)] by simp
  ultimately have "acceptLines B (configLines n d ps dflt chosen) newMasterWorkload = Some ?U"
    unfolding configLines_def acceptLines_append
    using c accept_nodes [OF assms(1,2,6), of ?V] by simp
  moreover have "mapFind (nodeProfiles ?U) (of_nat i) = Some (chosenProfile dflt chosen (of_nat i))" if "i < unat n" for i
  proof -
    have "mapFind (nodeProfiles ?V) (of_nat i) = Some dflt"
      using that unat_u32_bound [of n] by (subst find_setDefault) auto
    then show ?thesis
      by (simp add: stdmap.find_fold chosenProfile_def split: option.split)
  qed
  ultimately show ?thesis
    by (intro exI [of _ ?U]) (simp add: setDefault_def)
qed

lemma chosenProfile_in:
  assumes "dflt \<in> S" and "\<forall>iw \<in> set chosen. snd iw \<in> S"
  shows "chosenProfile dflt chosen i \<in> S"
proof (cases "map_of (rev chosen) i")
  case (Some w)
  then have "(i, w) \<in> set chosen" using map_of_SomeD [of "rev chosen" i w] by simp
  then show ?thesis using assms(2) Some by (auto simp: chosenProfile_def)
qed (simp add: chosenProfile_def assms(1))

lemma written_profiles_complete:
  assumes "profiles W = fold (\<lambda>(k, v). mapPut k v) (zip (map fst ps) [0..<length ps]) mapEmpty"
    and "store W = map storedProfile ps" and "\<forall>p \<in> set ps. goodProfile p"
  shows "profilesComplete W"
  unfolding profilesComplete_def list_all_iff
proof (intro ballI, clarify)
  fix w r assume "(w, r) \<in> set (profiles W)"
  moreover have valid: "mapValid (profiles W)"
    unfolding assms(1) by (intro stdmap.valid_fold stdmap.valid_empty)
  ultimately have "mapFind (profiles W) w = Some r" using stdmap.entries_find [OF valid] by simp
  then have "r \<in> set [0..<length ps]"
    unfolding assms(1) stdmap.find_fold
    by (auto simp: stdmap.find_empty split: option.splits dest!: map_of_SomeD in_set_zipE set_zip_rightD)
  then have "goodProfile (ps ! r)" and "store W ! r = storedProfile (ps ! r)"
    using assms(2,3) by simp_all
  then show "MasterProfile_isComplete (store W ! r)"
    by (cases "ps ! r") (auto simp: MasterProfile_isComplete_def profileText_def)
qed

lemma written_config_loads:
  assumes "regex_documented B" and "cast_documented B" and "n \<noteq> 0" and "d \<noteq> 0"
    and "distinct (map fst ps)" and "\<forall>p \<in> set ps. goodProfile p"
    and "dflt \<in> fst ` set ps" and "\<forall>iw \<in> set chosen. snd iw \<in> fst ` set ps"
  obtains W where "loadConfig B (Some (linesText (configLines n d ps dflt chosen))) 0 newMasterWorkload = Inr (True, W)"
    and "nodes W = n" and "workloadDuration W = d" and "store W = map storedProfile ps"
    and "\<And>i. i < unat n \<Longrightarrow> mapFind (nodeProfiles W) (of_nat i) = Some (chosenProfile dflt chosen (of_nat i))"
    and "\<And>k. k < length ps \<Longrightarrow> mapFind (profiles W) (fst (ps ! k)) = Some k"
proof -
  have words: "\<forall>w \<in> fst ` set ps. word w"
    using assms(6) by fastforce
  obtain W where W: "acceptLines B (configLines n d ps dflt chosen) newMasterWorkload = Some W"
    and f: "nodes W = n" "workloadDuration W = d" "store W = map storedProfile ps"
    and m: "profiles W = fold (\<lambda>(k, v). mapPut k v) (zip (map fst ps) [0..<length ps]) mapEmpty"
    and np: "\<forall>i < unat n. mapFind (nodeProfiles W) (of_nat i) = Some (chosenProfile dflt chosen (of_nat i))"
    using accept_config [OF assms(1,2,3,6), of dflt chosen d] words assms(7,8) by blast
  have start: "newMasterWorkload\<lparr>nodes := word_of_int 0, workloadDuration := 0, profiles := mapEmpty, nodeProfiles := mapEmpty\<rparr> = newMasterWorkload"
    by (simp add: newMasterWorkload_def)
  have "\<forall>l \<in> set (configLines n d ps dflt chosen). plainLine l"
    using words assms(7,8) by (intro configLines_plain [OF assms(6)]) blast+
  from configLoop_lines [OF this W, of "[]"]
  have loop: "configLoop B (linesText (configLines n d ps dflt chosen), False) newMasterWorkload = Inr (True, W)"
    by (simp add: configLoop_end line_empty [OF assms(1)])
  have at: "mapFind (profiles W) (fst (ps ! k)) = Some k" if "k < length ps" for k
    using find_index [OF assms(5), of k] that m by simp
  have name: "\<exists>k < length ps. w = fst (ps ! k)" if "w \<in> fst ` set ps" for w
    using that by (metis imageE in_set_conv_nth)
  have "profilesComplete W"
    by (rule written_profiles_complete [OF m f(3) assms(6)])
  moreover have "nodesHaveProfiles W"
    unfolding nodesHaveProfiles_def list_all_iff
  proof (intro ballI)
    fix i assume "i \<in> set [0..<unat (nodes W)]"
    then have i: "mapFind (nodeProfiles W) (of_nat i) = Some (chosenProfile dflt chosen (of_nat i))"
      using np f(1) by simp
    have "chosenProfile dflt chosen (of_nat i) \<in> fst ` set ps"
      by (rule chosenProfile_in [OF assms(7,8)])
    then show "case mapFind (nodeProfiles W) (of_nat i) of None \<Rightarrow> False | Some name \<Rightarrow> mapFind (profiles W) name \<noteq> None"
      using i name at by fastforce
  qed
  moreover have "profiles W \<noteq> []"
    using name [OF assms(7)] at by fastforce
  ultimately have "loadConfig B (Some (linesText (configLines n d ps dflt chosen))) 0 newMasterWorkload = Inr (True, W)"
    using f assms(3,4) loop start by (simp add: loadConfig_def Let_def)
  then show thesis using that f np at by blast
qed

section \<open>Properties\<close>

text \<open>
  C25. A workload file that is accepted leaves nothing open: the number of nodes and the duration are
  not 0, and every node has a profile whose four texts are not empty, so that \<open>getNodeProfile\<close> never
  meets a missing entry or a null pointer. A number of nodes of the command line that is not 0 is
  the one that counts, whatever the file says.
\<close>

theorem loadConfig_complete:
  assumes "loadConfig B contents nodesArg W0 = Inr (True, W)"
  shows "nodes W \<noteq> 0 \<and> workloadDuration W \<noteq> 0
    \<and> (\<forall>i < unat (nodes W). \<exists>j l p g. getNodeProfile (of_nat i) W = Inr (j, l, p, g)
          \<and> j \<noteq> '''' \<and> l \<noteq> '''' \<and> p \<noteq> '''' \<and> g \<noteq> '''')
    \<and> ((word_of_int nodesArg :: u32) \<noteq> 0 \<longrightarrow> nodes W = word_of_int nodesArg)"
  using loadConfig_refs [OF assms] loadConfig_nodes_argument [OF assms] assms
  by (elim loadConfig_True) (metis getNodeProfile_checked)

definition exampleProfiles :: "(string \<times> profileTexts) list" where
  "exampleProfiles = [(''a'', ''now'', ''none'', ''none'', ''none''), (''b'', ''exact 1'', ''none'', ''none'', ''none'')]"

lemma exampleProfiles_good:
  "distinct (map fst exampleProfiles)" "\<forall>p \<in> set exampleProfiles. goodProfile p"
  "''a'' \<in> fst ` set exampleProfiles" "\<forall>iw \<in> set [(1 :: u32, ''b'')]. snd iw \<in> fst ` set exampleProfiles"
  by (simp_all add: exampleProfiles_def profileText_def word_def isWordChar_def isDigit_def plainLine_def backslash_def)

theorem loadConfig_complete_witness:
  "\<exists>W contents. loadConfig refBoost contents 0 newMasterWorkload = Inr (True, W) \<and> nodes W = 3
    \<and> (\<exists>j l p g. getNodeProfile 2 W = Inr (j, l, p, g) \<and> j \<noteq> '''')"
proof -
  obtain W contents where W: "loadConfig refBoost contents 0 newMasterWorkload = Inr (True, W)" and n: "nodes W = 3"
    by (rule written_config_loads [OF refBoost_regex refBoost_cast _ _ exampleProfiles_good, of 3 60]) simp_all
  have "(2::nat) < unat (nodes W)" by (simp add: n)
  with loadConfig_complete [OF W] have "\<exists>j l p g. getNodeProfile (of_nat 2) W = Inr (j, l, p, g) \<and> j \<noteq> ''''"
    by blast
  then show ?thesis using W n by auto
qed

text \<open>
  A line that ends with a backslash is continued by the next one: the file is read exactly as if
  the two lines were written as one. This also holds if the joined line ends with a backslash again.
\<close>

theorem continuation_joined:
  assumes "newline \<notin> set l" and "newline \<notin> set l'"
  shows "configLoop B (l @ backslash # newline # l' @ newline # rest, False) W =
    configLoop B (l @ l' @ newline # rest, False) W"
proof -
  have "newline \<notin> set (l @ [backslash])" and "newline \<notin> set (l @ l')"
    using assms by (simp_all add: backslash_def)
  then have "getline (l @ backslash # newline # l' @ newline # rest, False) = (l @ [backslash], l' @ newline # rest, False)"
    and "getline (l @ l' @ newline # rest, False) = (l @ l', rest, False)"
    using getline_line(1) [of "l @ [backslash]"] getline_line(1) [of "l @ l'"] by simp_all
  then show ?thesis
    using getline_line(1) [OF assms(2), of rest] continued_backslash [of l "(l' @ newline # rest, False)"]
    by (simp add: configLoop.simps [of B "(l @ backslash # newline # l' @ newline # rest, False)"]
        configLoop.simps [of B "(l @ l' @ newline # rest, False)"])
qed

theorem continuation_joined_witness:
  "configLoop refBoost (''put '' @ backslash # newline # ''none'' @ newline # [], False) newMasterWorkload
    = configLoop refBoost (''put none'' @ [newline], False) newMasterWorkload"
  using continuation_joined [of "''put ''" "''none''" refBoost "[]" newMasterWorkload] by simp

text \<open>
  C15. A workload file written in the documented language - the number of nodes, the duration, the
  profiles with their four lines, the default and the choices of single nodes - is accepted, and every
  node gets the texts of the profile of the last \<open>node\<close> line for it, or of the default.
\<close>

theorem workload_file_roundtrip:
  assumes "regex_documented B" and "cast_documented B" and "n \<noteq> 0" and "d \<noteq> 0"
    and "distinct (map fst ps)" and "\<forall>p \<in> set ps. goodProfile p"
    and "dflt \<in> fst ` set ps" and "\<forall>iw \<in> set chosen. snd iw \<in> fst ` set ps"
  shows "\<exists>W. loadConfig B (Some (linesText (configLines n d ps dflt chosen))) 0 newMasterWorkload = Inr (True, W)
    \<and> nodes W = n \<and> workloadDuration W = d
    \<and> (\<forall>i < unat n. \<exists>t. map_of ps (chosenProfile dflt chosen (of_nat i)) = Some t
          \<and> getNodeProfile (of_nat i) W = Inr t)"
proof -
  obtain W where W: "loadConfig B (Some (linesText (configLines n d ps dflt chosen))) 0 newMasterWorkload = Inr (True, W)"
    "nodes W = n" "workloadDuration W = d" and st: "store W = map storedProfile ps"
    and np: "\<And>i. i < unat n \<Longrightarrow> mapFind (nodeProfiles W) (of_nat i) = Some (chosenProfile dflt chosen (of_nat i))"
    and at: "\<And>k. k < length ps \<Longrightarrow> mapFind (profiles W) (fst (ps ! k)) = Some k"
    using written_config_loads [OF assms] by metis
  have "\<exists>t. map_of ps (chosenProfile dflt chosen (of_nat i)) = Some t \<and> getNodeProfile (of_nat i) W = Inr t"
    if "i < unat n" for i
  proof -
    have "chosenProfile dflt chosen (of_nat i) \<in> fst ` set ps"
      by (rule chosenProfile_in [OF assms(7,8)])
    then obtain k where k: "k < length ps" "chosenProfile dflt chosen (of_nat i) = fst (ps ! k)"
      by (metis imageE in_set_conv_nth)
    obtain w j l p g where p: "ps ! k = (w, j, l, p, g)" by (metis surj_pair)
    have "map_of ps (fst (ps ! k)) = Some (snd (ps ! k))"
      using k(1) assms(5) by (simp add: map_of_eq_Some_iff)
    moreover have "getNodeProfile (of_nat i) W = Inr (j, l, p, g)"
      using np [OF that] at [OF k(1)] k st p
      by (simp add: getNodeProfile_def mapAt_def vectorAt_def MasterProfile_getProfile_def)
    ultimately show ?thesis using k p by simp
  qed
  then show ?thesis using W by blast
qed

theorem workload_file_roundtrip_witness:
  "\<exists>W. loadConfig refBoost (Some (linesText (configLines 3 60 exampleProfiles ''a'' [(1, ''b'')]))) 0 newMasterWorkload
        = Inr (True, W)
    \<and> getNodeProfile 1 W = Inr (''exact 1'', ''none'', ''none'', ''none'')"
proof -
  obtain W where W: "loadConfig refBoost (Some (linesText (configLines 3 60 exampleProfiles ''a'' [(1, ''b'')]))) 0
      newMasterWorkload = Inr (True, W)"
    and "\<forall>i < unat (3 :: u32). \<exists>t. map_of exampleProfiles (chosenProfile ''a'' [(1, ''b'')] (of_nat i)) = Some t
          \<and> getNodeProfile (of_nat i) W = Inr t"
    using workload_file_roundtrip [OF refBoost_regex refBoost_cast _ _ exampleProfiles_good, of 3 60] by auto
  from spec [OF this(2), of 1] show ?thesis
    using W by (simp add: chosenProfile_def exampleProfiles_def)
qed

end
