(* ===== verification/GeneralMetrics.thy ===== *)
theory GeneralMetrics
  imports NodeMetrics
begin

text \<open>
  The metrics over all nodes, \<open>src/src/metrics/GeneralLatency.cpp\<close> and \<open>GeneralSuccessRate.cpp\<close>.
  The queries that would read a maximum or minimum that was never set return a failure; the
  properties show that the guards of the code exclude it.
\<close>

section \<open>GeneralLatency\<close>

record GeneralLatency =
  latencyNodes :: "NodeLatency list"
  meansStatistics :: "real Statistics"
  generalStatistics :: "int Statistics"

definition newGeneralLatency :: "int \<Rightarrow> GeneralLatency" where
  "newGeneralLatency interval =
     \<lparr>latencyNodes = [], meansStatistics = newStatistics 0, generalStatistics = newStatistics interval\<rparr>"

definition GeneralLatency_push :: "NodeLatency \<Rightarrow> GeneralLatency \<Rightarrow> GeneralLatency" where
  "GeneralLatency_push node G =
     (if NodeLatency_count node = 0 then G
      else \<lparr>latencyNodes = latencyNodes G @ [node],
            meansStatistics = pushDouble (meanInMicroseconds node) (meansStatistics G),
            generalStatistics = fold (\<lambda>(t, d). pushLong d) (measurements node) (generalStatistics G)\<rparr>)"

definition meanOfMeansInMicroseconds :: "GeneralLatency \<Rightarrow> real" where
  "meanOfMeansInMicroseconds G = (if latencyNodes G \<noteq> [] then Statistics_mean (meansStatistics G) else 0)"

definition maxMeanInMicroseconds :: "GeneralLatency \<Rightarrow> real result" where
  "maxMeanInMicroseconds G = (if latencyNodes G \<noteq> [] then Statistics_max (meansStatistics G) else Inr 0)"

definition minMeanInMicroseconds :: "GeneralLatency \<Rightarrow> real result" where
  "minMeanInMicroseconds G = (if latencyNodes G \<noteq> [] then Statistics_min (meansStatistics G) else Inr 0)"

definition generalMeanInMicroseconds :: "GeneralLatency \<Rightarrow> real" where
  "generalMeanInMicroseconds G = (if latencyNodes G \<noteq> [] then Statistics_mean (generalStatistics G) else 0)"

definition generalMaxInMicroseconds :: "GeneralLatency \<Rightarrow> int result" where
  "generalMaxInMicroseconds G = (if latencyNodes G \<noteq> [] then Statistics_max (generalStatistics G) else Inr 0)"

definition generalMinInMicroseconds :: "GeneralLatency \<Rightarrow> int result" where
  "generalMinInMicroseconds G = (if latencyNodes G \<noteq> [] then Statistics_min (generalStatistics G) else Inr 0)"

definition GeneralLatency_count :: "GeneralLatency \<Rightarrow> u64" where
  "GeneralLatency_count G = (if latencyNodes G \<noteq> [] then Statistics_count (generalStatistics G) else 0)"

definition GeneralLatency_getFrequencyMap :: "GeneralLatency \<Rightarrow> int \<times> (int, u64) stdmap" where
  "GeneralLatency_getFrequencyMap G = getFrequencyMap (generalStatistics G)"

section \<open>GeneralSuccessRate\<close>

record GeneralSuccessRate =
  rateNodes :: "NodeSuccessRate list"
  rateStatistics :: "real Statistics"

definition newGeneralSuccessRate :: GeneralSuccessRate where
  "newGeneralSuccessRate = \<lparr>rateNodes = [], rateStatistics = newStatistics 0\<rparr>"

definition GeneralSuccessRate_push :: "NodeSuccessRate \<Rightarrow> GeneralSuccessRate \<Rightarrow> GeneralSuccessRate" where
  "GeneralSuccessRate_push node G =
     (if NodeSuccessRate_count node = 0 then G
      else \<lparr>rateNodes = rateNodes G @ [node],
            rateStatistics = pushDouble (successRate node) (rateStatistics G)\<rparr>)"

definition rateMean :: "GeneralSuccessRate \<Rightarrow> real" where
  "rateMean G = (if Statistics_count (rateStatistics G) \<noteq> 0 then Statistics_mean (rateStatistics G) else 0)"

definition rateMin :: "GeneralSuccessRate \<Rightarrow> real result" where
  "rateMin G = (if Statistics_count (rateStatistics G) \<noteq> 0 then Statistics_min (rateStatistics G) else Inr 0)"

definition rateMax :: "GeneralSuccessRate \<Rightarrow> real result" where
  "rateMax G = (if Statistics_count (rateStatistics G) \<noteq> 0 then Statistics_max (rateStatistics G) else Inr 0)"

section \<open>What the general metrics summarise\<close>

text \<open>The nodes that count, and their measured durations in the order in which they are pushed.\<close>

definition countedNodes :: "NodeLatency list \<Rightarrow> NodeLatency list" where
  "countedNodes ns = filter (\<lambda>n. NodeLatency_count n \<noteq> 0) ns"

definition allDurations :: "NodeLatency list \<Rightarrow> int list" where
  "allDurations ns = concat (map (\<lambda>n. map snd (measurements n)) (countedNodes ns))"

lemma fold_pushLong: "fold (\<lambda>(t, d). pushLong d) ms S = pushAll real_of_int longQuot (map snd ms) S"
  by (induction ms arbitrary: S) (auto simp: pushAll_def)

lemma pushAll_simps [simp]:
  "pushAll f q [] S = S"
  "pushAll f q (x # xs) S = pushAll f q xs (Statistics_push f q x S)"
  "pushAll f q (xs @ ys) S = pushAll f q ys (pushAll f q xs S)"
  by (simp_all add: pushAll_def)

lemma GeneralLatency_fold:
  "fold GeneralLatency_push ns G =
     \<lparr>latencyNodes = latencyNodes G @ countedNodes ns,
      meansStatistics = pushAll (\<lambda>x. x) doubleQuot (map meanInMicroseconds (countedNodes ns)) (meansStatistics G),
      generalStatistics = pushAll real_of_int longQuot (allDurations ns) (generalStatistics G)\<rparr>"
proof (induction ns arbitrary: G)
  case Nil
  then show ?case by (simp add: countedNodes_def allDurations_def)
next
  case (Cons n ns)
  have "fold GeneralLatency_push (n # ns) G = fold GeneralLatency_push ns (GeneralLatency_push n G)"
    by simp
  also note Cons.IH
  finally show ?case
    by (simp only:) (simp add: GeneralLatency_push_def countedNodes_def allDurations_def fold_pushLong)
qed

lemma GeneralSuccessRate_fold:
  "fold GeneralSuccessRate_push ns G =
     \<lparr>rateNodes = rateNodes G @ filter (\<lambda>n. NodeSuccessRate_count n \<noteq> 0) ns,
      rateStatistics = pushAll (\<lambda>x. x) doubleQuot
        (map successRate (filter (\<lambda>n. NodeSuccessRate_count n \<noteq> 0) ns)) (rateStatistics G)\<rparr>"
  by (induction ns arbitrary: G) (simp_all add: GeneralSuccessRate_push_def)

lemma length_countedNodes_le:
  assumes "\<forall>n \<in> set ns. NodeLatency_count n \<noteq> 0 \<longrightarrow> measurements n \<noteq> []"
  shows "length (countedNodes ns) \<le> length (allDurations ns)"
  using assms
proof (induction ns)
  case (Cons n ns)
  then show ?case
    by (cases "measurements n") (auto simp: countedNodes_def allDurations_def)
qed (simp add: countedNodes_def)

section \<open>Properties\<close>

text \<open>
  The general latency of any list of nodes is the statistics of all measured durations of the
  nodes that have some, and of their means: no query reads an uninitialised extreme, the general
  mean and the mean of means lie between their minimum and maximum, and the count is the number of
  durations.
\<close>

theorem general_latency_statistics:
  assumes "G = fold GeneralLatency_push ns (newGeneralLatency interval)"
    and "\<forall>n \<in> set ns. NodeLatency_count n \<noteq> 0 \<longrightarrow> measurements n \<noteq> []"
    and "length (allDurations ns) < 2 ^ 64"
  shows "summarises real_of_int longQuot interval (allDurations ns) (generalStatistics G)
    \<and> (\<exists>lo hi loMean hiMean. generalMinInMicroseconds G = Inr lo \<and> generalMaxInMicroseconds G = Inr hi
         \<and> minMeanInMicroseconds G = Inr loMean \<and> maxMeanInMicroseconds G = Inr hiMean
         \<and> real_of_int lo \<le> generalMeanInMicroseconds G \<and> generalMeanInMicroseconds G \<le> real_of_int hi
         \<and> loMean \<le> meanOfMeansInMicroseconds G \<and> meanOfMeansInMicroseconds G \<le> hiMean)
    \<and> unat (GeneralLatency_count G) = length (allDurations ns)"
proof -
  let ?means = "map meanInMicroseconds (countedNodes ns)"
  have G: "latencyNodes G = countedNodes ns"
      "meansStatistics G = pushAll (\<lambda>x. x) doubleQuot ?means (newStatistics 0)"
      "generalStatistics G = pushAll real_of_int longQuot (allDurations ns) (newStatistics interval)"
    unfolding assms(1) GeneralLatency_fold by (simp_all add: newGeneralLatency_def)
  have few: "length ?means < 18446744073709551616"
    using length_countedNodes_le [OF assms(2)] assms(3) by simp
  have general: "summarises real_of_int longQuot interval (allDurations ns) (generalStatistics G)"
    unfolding G by (rule summarises_pushAll) (use assms(3) in simp)
  have means: "summarises (\<lambda>x. x) doubleQuot 0 ?means (meansStatistics G)"
    unfolding G by (rule summarises_pushAll [OF few])
  have count: "unat (elementCount (generalStatistics G)) = length (allDurations ns)"
    using general assms(3) by (simp add: summarises_def unat_of_nat)
  show ?thesis
  proof (cases "countedNodes ns = []")
    case True
    then show ?thesis
      using general G(1)
      by (simp add: generalMinInMicroseconds_def generalMaxInMicroseconds_def minMeanInMicroseconds_def
          maxMeanInMicroseconds_def generalMeanInMicroseconds_def meanOfMeansInMicroseconds_def
          GeneralLatency_count_def allDurations_def)
  next
    case False
    then have ne: "allDurations ns \<noteq> []" "?means \<noteq> []"
      using length_countedNodes_le [OF assms(2)] by auto
    show ?thesis
      using general long.mean_between [OF general ne(1)] double.mean_between [OF means ne(2)] False G(1) count
      by (auto simp: generalMinInMicroseconds_def generalMaxInMicroseconds_def minMeanInMicroseconds_def
          maxMeanInMicroseconds_def generalMeanInMicroseconds_def meanOfMeansInMicroseconds_def
          GeneralLatency_count_def Statistics_min_def Statistics_max_def Statistics_mean_def Statistics_count_def)
  qed
qed

theorem general_latency_statistics_witness:
  "let node = push_with_time 1 30 newNodeLatency; idle = newNodeLatency;
       G = fold GeneralLatency_push [node, idle, push_with_time 2 50 newNodeLatency] (newGeneralLatency 20)
   in unat (GeneralLatency_count G) = 2"
proof -
  let ?ns = "[push_with_time 1 30 newNodeLatency, newNodeLatency, push_with_time 2 50 newNodeLatency]"
  have count: "NodeLatency_count (push_with_time t d newNodeLatency) = 1" "NodeLatency_count newNodeLatency = 0" for t d
    by (simp_all add: NodeLatency_count_def Statistics_count_def push_with_time_def newNodeLatency_def newStatistics_def)
  then have "\<forall>n \<in> set ?ns. NodeLatency_count n \<noteq> 0 \<longrightarrow> measurements n \<noteq> []"
    by (simp add: push_with_time_def newNodeLatency_def mapEmpty_def)
  moreover have durations: "allDurations ?ns = [30, 50]"
    using count by (simp add: allDurations_def countedNodes_def)
      (simp add: push_with_time_def newNodeLatency_def mapEmpty_def)
  ultimately have "unat (GeneralLatency_count (fold GeneralLatency_push ?ns (newGeneralLatency 20))) = length [30, 50 :: int]"
    using general_latency_statistics [OF refl, of ?ns 20] by (simp del: fold.simps)
  then show ?thesis
    by (simp add: Let_def)
qed

text \<open>
  The general success rate of any list of nodes ignores those that counted nothing, never reads an
  uninitialised extreme, and its minimum, mean and maximum are in this order.
\<close>

theorem general_success_rate_statistics:
  assumes "G = fold GeneralSuccessRate_push ns newGeneralSuccessRate" and "length ns < 2 ^ 64"
  shows "\<exists>lo hi. rateMin G = Inr lo \<and> rateMax G = Inr hi \<and> lo \<le> rateMean G \<and> rateMean G \<le> hi
    \<and> rateNodes G = filter (\<lambda>n. NodeSuccessRate_count n \<noteq> 0) ns"
proof -
  let ?rates = "map successRate (filter (\<lambda>n. NodeSuccessRate_count n \<noteq> 0) ns)"
  have G: "rateNodes G = filter (\<lambda>n. NodeSuccessRate_count n \<noteq> 0) ns"
      "rateStatistics G = pushAll (\<lambda>x. x) doubleQuot ?rates (newStatistics 0)"
    unfolding assms(1) GeneralSuccessRate_fold by (simp_all add: newGeneralSuccessRate_def)
  have "length ?rates < 18446744073709551616"
    using assms(2) by (simp add: order.strict_trans1 [OF length_filter_le])
  then have s: "summarises (\<lambda>x. x) doubleQuot 0 ?rates (rateStatistics G)"
    unfolding G by (rule summarises_pushAll)
  show ?thesis
  proof (cases "?rates = []")
    case True
    then have "elementCount (rateStatistics G) = 0"
      using s by (simp add: summarises_def)
    then show ?thesis
      using G(1) by (simp add: rateMin_def rateMax_def rateMean_def Statistics_count_def)
  next
    case False
    then show ?thesis
      using double.mean_between [OF s False] G(1)
      by (auto simp: rateMin_def rateMax_def rateMean_def Statistics_count_def
          Statistics_min_def Statistics_max_def Statistics_mean_def)
  qed
qed

theorem general_success_rate_statistics_witness:
  "\<exists>lo hi. rateMin (fold GeneralSuccessRate_push [\<lparr>hits = 1, misses = 1\<rparr>, \<lparr>hits = 0, misses = 0\<rparr>] newGeneralSuccessRate) = Inr lo
    \<and> rateMax (fold GeneralSuccessRate_push [\<lparr>hits = 1, misses = 1\<rparr>, \<lparr>hits = 0, misses = 0\<rparr>] newGeneralSuccessRate) = Inr hi
    \<and> lo \<le> hi"
  using general_success_rate_statistics [OF refl, of "[\<lparr>hits = 1, misses = 1\<rparr>, \<lparr>hits = 0, misses = 0\<rparr>]"]
  by fastforce

end
