(* ===== verification/ResultProcessor.thy ===== *)
theory ResultProcessor
  imports GeneralMetrics Events
begin

text \<open>
  \<open>src/src/master/ResultProcessor.cpp\<close>: the dispatch of the reported results and the tables that are
  appended to the output files. A file is the list of its lines and a line the list of its cells; the
  padding of the cells (\<open>setw\<close>), the number of printed digits and the copy of the figures on the
  console are not modelled.
\<close>

section \<open>State\<close>

record ResultProcessor =
  resultDhtType :: string
  joinLatencies :: GeneralLatency
  leaveLatencies :: GeneralLatency
  putLatencies :: GeneralLatency
  getLatencies :: GeneralLatency
  joinSuccessRates :: GeneralSuccessRate
  getSuccessRates :: GeneralSuccessRate
  nodesStatus :: NodesStatus

definition newResultProcessor :: "string \<Rightarrow> bool \<Rightarrow> ResultProcessor" where
  "newResultProcessor dhtType lowLatency =
     (let R = \<lparr>resultDhtType = dhtType,
               joinLatencies = newGeneralLatency (500 * 1000),
               leaveLatencies = newGeneralLatency (500 * 1000),
               putLatencies = newGeneralLatency (50 * 1000),
               getLatencies = newGeneralLatency (50 * 1000),
               joinSuccessRates = newGeneralSuccessRate,
               getSuccessRates = newGeneralSuccessRate,
               nodesStatus = newNodesStatus\<rparr>
      in if lowLatency
         then R\<lparr>joinLatencies := newGeneralLatency (250 * 1000),
                leaveLatencies := newGeneralLatency (250 * 1000),
                putLatencies := newGeneralLatency (10 * 1000),
                getLatencies := newGeneralLatency (10 * 1000)\<rparr>
         else R)"

section \<open>Results of the nodes\<close>

definition pushLatency :: "'b boost_scheme \<Rightarrow> DhtOperation \<Rightarrow> string \<Rightarrow> ResultProcessor \<Rightarrow> ResultProcessor result" where
  "pushLatency B operation reported R =
     andThen (NodeLatency_fromString B reported) (\<lambda>node.
     case operation of
       Join \<Rightarrow> Inr (R\<lparr>joinLatencies := GeneralLatency_push node (joinLatencies R)\<rparr>)
     | Leave \<Rightarrow> Inr (R\<lparr>leaveLatencies := GeneralLatency_push node (leaveLatencies R)\<rparr>)
     | Put \<Rightarrow> Inr (R\<lparr>putLatencies := GeneralLatency_push node (putLatencies R)\<rparr>)
     | Get \<Rightarrow> Inr (R\<lparr>getLatencies := GeneralLatency_push node (getLatencies R)\<rparr>))"

definition pushSuccessRate :: "DhtOperation \<Rightarrow> string \<Rightarrow> ResultProcessor \<Rightarrow> ResultProcessor result" where
  "pushSuccessRate operation reported R =
     (let node = NodeSuccessRate_fromString reported
      in case operation of
           Join \<Rightarrow> Inr (R\<lparr>joinSuccessRates := GeneralSuccessRate_push node (joinSuccessRates R)\<rparr>)
         | Get \<Rightarrow> Inr (R\<lparr>getSuccessRates := GeneralSuccessRate_push node (getSuccessRates R)\<rparr>)
         | _ \<Rightarrow> Inl ExitFailure)"

definition pushStatus :: "string \<Rightarrow> ResultProcessor \<Rightarrow> ResultProcessor" where
  "pushStatus reported R = R\<lparr>nodesStatus := NodesStatus_set reported (nodesStatus R)\<rparr>"

definition pushResult :: "'b boost_scheme \<Rightarrow> string \<Rightarrow> string \<Rightarrow> ResultProcessor \<Rightarrow> ResultProcessor result" where
  "pushResult B type reported R =
     (if type = ''JoinLatency'' then pushLatency B Join reported R
      else if type = ''LeaveLatency'' then pushLatency B Leave reported R
      else if type = ''PutLatency'' then pushLatency B Put reported R
      else if type = ''GetLatency'' then pushLatency B Get reported R
      else if type = ''JoinSuccessRate'' then pushSuccessRate Join reported R
      else if type = ''GetSuccessRate'' then pushSuccessRate Get reported R
      else if type = ''NodesStatus'' then Inr (pushStatus reported R)
      else Inl ExitFailure)"

section \<open>Output files\<close>

datatype cell = Label string | Whole int | Decimals real | NotANumber | Infinite

type_synonym table = "cell list list"

record outputFiles =
  contents :: "string \<Rightarrow> table"
  openFails :: "string \<Rightarrow> bool"

text \<open>Opening in append mode, and writing to the end.\<close>

definition appendRows :: "string \<Rightarrow> (table \<Rightarrow> table) \<Rightarrow> outputFiles \<Rightarrow> outputFiles result" where
  "appendRows name rows F =
     (if openFails F name then Inl ExitFailure
      else Inr (F\<lparr>contents := (contents F)(name := contents F name @ rows (contents F name))\<rparr>))"

definition latencyHeader :: "cell list" where
  "latencyHeader = map Label
     [''# DHT type'', ''Min'', ''Min mean'', ''Mean'', ''Mean of means'', ''Max mean'', ''Max'']"

definition quoted :: "string \<Rightarrow> string" where
  "quoted s = CHR 0x22 # s @ [CHR 0x22]"

text \<open>\<open>accumulated / total\<close> in \<open>double\<close>.\<close>

definition fraction :: "int \<Rightarrow> real \<Rightarrow> cell" where
  "fraction accumulated totalCount =
     (if totalCount = 0 then (if accumulated = 0 then NotANumber else Infinite)
      else Decimals (real_of_int accumulated / totalCount))"

text \<open>\<open>n\<close> iterations of the loop from bucket \<open>i\<close>; \<open>i\<close> and \<open>accumulated\<close> are its variables.\<close>

primrec cdfLoop :: "nat \<Rightarrow> (int, u64) stdmap \<Rightarrow> int \<Rightarrow> real \<Rightarrow> int \<Rightarrow> int \<Rightarrow> table" where
  "cdfLoop 0 freq interval totalCount i accumulated = []"
| "cdfLoop (Suc n) freq interval totalCount i accumulated =
     (let accumulated = accumulated + uint (mapAt 0 freq i)
      in [Whole ((i + 1) * interval sdiv 1000), fraction accumulated totalCount]
         # cdfLoop n freq interval totalCount (i + 1) accumulated)"

definition cdfRows :: "GeneralLatency \<Rightarrow> table" where
  "cdfRows G =
     (let (interval, freq) = GeneralLatency_getFrequencyMap G;
          totalCount = real_of_int (uint (GeneralLatency_count G))
      in [Whole 0, Whole 0] # cdfLoop 30 freq interval totalCount 0 0)"

definition processLatency :: "string \<Rightarrow> GeneralLatency \<Rightarrow> string \<Rightarrow> outputFiles \<Rightarrow> outputFiles result" where
  "processLatency prefix G dhtType F =
     andThen (generalMinInMicroseconds G) (\<lambda>lo.
     andThen (generalMaxInMicroseconds G) (\<lambda>hi.
     andThen (minMeanInMicroseconds G) (\<lambda>loMean.
     andThen (maxMeanInMicroseconds G) (\<lambda>hiMean.
     andThen (appendRows (prefix @ ''-latency.csv'') (\<lambda>old.
        (if old = [] then [latencyHeader] else []) @
        [[Label (quoted dhtType), Whole lo, Decimals loMean, Decimals (generalMeanInMicroseconds G),
          Decimals (meanOfMeansInMicroseconds G), Decimals hiMean, Whole hi]]) F) (\<lambda>F.
     appendRows (prefix @ ''-latency-cdf.csv'') (\<lambda>old.
        (if old = [] then [[Label ''# Range '', Label ''CDF'']] else [[], []]) @
        [[Label (''# ['' @ dhtType @ '']'')]] @ cdfRows G) F)))))"

definition processSuccessRate :: "string \<Rightarrow> GeneralSuccessRate \<Rightarrow> string \<Rightarrow> outputFiles \<Rightarrow> outputFiles result" where
  "processSuccessRate prefix G dhtType F =
     andThen (rateMin G) (\<lambda>lo.
     andThen (rateMax G) (\<lambda>hi.
     appendRows (prefix @ ''-success-rate.csv'') (\<lambda>old.
        (if old = [] then [map Label [''# DHT type'', ''Min'', ''Mean'', ''Max'']] else []) @
        [[Label (quoted dhtType), Decimals lo, Decimals (rateMean G), Decimals hi]]) F))"

definition processNodesStatus :: "NodesStatus \<Rightarrow> string \<Rightarrow> outputFiles \<Rightarrow> outputFiles result" where
  "processNodesStatus N dhtType F =
     appendRows ''nodes-status.csv'' (\<lambda>old.
        (if old = [] then [map Label [''# DHT type '', ''Finished'', ''Failed'', ''Unfinished'']] else []) @
        [[Label (quoted dhtType), Whole (finished N), Whole (failed N), Whole (unfinished N)]]) F"

definition process :: "ResultProcessor \<Rightarrow> outputFiles \<Rightarrow> outputFiles result" where
  "process R F =
     (let t = resultDhtType R in
      andThen (processLatency ''join'' (joinLatencies R) t F) (\<lambda>F.
      andThen (processLatency ''leave'' (leaveLatencies R) t F) (\<lambda>F.
      andThen (processLatency ''put'' (putLatencies R) t F) (\<lambda>F.
      andThen (processLatency ''get'' (getLatencies R) t F) (\<lambda>F.
      andThen (processSuccessRate ''join'' (joinSuccessRates R) t F) (\<lambda>F.
      andThen (processSuccessRate ''get'' (getSuccessRates R) t F) (\<lambda>F.
      processNodesStatus (nodesStatus R) t F)))))))"

section \<open>The cumulative distribution\<close>

text \<open>How many of the durations are below \<open>x\<close>, and the share that this is of all.\<close>

definition below :: "int list \<Rightarrow> int \<Rightarrow> nat" where
  "below ds x = length (filter (\<lambda>d. d < x) ds)"

definition cdfAt :: "int list \<Rightarrow> int \<Rightarrow> real" where
  "cdfAt ds x = real (below ds x) / real (length ds)"

text \<open>The cell of \<open>below ds x\<close>; without durations the program divides zero by zero.\<close>

definition share :: "int list \<Rightarrow> int \<Rightarrow> cell" where
  "share ds x = (if ds = [] then NotANumber else Decimals (cdfAt ds x))"

lemma fraction_share: "fraction (int (below ds x)) (real (length ds)) = share ds x"
  by (simp add: fraction_def share_def cdfAt_def below_def)

text \<open>The table of a list of durations, with 30 buckets of width \<open>w\<close>.\<close>

definition cdfTable :: "int \<Rightarrow> int list \<Rightarrow> table" where
  "cdfTable w ds = [Whole 0, Whole 0] # map (\<lambda>j. [Whole ((int j + 1) * w sdiv 1000), share ds ((int j + 1) * w)]) [0..<30]"

lemma longQuot_bucket:
  assumes "0 \<le> d" and "0 < w" and "0 \<le> i"
  shows "longQuot d w = i \<longleftrightarrow> i * w \<le> d \<and> d < (i + 1) * w"
proof -
  have "longQuot d w = d div w"
    using assms(1,2) by (auto simp: longQuot_def signed_divide_int_def sgn_if)
  moreover have "d div w = i" if "i * w \<le> d" "d < (i + 1) * w"
    by (rule int_div_pos_eq [of d w i "d - w * i"]) (use that in \<open>simp_all add: algebra_simps\<close>)
  moreover have "i * w \<le> d \<and> d < (i + 1) * w" if "d div w = i"
    using that pos_mod_sign [OF assms(2), of d] pos_mod_bound [OF assms(2), of d] div_mult_mod_eq [of d w]
    by (simp add: algebra_simps)
  ultimately show ?thesis by auto
qed

lemma below_step:
  assumes "\<forall>d \<in> set ds. 0 \<le> d" and "0 < w" and "0 \<le> i"
  shows "below ds (i * w) + length (filter (\<lambda>d. longQuot d w = i) ds) = below ds ((i + 1) * w)"
  using assms(1)
proof (induction ds)
  case (Cons d ds)
  have "i * w \<le> (i + 1) * w"
    using assms(2) by (simp add: algebra_simps)
  moreover have "longQuot d w = i \<longleftrightarrow> i * w \<le> d \<and> d < (i + 1) * w"
    using Cons.prems assms(2,3) by (intro longQuot_bucket) auto
  ultimately show ?case
    using Cons by (auto simp: below_def)
qed (simp add: below_def)

lemma cdfLoop_rows:
  assumes freq: "\<And>j. uint (mapAt 0 freq j) = int (length (filter (\<lambda>d. longQuot d w = j) ds))"
    and "\<forall>d \<in> set ds. 0 \<le> d" and "0 < w" and "0 \<le> i"
  shows "cdfLoop n freq w (real (length ds)) i (int (below ds (i * w))) =
    map (\<lambda>j. [Whole ((i + int j + 1) * w sdiv 1000), share ds ((i + int j + 1) * w)]) [0..<n]"
  using assms(4)
proof (induction n arbitrary: i)
  case (Suc n)
  define row where "row x = [Whole (x * w sdiv 1000), share ds (x * w)]" for x
  have acc: "int (below ds (i * w)) + uint (mapAt 0 freq i) = int (below ds ((i + 1) * w))"
    using below_step [OF assms(2,3) Suc.prems] freq [of i] by simp
  have "cdfLoop (Suc n) freq w (real (length ds)) i (int (below ds (i * w))) =
      row (i + 1) # cdfLoop n freq w (real (length ds)) (i + 1) (int (below ds ((i + 1) * w)))"
    unfolding cdfLoop.simps acc Let_def fraction_share by (simp add: row_def)
  also have "\<dots> = row (i + 1) # map (\<lambda>j. row (i + 1 + int j + 1)) [0..<n]"
    unfolding row_def using Suc.IH [of "i + 1"] Suc.prems by simp
  also have "\<dots> = map (\<lambda>j. row (i + int j + 1)) [0..<Suc n]"
    unfolding map_upt_Suc by (simp add: algebra_simps)
  finally show ?case
    by (simp only: row_def)
qed simp

lemma below_mono: "x \<le> y \<Longrightarrow> below ds x \<le> below ds y"
  by (induction ds) (auto simp: below_def)

lemma below_le: "below ds x \<le> length ds"
  by (simp add: below_def)

text \<open>A general latency that summarises the durations \<open>ds\<close> gives their table.\<close>

lemma cdfRows_table:
  assumes "summarises real_of_int longQuot w ds (generalStatistics G)" and "latencyNodes G = [] \<longleftrightarrow> ds = []"
    and "length ds < 2 ^ 64" and "0 < w" and "\<forall>d \<in> set ds. 0 \<le> d"
  shows "cdfRows G = cdfTable w ds"
proof -
  have u: "uint (of_nat m :: u64) = int m" if "m \<le> length ds" for m
    using that assms(3) by (simp add: uint_nat unat_of_nat)
  have freq: "uint (mapAt 0 (frequencyMap (generalStatistics G)) j) = int (length (filter (\<lambda>d. longQuot d w = j) ds))" for j
    using assms(1,4) u [of "length (filter (\<lambda>d. longQuot d w = j) ds)"] by (simp add: summarises_def)
  have "uint (GeneralLatency_count G) = int (length ds)"
    using assms(1,2) u [of "length ds"] by (simp add: GeneralLatency_count_def Statistics_count_def summarises_def)
  moreover have "below ds 0 = 0"
    using assms(5) by (auto simp: below_def filter_empty_conv not_less)
  moreover have "mapInterval (generalStatistics G) = w"
    using assms(1) by (simp add: summarises_def)
  ultimately have "cdfRows G = [Whole 0, Whole 0] #
      cdfLoop 30 (frequencyMap (generalStatistics G)) w (real (length ds)) 0 (int (below ds (0 * w)))"
    by (simp only: cdfRows_def GeneralLatency_getFrequencyMap_def getFrequencyMap_def Let_def prod.case
        of_int_of_nat_eq mult_zero_left int_ops(1))
  then show ?thesis
    unfolding cdfLoop_rows [OF freq assms(5,4) order_refl] cdfTable_def by (simp only: add_0)
qed

section \<open>Appending to files\<close>

text \<open>What every write of the processor does to the files: nothing but append, to a known name.\<close>

definition appendsOnly :: "string set \<Rightarrow> outputFiles \<Rightarrow> outputFiles \<Rightarrow> bool" where
  "appendsOnly names F F' \<longleftrightarrow> openFails F' = openFails F
     \<and> (\<forall>name. \<exists>rows. contents F' name = contents F name @ rows \<and> (name \<notin> names \<longrightarrow> rows = []))"

lemma appendsOnly_trans:
  assumes "appendsOnly names F F'" and "appendsOnly names F' F''"
  shows "appendsOnly names F F''"
  unfolding appendsOnly_def
proof (intro conjI allI)
  show "openFails F'' = openFails F"
    using assms by (simp add: appendsOnly_def)
  fix name
  obtain r where r: "contents F' name = contents F name @ r" "name \<notin> names \<longrightarrow> r = []"
    using assms(1) unfolding appendsOnly_def by blast
  obtain r' where r': "contents F'' name = contents F' name @ r'" "name \<notin> names \<longrightarrow> r' = []"
    using assms(2) unfolding appendsOnly_def by blast
  show "\<exists>rows. contents F'' name = contents F name @ rows \<and> (name \<notin> names \<longrightarrow> rows = [])"
    using r r' by (intro exI [of _ "r @ r'"]) simp
qed

lemma appendRows_appends:
  "appendRows name rows F = Inr F' \<Longrightarrow> name \<in> names \<Longrightarrow> appendsOnly names F F'"
  by (auto simp: appendRows_def appendsOnly_def split: if_splits)

lemma processLatency_appends:
  assumes "processLatency prefix G t F = Inr F'"
    and "prefix @ ''-latency.csv'' \<in> names" and "prefix @ ''-latency-cdf.csv'' \<in> names"
  shows "appendsOnly names F F'"
proof -
  from assms(1) obtain rows rows' F1 where "appendRows (prefix @ ''-latency.csv'') rows F = Inr F1"
    and "appendRows (prefix @ ''-latency-cdf.csv'') rows' F1 = Inr F'"
    unfolding processLatency_def andThen_Inr_iff by blast
  then show ?thesis
    using assms(2,3) by (blast intro: appendRows_appends appendsOnly_trans)
qed

lemma processSuccessRate_appends:
  assumes "processSuccessRate prefix G t F = Inr F'" and "prefix @ ''-success-rate.csv'' \<in> names"
  shows "appendsOnly names F F'"
  using assms appendRows_appends
  by (auto simp: processSuccessRate_def andThen_Inr_iff simp del: append.simps)

definition resultFiles :: "string set" where
  "resultFiles = (\<lambda>op. op @ ''-latency.csv'') ` {''join'', ''leave'', ''put'', ''get''}
     \<union> (\<lambda>op. op @ ''-latency-cdf.csv'') ` {''join'', ''leave'', ''put'', ''get''}
     \<union> (\<lambda>op. op @ ''-success-rate.csv'') ` {''join'', ''get''} \<union> {''nodes-status.csv''}"

lemma resultFiles_names:
  "op \<in> {''join'', ''leave'', ''put'', ''get''} \<Longrightarrow> op @ ''-latency.csv'' \<in> resultFiles"
  "op \<in> {''join'', ''leave'', ''put'', ''get''} \<Longrightarrow> op @ ''-latency-cdf.csv'' \<in> resultFiles"
  "op \<in> {''join'', ''get''} \<Longrightarrow> op @ ''-success-rate.csv'' \<in> resultFiles"
  "''nodes-status.csv'' \<in> resultFiles"
  unfolding resultFiles_def by blast+

lemma processLatency_resultFiles:
  assumes "processLatency op G t F = Inr F'" and "op \<in> {''join'', ''leave'', ''put'', ''get''}"
  shows "appendsOnly resultFiles F F'"
  using assms(1) resultFiles_names(1,2) [OF assms(2)] by (rule processLatency_appends)

lemma processSuccessRate_resultFiles:
  assumes "processSuccessRate op G t F = Inr F'" and "op \<in> {''join'', ''get''}"
  shows "appendsOnly resultFiles F F'"
  using assms(1) resultFiles_names(3) [OF assms(2)] by (rule processSuccessRate_appends)

text \<open>Pushing the results of one operation changes nothing else.\<close>

lemma pushLatency_only:
  "pushLatency B op reported R = Inr R' \<Longrightarrow> resultDhtType R' = resultDhtType R \<and> joinSuccessRates R' = joinSuccessRates R
      \<and> getSuccessRates R' = getSuccessRates R \<and> nodesStatus R' = nodesStatus R
      \<and> (op \<noteq> Join \<longrightarrow> joinLatencies R' = joinLatencies R) \<and> (op \<noteq> Leave \<longrightarrow> leaveLatencies R' = leaveLatencies R)
      \<and> (op \<noteq> Put \<longrightarrow> putLatencies R' = putLatencies R) \<and> (op \<noteq> Get \<longrightarrow> getLatencies R' = getLatencies R)"
  by (cases op) (auto simp: pushLatency_def andThen_Inr_iff)

lemma pushSuccessRate_only:
  "pushSuccessRate op reported R = Inr R' \<Longrightarrow> resultDhtType R' = resultDhtType R \<and> joinLatencies R' = joinLatencies R
      \<and> leaveLatencies R' = leaveLatencies R \<and> putLatencies R' = putLatencies R
      \<and> getLatencies R' = getLatencies R \<and> nodesStatus R' = nodesStatus R
      \<and> (op \<noteq> Join \<longrightarrow> joinSuccessRates R' = joinSuccessRates R)
      \<and> (op \<noteq> Get \<longrightarrow> getSuccessRates R' = getSuccessRates R)"
  by (cases op) (auto simp: pushSuccessRate_def Let_def)

lemma pushSuccessRate_total:
  "\<exists>R'. pushSuccessRate Join reported R = Inr R'" "\<exists>R'. pushSuccessRate Get reported R = Inr R'"
  by (simp_all add: pushSuccessRate_def Let_def)

lemma one_of_seven:
  assumes "x = a \<Longrightarrow> P" and "x = b \<Longrightarrow> P" and "x = c \<Longrightarrow> P" and "x = d \<Longrightarrow> P" and "x = e \<Longrightarrow> P"
    and "x = f \<Longrightarrow> P" and "x = g \<Longrightarrow> P" and "x \<notin> {a, b, c, d, e, f, g} \<Longrightarrow> P"
  shows P
  using assms by blast

section \<open>Properties\<close>

text \<open>
  C21. The CDF table is the empirical distribution function: for nodes with durations that are not
  negative, row \<open>j\<close> of the 30 gives the share of all durations below \<open>j + 1\<close> intervals, and these
  shares grow from row to row and lie between 0 and 1.
\<close>

theorem cdf_is_distribution:
  assumes "G = fold GeneralLatency_push ns (newGeneralLatency w)" and "0 < w"
    and "\<forall>n \<in> set ns. NodeLatency_count n \<noteq> 0 \<longrightarrow> measurements n \<noteq> []"
    and "length (allDurations ns) < 2 ^ 64" and "allDurations ns \<noteq> []" and "\<forall>d \<in> set (allDurations ns). 0 \<le> d"
  shows "cdfRows G = [Whole 0, Whole 0] #
      map (\<lambda>j. [Whole ((int j + 1) * w sdiv 1000), Decimals (cdfAt (allDurations ns) ((int j + 1) * w))]) [0..<30]
    \<and> (\<forall>x y. x \<le> y \<longrightarrow> 0 \<le> cdfAt (allDurations ns) x
          \<and> cdfAt (allDurations ns) x \<le> cdfAt (allDurations ns) y \<and> cdfAt (allDurations ns) y \<le> 1)"
proof
  let ?ds = "allDurations ns"
  have G: "generalStatistics G = pushAll real_of_int longQuot ?ds (newStatistics w)" "latencyNodes G = countedNodes ns"
    unfolding assms(1) GeneralLatency_fold by (simp_all add: newGeneralLatency_def)
  have "summarises real_of_int longQuot w ?ds (generalStatistics G)"
    unfolding G by (rule summarises_pushAll) (use assms(4) in simp)
  moreover have "countedNodes ns \<noteq> []"
    using assms(5) by (auto simp: allDurations_def)
  ultimately have "cdfRows G = cdfTable w ?ds"
    using G(2) assms(5) by (intro cdfRows_table [OF _ _ assms(4,2,6)]) simp_all
  then show "cdfRows G = [Whole 0, Whole 0] #
      map (\<lambda>j. [Whole ((int j + 1) * w sdiv 1000), Decimals (cdfAt ?ds ((int j + 1) * w))]) [0..<30]"
    using assms(5) by (simp only: cdfTable_def share_def if_False)
  show "\<forall>x y. x \<le> y \<longrightarrow> 0 \<le> cdfAt ?ds x \<and> cdfAt ?ds x \<le> cdfAt ?ds y \<and> cdfAt ?ds y \<le> 1"
    using assms(5) below_mono [of _ _ ?ds] below_le [of ?ds]
    by (auto simp: cdfAt_def divide_right_mono divide_le_eq_1)
qed

theorem cdf_is_distribution_witness:
  "let ns = [push_with_time 1 30000 newNodeLatency, push_with_time 2 50000 newNodeLatency]
   in cdfRows (fold GeneralLatency_push ns (newGeneralLatency 40000)) ! 1 = [Whole 40, Decimals (1 / 2)]"
proof -
  let ?ns = "[push_with_time 1 30000 newNodeLatency, push_with_time 2 50000 newNodeLatency]"
  have count: "NodeLatency_count (push_with_time t d newNodeLatency) = 1" for t d
    by (simp add: NodeLatency_count_def Statistics_count_def push_with_time_def newNodeLatency_def newStatistics_def)
  have "\<forall>n \<in> set ?ns. NodeLatency_count n \<noteq> 0 \<longrightarrow> measurements n \<noteq> []"
    by (simp add: push_with_time_def newNodeLatency_def mapEmpty_def)
  moreover have durations: "allDurations ?ns = [30000, 50000]"
    using count by (simp add: allDurations_def countedNodes_def)
      (simp add: push_with_time_def newNodeLatency_def mapEmpty_def)
  ultimately have "cdfRows (fold GeneralLatency_push ?ns (newGeneralLatency 40000)) = [Whole 0, Whole 0] #
      map (\<lambda>j. [Whole ((int j + 1) * 40000 sdiv 1000), Decimals (cdfAt [30000, 50000] ((int j + 1) * 40000))]) [0..<30]"
    using cdf_is_distribution [OF refl, of 40000 ?ns] by (simp del: fold.simps upt_rec_numeral)
  then show ?thesis
    by (simp add: Let_def cdfAt_def below_def signed_divide_int_def del: fold.simps upt_rec_numeral)
qed

text \<open>
  A result goes where its type says and nowhere else: a latency or success rate report that is
  accepted changes the figures of its operation only, and any type but the seven known ones ends the
  program.
\<close>

theorem pushResult_dispatch:
  "(pushResult B type reported R = Inr R' \<longrightarrow>
      type \<in> {''JoinLatency'', ''LeaveLatency'', ''PutLatency'', ''GetLatency'', ''JoinSuccessRate'', ''GetSuccessRate'', ''NodesStatus''}
      \<and> resultDhtType R' = resultDhtType R
      \<and> (type \<noteq> ''JoinLatency'' \<longrightarrow> joinLatencies R' = joinLatencies R)
      \<and> (type \<noteq> ''LeaveLatency'' \<longrightarrow> leaveLatencies R' = leaveLatencies R)
      \<and> (type \<noteq> ''PutLatency'' \<longrightarrow> putLatencies R' = putLatencies R)
      \<and> (type \<noteq> ''GetLatency'' \<longrightarrow> getLatencies R' = getLatencies R)
      \<and> (type \<noteq> ''JoinSuccessRate'' \<longrightarrow> joinSuccessRates R' = joinSuccessRates R)
      \<and> (type \<noteq> ''GetSuccessRate'' \<longrightarrow> getSuccessRates R' = getSuccessRates R)
      \<and> (type \<noteq> ''NodesStatus'' \<longrightarrow> nodesStatus R' = nodesStatus R))
   \<and> (type \<in> {''JoinSuccessRate'', ''GetSuccessRate'', ''NodesStatus''} \<longrightarrow> (\<exists>R'. pushResult B type reported R = Inr R'))"
proof -
  note latency = pushLatency_only [of B] and rate = pushSuccessRate_only
  show ?thesis
  proof (rule one_of_seven [of type "''JoinLatency''" _ "''LeaveLatency''" "''PutLatency''" "''GetLatency''"
        "''JoinSuccessRate''" "''GetSuccessRate''" "''NodesStatus''"])
    assume "type = ''JoinSuccessRate''"
    then show ?thesis using rate [of Join] pushSuccessRate_total(1) by (simp add: pushResult_def)
  next
    assume "type = ''GetSuccessRate''"
    then show ?thesis using rate [of Get] pushSuccessRate_total(2) by (simp add: pushResult_def)
  next
    assume "type = ''NodesStatus''"
    then show ?thesis by (auto simp: pushResult_def pushStatus_def)
  next
    assume "type \<notin> {''JoinLatency'', ''LeaveLatency'', ''PutLatency'', ''GetLatency'', ''JoinSuccessRate'', ''GetSuccessRate'', ''NodesStatus''}"
    then show ?thesis by (simp add: pushResult_def)
  next
    assume "type = ''JoinLatency''"
    then show ?thesis using latency [of Join] by (simp add: pushResult_def)
  next
    assume "type = ''LeaveLatency''"
    then show ?thesis using latency [of Leave] by (simp add: pushResult_def)
  next
    assume "type = ''PutLatency''"
    then show ?thesis using latency [of Put] by (simp add: pushResult_def)
  next
    assume "type = ''GetLatency''"
    then show ?thesis using latency [of Get] by (simp add: pushResult_def)
  qed
qed

theorem pushResult_dispatch_witness:
  "\<exists>R'. pushResult refBoost ''JoinSuccessRate'' ''1 2'' (newResultProcessor ''dummy'' False) = Inr R'
     \<and> getSuccessRates R' = newGeneralSuccessRate"
proof -
  obtain R' where "pushResult refBoost ''JoinSuccessRate'' ''1 2'' (newResultProcessor ''dummy'' False) = Inr R'"
    using pushResult_dispatch [of refBoost "''JoinSuccessRate''" "''1 2''" "newResultProcessor ''dummy'' False"] by auto
  moreover from this have "getSuccessRates R' = getSuccessRates (newResultProcessor ''dummy'' False)"
    using pushResult_dispatch [of refBoost "''JoinSuccessRate''" "''1 2''" _ R'] by simp
  ultimately show ?thesis
    by (simp add: newResultProcessor_def Let_def)
qed

text \<open>
  Processing the results only ever appends, and only to the eleven result files: what earlier runs
  wrote stays a prefix of every file, and all other files are untouched.
\<close>

lemma process_appends:
  assumes "process R F = Inr F'"
  shows "\<forall>name. \<exists>rows. contents F' name = contents F name @ rows \<and> (name \<notin> resultFiles \<longrightarrow> rows = [])"
proof -
  let ?ok = "appendsOnly resultFiles"
  from assms obtain F1 F2 F3 F4 F5 F6 where
      "processLatency ''join'' (joinLatencies R) (resultDhtType R) F = Inr F1"
      "processLatency ''leave'' (leaveLatencies R) (resultDhtType R) F1 = Inr F2"
      "processLatency ''put'' (putLatencies R) (resultDhtType R) F2 = Inr F3"
      "processLatency ''get'' (getLatencies R) (resultDhtType R) F3 = Inr F4"
      "processSuccessRate ''join'' (joinSuccessRates R) (resultDhtType R) F4 = Inr F5"
      "processSuccessRate ''get'' (getSuccessRates R) (resultDhtType R) F5 = Inr F6"
      "processNodesStatus (nodesStatus R) (resultDhtType R) F6 = Inr F'"
    by (auto simp: process_def Let_def andThen_Inr_iff)
  then have "?ok F F1" "?ok F1 F2" "?ok F2 F3" "?ok F3 F4" "?ok F4 F5" "?ok F5 F6" "?ok F6 F'"
    using appendRows_appends [OF _ resultFiles_names(4)]
    by (simp_all add: processLatency_resultFiles processSuccessRate_resultFiles processNodesStatus_def)
  then have "?ok F F'"
    by (meson appendsOnly_trans)
  then show ?thesis
    by (simp add: appendsOnly_def)
qed

lemma process_appends_witness:
  "let F = \<lparr>contents = (\<lambda>name. if name = ''notes'' then [[Label ''keep'']] else []), openFails = (\<lambda>name. False)\<rparr>
   in \<exists>F'. process (newResultProcessor ''dummy'' False) F = Inr F' \<and> contents F' ''notes'' = [[Label ''keep'']]"
proof -
  let ?F = "\<lparr>contents = (\<lambda>name. if name = ''notes'' then [[Label ''keep'']] else []), openFails = (\<lambda>name. False)\<rparr>"
  have "\<exists>F'. process (newResultProcessor ''dummy'' False) ?F = Inr F'"
    by (simp add: process_def newResultProcessor_def processLatency_def processSuccessRate_def processNodesStatus_def
        appendRows_def Let_def newGeneralLatency_def newGeneralSuccessRate_def generalMinInMicroseconds_def
        generalMaxInMicroseconds_def minMeanInMicroseconds_def maxMeanInMicroseconds_def rateMin_def rateMax_def
        Statistics_count_def newStatistics_def)
  then obtain F' where F': "process (newResultProcessor ''dummy'' False) ?F = Inr F'"
    by blast
  obtain rows where "contents F' ''notes'' = contents ?F ''notes'' @ rows" and "''notes'' \<notin> resultFiles \<longrightarrow> rows = []"
    using process_appends [OF F'] by blast
  moreover have "''notes'' \<notin> resultFiles"
    by (simp add: resultFiles_def)
  ultimately show ?thesis
    using F' by (simp add: Let_def)
qed

end
