(* ===== verification/Master.thy ===== *)
theory Master
  imports ControllerConnection MasterWorkload ResultProcessor
begin

text \<open>
  \<open>src/src/master/DhtperfMaster.cpp\<close>: accepting the controllers, sending them their configuration,
  collecting their reports and counting how they end. The event loop of Boost.Asio calls one handler
  at a time; the step relation \<open>masterStep\<close> has one rule for each kind of event that it may deliver.
\<close>

section \<open>State\<close>

record DhtperfMaster =
  masterWorkload :: MasterWorkload
  masterDhtType :: string
  accepting :: bool
  startMessagesSent :: bool
  controllers :: "ControllerConnection list"
  finishedControllers :: u32
  failedControllers :: u32
  resultProcessor :: ResultProcessor
  stopped :: bool

definition newDhtperfMaster :: "string \<Rightarrow> bool \<Rightarrow> DhtperfMaster" where
  "newDhtperfMaster dhtType lowLatency =
     \<lparr>masterWorkload = newMasterWorkload, masterDhtType = dhtType, accepting = False, startMessagesSent = False,
      controllers = [], finishedControllers = 0, failedControllers = 0,
      resultProcessor = newResultProcessor dhtType lowLatency, stopped = False\<rparr>"

definition loadWorkloadFile ::
    "'b boost_scheme \<Rightarrow> string option \<Rightarrow> int \<Rightarrow> DhtperfMaster \<Rightarrow> DhtperfMaster result" where
  "loadWorkloadFile B workloadFile nodesArg M =
     andThen (loadConfig B workloadFile nodesArg (masterWorkload M)) (\<lambda>(ok, W).
     andThen (require ok ExitFailure) (\<lambda>_. Inr (M\<lparr>masterWorkload := W\<rparr>)))"

section \<open>Messages to the controllers\<close>

text \<open>An operation on \<open>controllers_[i]\<close>.\<close>

definition onController ::
    "nat \<Rightarrow> (ControllerConnection \<Rightarrow> ControllerConnection result) \<Rightarrow> DhtperfMaster \<Rightarrow> DhtperfMaster result" where
  "onController i f M =
     andThen (vectorAt (controllers M) i) (\<lambda>c.
     andThen (f c) (\<lambda>c'. Inr (M\<lparr>controllers := (controllers M)[i := c']\<rparr>)))"

definition asyncAccept :: "DhtperfMaster \<Rightarrow> DhtperfMaster" where
  "asyncAccept M = M\<lparr>accepting := True\<rparr>"

definition sendDhtTypeMessage :: "endian \<Rightarrow> nat \<Rightarrow> DhtperfMaster \<Rightarrow> DhtperfMaster result" where
  "sendDhtTypeMessage en i M = onController i (sendMessage en (DhtType (masterDhtType M))) M"

definition sendProfileMessage :: "endian \<Rightarrow> nat \<Rightarrow> DhtperfMaster \<Rightarrow> DhtperfMaster result" where
  "sendProfileMessage en i M =
     andThen (getNodeProfile (of_nat i) (masterWorkload M)) (\<lambda>(joinProfile, leaveProfile, putProfile, getProfile).
     onController i (sendMessage en (Profile joinProfile leaveProfile putProfile getProfile)) M)"

text \<open>
  One iteration of the loop of \<open>sendStartMessages\<close>. The map counts the nodes per host and holds \<open>int\<close>s;
  the difference is stored in a \<open>uint16_t\<close>.
\<close>

definition countNode :: "string \<Rightarrow> (string, int) stdmap \<Rightarrow> (string, int) stdmap" where
  "countNode host perHost =
     (case mapFind perHost host of None \<Rightarrow> mapPut host 1 perHost | Some k \<Rightarrow> mapPut host (k + 1) perHost)"

definition entryPointHostFor :: "nat \<Rightarrow> DhtperfMaster \<Rightarrow> string result" where
  "entryPointHostFor i M =
     (if i = 0 then Inr ''''
      else andThen (vectorAt (controllers M) (getNodeEntryPointHost (of_nat i))) remoteHost)"

definition sendStartMessage ::
    "endian \<Rightarrow> (string, int) stdmap \<times> DhtperfMaster \<Rightarrow> nat \<Rightarrow> ((string, int) stdmap \<times> DhtperfMaster) result" where
  "sendStartMessage en s i =
     (let (perHost, M) = s in
      andThen (entryPointHostFor i M) (\<lambda>entryPointHost.
      andThen (vectorAt (controllers M) i) (\<lambda>c.
      andThen (remoteHost c) (\<lambda>nodeHost.
      let perHost = countNode nodeHost perHost;
          nodePortOffset = word_of_int (mapAt 0 perHost nodeHost - 1)
      in andThen (onController i (sendMessage en
           (Start (workloadDuration (masterWorkload M)) entryPointHost 0 nodePortOffset)) M) (\<lambda>M.
         andThen (onController i (\<lambda>c. Inr (asyncWaitForMessage c)) M) (\<lambda>M. Inr (perHost, M)))))))"

definition sendStartMessages :: "endian \<Rightarrow> DhtperfMaster \<Rightarrow> DhtperfMaster result" where
  "sendStartMessages en M =
     andThen (foldResult (sendStartMessage en) (mapEmpty, M) [0..<length (controllers M)]) (\<lambda>(perHost, M).
     Inr (M\<lparr>startMessagesSent := True\<rparr>))"

text \<open>The handler of an accept: a new connection from \<open>host\<close>, or an error.\<close>

definition handleAccept :: "endian \<Rightarrow> string option \<Rightarrow> DhtperfMaster \<Rightarrow> DhtperfMaster result" where
  "handleAccept en accepted M =
     (case accepted of
        None \<Rightarrow> Inl ExitFailure
      | Some host \<Rightarrow>
          let M = M\<lparr>accepting := False\<rparr>;
              controllerNumber = length (controllers M);
              M = M\<lparr>controllers := controllers M @ [newControllerConnection host]\<rparr>
          in andThen (sendDhtTypeMessage en controllerNumber M) (\<lambda>M.
             andThen (sendProfileMessage en controllerNumber M) (\<lambda>M.
             if length (controllers M) < unat (nodes (masterWorkload M))
             then Inr (asyncAccept M)
             else sendStartMessages en M)))"

section \<open>Messages from the controllers\<close>

definition controllerFinished :: "DhtperfMaster \<Rightarrow> DhtperfMaster" where
  "controllerFinished M =
     (let M = M\<lparr>finishedControllers := finishedControllers M + 1\<rparr>
      in if finishedControllers M = nodes (masterWorkload M) then M\<lparr>stopped := True\<rparr> else M)"

definition handleDisconnection :: "DhtperfMaster \<Rightarrow> DhtperfMaster" where
  "handleDisconnection M = controllerFinished (M\<lparr>failedControllers := failedControllers M + 1\<rparr>)"

definition handleReportMessage ::
    "'b boost_scheme \<Rightarrow> nat \<Rightarrow> Message \<Rightarrow> DhtperfMaster \<Rightarrow> DhtperfMaster result" where
  "handleReportMessage B i report M =
     andThen (Report_type report) (\<lambda>type.
     andThen (Report_value report) (\<lambda>reported.
     andThen (pushResult B type reported (resultProcessor M)) (\<lambda>R.
     onController i (\<lambda>c. Inr (asyncWaitForMessage c)) (M\<lparr>resultProcessor := R\<rparr>))))"

definition handleFinishMessage :: "DhtperfMaster \<Rightarrow> DhtperfMaster" where
  "handleFinishMessage M = controllerFinished M"

definition handleMessage :: "'b boost_scheme \<Rightarrow> nat \<Rightarrow> Message \<Rightarrow> DhtperfMaster \<Rightarrow> DhtperfMaster result" where
  "handleMessage B i message M =
     (if messageOpcode message = opcode_Report then handleReportMessage B i message M
      else if messageOpcode message = opcode_Finish then Inr (handleFinishMessage M)
      else Inl ExitFailure)"

text \<open>The opcode of a message is that of its class, so the cast to \<open>Report*\<close> is a match on it.\<close>

lemma handleMessage_cases:
  "handleMessage B i message M =
     (case message of
        Report type reported \<Rightarrow>
          andThen (pushResult B type reported (resultProcessor M)) (\<lambda>R.
          onController i (\<lambda>c. Inr (asyncWaitForMessage c)) (M\<lparr>resultProcessor := R\<rparr>))
      | Finish \<Rightarrow> Inr (controllerFinished M)
      | _ \<Rightarrow> Inl ExitFailure)"
  by (cases message)
    (simp_all add: handleMessage_def handleReportMessage_def handleFinishMessage_def opcode_defs)

text \<open>The handlers of a connection with the master's callbacks.\<close>

definition afterRead ::
    "'b boost_scheme \<Rightarrow> nat \<Rightarrow> (ControllerConnection \<Rightarrow> (readOutcome \<times> ControllerConnection) result)
      \<Rightarrow> DhtperfMaster \<Rightarrow> DhtperfMaster result" where
  "afterRead B i f M =
     andThen (vectorAt (controllers M) i) (\<lambda>c.
     andThen (f c) (\<lambda>(r, c').
     let M = M\<lparr>controllers := (controllers M)[i := c']\<rparr>
     in case r of
          Continue \<Rightarrow> Inr M
        | Received message \<Rightarrow> handleMessage B i message M
        | Disconnected \<Rightarrow> Inr (handleDisconnection M)))"

definition handleWorkloadTimeout :: "bool \<Rightarrow> DhtperfMaster \<Rightarrow> DhtperfMaster result" where
  "handleWorkloadTimeout error M = (if error then Inl ExitFailure else Inr (M\<lparr>stopped := True\<rparr>))"

section \<open>The event loop\<close>

text \<open>
  What the loop may deliver: the end of an accept, of a read (with its bytes, or \<open>None\<close> for an error) or
  of a write of controller \<open>i\<close>, and the timer. \<open>ConnectionLost\<close> is no call of the program: the
  connection is reset, and its endpoint is no longer known.
\<close>

datatype masterEvent =
    AcceptDone "string option"
  | HeaderDone nat "bytes option"
  | BodyDone nat "bytes option"
  | WriteDone nat bool
  | TimerDone bool
  | ConnectionLost nat

fun handleEvent :: "'b boost_scheme \<Rightarrow> endian \<Rightarrow> masterEvent \<Rightarrow> DhtperfMaster \<Rightarrow> DhtperfMaster result" where
  "handleEvent B en (AcceptDone accepted) M = handleAccept en accepted M"
| "handleEvent B en (HeaderDone i header) M = afterRead B i (handleHeaderRead en header) M"
| "handleEvent B en (BodyDone i body) M = afterRead B i (handleBodyRead en body) M"
| "handleEvent B en (WriteDone i error) M = onController i (handleWrite error) M"
| "handleEvent B en (TimerDone error) M = handleWorkloadTimeout error M"
| "handleEvent B en (ConnectionLost i) M = onController i (\<lambda>c. Inr (c\<lparr>peerConnected := False\<rparr>)) M"

text \<open>Only what was started can complete; the timer is started after the start messages.\<close>

fun deliverable :: "masterEvent \<Rightarrow> DhtperfMaster \<Rightarrow> bool" where
  "deliverable (AcceptDone accepted) M \<longleftrightarrow> accepting M"
| "deliverable (HeaderDone i header) M \<longleftrightarrow> i < length (controllers M) \<and> reading (controllers M ! i) = HeaderRead"
| "deliverable (BodyDone i body) M \<longleftrightarrow> i < length (controllers M) \<and> reading (controllers M ! i) = BodyRead"
| "deliverable (WriteDone i error) M \<longleftrightarrow> i < length (controllers M) \<and> 0 < pendingWrites (controllers M ! i)"
| "deliverable (TimerDone error) M \<longleftrightarrow> startMessagesSent M"
| "deliverable (ConnectionLost i) M \<longleftrightarrow> i < length (controllers M)"

inductive masterStep :: "'b boost_scheme \<Rightarrow> endian \<Rightarrow> DhtperfMaster \<Rightarrow> DhtperfMaster \<Rightarrow> bool"
  for B :: "'b boost_scheme" and en :: endian where
  deliver: "\<not> stopped M \<Longrightarrow> deliverable e M \<Longrightarrow> handleEvent B en e M = Inr M' \<Longrightarrow> masterStep B en M M'"

inductive_cases masterStepE: "masterStep B en M M'"

definition masterReaches :: "'b boost_scheme \<Rightarrow> endian \<Rightarrow> DhtperfMaster \<Rightarrow> DhtperfMaster \<Rightarrow> bool" where
  "masterReaches B en = (masterStep B en)\<^sup>*\<^sup>*"

section \<open>The end of the run\<close>

text \<open>\<open>workload_.duration() + ReportAndFinishTimeout\<close> is computed with unsigned integers.\<close>

definition masterTimeout :: "DhtperfMaster \<Rightarrow> int" where
  "masterTimeout M = uint (workloadDuration (masterWorkload M) + word_of_int ReportAndFinishTimeout)"

text \<open>
  The connections are shared with no handler any more, so the assertion on \<open>unique\<close> holds and the
  objects are destroyed.
\<close>

definition closeConnections :: "DhtperfMaster \<Rightarrow> DhtperfMaster" where
  "closeConnections M = M\<lparr>controllers := []\<rparr>"

definition nodesStatusText :: "DhtperfMaster \<Rightarrow> string" where
  "nodesStatusText M =
     (let failed = sint (failedControllers M);
          finished = sint (finishedControllers M - failedControllers M);
          unfinished = sint (nodes (masterWorkload M) - finishedControllers M)
      in showInt finished @ '' '' @ showInt failed @ '' '' @ showInt unfinished)"

definition pushNodesStatus :: "'b boost_scheme \<Rightarrow> DhtperfMaster \<Rightarrow> DhtperfMaster result" where
  "pushNodesStatus B M =
     andThen (pushResult B ''NodesStatus'' (nodesStatusText M) (resultProcessor M)) (\<lambda>R.
     Inr (M\<lparr>resultProcessor := R\<rparr>))"

definition processResults :: "DhtperfMaster \<Rightarrow> outputFiles \<Rightarrow> outputFiles result" where
  "processResults M F = process (resultProcessor M) F"

definition finishRun :: "'b boost_scheme \<Rightarrow> DhtperfMaster \<Rightarrow> outputFiles \<Rightarrow> (DhtperfMaster \<times> outputFiles) result" where
  "finishRun B M F =
     andThen (pushNodesStatus B (closeConnections M)) (\<lambda>M.
     andThen (processResults M F) (\<lambda>F. Inr (M, F)))"

text \<open>
  \<open>run\<close> with the events that the loop delivers: \<open>None\<close> if they are not a complete run, because one of them
  cannot be delivered, or the loop is not stopped after the last.
\<close>

fun eventLoop :: "'b boost_scheme \<Rightarrow> endian \<Rightarrow> masterEvent list \<Rightarrow> DhtperfMaster \<Rightarrow> DhtperfMaster result option" where
  "eventLoop B en [] M = (if stopped M then Some (Inr M) else None)"
| "eventLoop B en (e # es) M =
     (if stopped M \<or> \<not> deliverable e M then None
      else case handleEvent B en e M of Inl err \<Rightarrow> Some (Inl err) | Inr M' \<Rightarrow> eventLoop B en es M')"

definition masterRun ::
    "'b boost_scheme \<Rightarrow> endian \<Rightarrow> masterEvent list \<Rightarrow> DhtperfMaster \<Rightarrow> outputFiles
      \<Rightarrow> (DhtperfMaster \<times> outputFiles) result option" where
  "masterRun B en events M F =
     map_option (\<lambda>r. andThen r (\<lambda>M. finishRun B M F)) (eventLoop B en events (asyncAccept M))"

end
