(* ===== verification/MasterInvariant.thy ===== *)
theory MasterInvariant
  imports Master
begin

text \<open>
  What holds in every state that the event loop of the master reaches, and what the master sends, counts
  and reports. The steps of the loop keep \<open>masterInv\<close>; the properties follow from it and from the effect
  of single handlers.
\<close>

section \<open>Single operations\<close>

lemma onController_Inr:
  "onController i f M = Inr M' \<longleftrightarrow>
     (\<exists>c'. i < length (controllers M) \<and> f (controllers M ! i) = Inr c' \<and> M' = M\<lparr>controllers := (controllers M)[i := c']\<rparr>)"
  by (auto simp: onController_def andThen_Inr_iff vectorAt_Inr_iff)

text \<open>How many controllers the master waits for no more.\<close>

definition idle :: "ControllerConnection list \<Rightarrow> nat" where
  "idle cs = length (filter (\<lambda>c. reading c = NoRead) cs)"

lemma idle_le: "idle cs \<le> length cs"
  by (simp add: idle_def)

lemma idle_all: "idle cs = length cs \<Longrightarrow> i < length cs \<Longrightarrow> reading (cs ! i) = NoRead"
  using length_filter_less [of "cs ! i" cs "\<lambda>c. reading c = NoRead"] by (auto simp: idle_def)

lemma idle_update:
  assumes "i < length cs"
  shows "idle (cs[i := c]) + (if reading (cs ! i) = NoRead then 1 else 0) =
    idle cs + (if reading c = NoRead then 1 else 0)"
  using assms
proof (induction cs arbitrary: i)
  case (Cons a cs)
  then show ?case by (cases i) (auto simp: idle_def)
qed simp

section \<open>What the controllers are sent\<close>

definition hostsOf :: "DhtperfMaster \<Rightarrow> string list" where
  "hostsOf M = map peerHost (controllers M)"

definition earlierOnHost :: "string list \<Rightarrow> nat \<Rightarrow> nat" where
  "earlierOnHost hosts i = count_list (take i hosts) (hosts ! i)"

definition startMessage :: "DhtperfMaster \<Rightarrow> nat \<Rightarrow> Message" where
  "startMessage M i =
     Start (workloadDuration (masterWorkload M)) (if i = 0 then '''' else hostsOf M ! 0) 0
       (of_nat (earlierOnHost (hostsOf M) i))"

definition profileMessage :: "DhtperfMaster \<Rightarrow> nat \<Rightarrow> Message result" where
  "profileMessage M i =
     andThen (getNodeProfile (of_nat i) (masterWorkload M)) (\<lambda>(j, l, p, g). Inr (Profile j l p g))"

definition sentTo :: "endian \<Rightarrow> ControllerConnection \<Rightarrow> Message list \<Rightarrow> bool" where
  "sentTo en c messages \<longleftrightarrow> map Inr (writesStarted c) = map (toBits en) messages"

text \<open>Controller \<open>i\<close> was sent its type and profile, and the start message if \<open>started\<close>.\<close>

definition configured :: "endian \<Rightarrow> DhtperfMaster \<Rightarrow> nat \<Rightarrow> bool \<Rightarrow> bool" where
  "configured en M i started \<longleftrightarrow>
     (\<exists>p. profileMessage M i = Inr p
        \<and> sentTo en (controllers M ! i)
            ([DhtType (masterDhtType M), p] @ (if started then [startMessage M i] else [])))"

lemma sendMessage_Inr:
  assumes "sendMessage en message c = Inr c'"
  shows "peerHost c' = peerHost c" and "peerConnected c' = peerConnected c" and "reading c' = reading c"
    and "sentTo en c ms \<Longrightarrow> sentTo en c' (ms @ [message])"
    and "pendingWrites c' = pendingWrites c + 1" and "overlapped c' = (overlapped c \<or> 0 < pendingWrites c)"
    and "writeBuffer c' = last (writesStarted c')" and "toBits en message = Inr (writeBuffer c')"
  using assms by (auto simp: sendMessage_def andThen_Inr_iff sentTo_def)

text \<open>The counts per host after the first \<open>k\<close> nodes.\<close>

definition countsOf :: "string list \<Rightarrow> (string, int) stdmap \<Rightarrow> bool" where
  "countsOf hosts perHost \<longleftrightarrow>
     (\<forall>h. mapFind perHost h = (if h \<in> set hosts then Some (int (count_list hosts h)) else None))"

lemma countNode_counts:
  assumes "countsOf hosts perHost"
  shows "countsOf (hosts @ [h]) (countNode h perHost)"
    and "mapAt 0 (countNode h perHost) h = int (count_list hosts h) + 1"
proof -
  have 0: "h \<notin> set hosts \<Longrightarrow> count_list hosts h = 0" for h
    by (simp add: count_list_0_iff)
  show 1: "countsOf (hosts @ [h]) (countNode h perHost)"
    using assms 0 by (auto simp: countsOf_def countNode_def split: option.splits)
  show "mapAt 0 (countNode h perHost) h = int (count_list hosts h) + 1"
    using 1 by (simp add: countsOf_def mapAt_def)
qed

definition startedUpto :: "endian \<Rightarrow> DhtperfMaster \<Rightarrow> nat \<Rightarrow> (string, int) stdmap \<times> DhtperfMaster \<Rightarrow> bool" where
  "startedUpto en M0 k s \<longleftrightarrow>
     (let (perHost, M) = s in
      countsOf (take k (hostsOf M0)) perHost \<and> M = M0\<lparr>controllers := controllers M\<rparr>
      \<and> length (controllers M) = length (controllers M0) \<and> hostsOf M = hostsOf M0
      \<and> (\<forall>j < length (controllers M0).
           if j < k
           then reading (controllers M ! j) = HeaderRead
             \<and> (\<forall>ms. sentTo en (controllers M0 ! j) ms \<longrightarrow> sentTo en (controllers M ! j) (ms @ [startMessage M0 j]))
           else controllers M ! j = controllers M0 ! j))"

lemma hostsOf_update:
  assumes "i < length (controllers M)" and "peerHost c = peerHost (controllers M ! i)"
  shows "hostsOf (M\<lparr>controllers := (controllers M)[i := c]\<rparr>) = hostsOf M"
  using assms by (simp add: hostsOf_def map_update list_update_same_conv)

lemma hostsOf_nth: "i < length (controllers M) \<Longrightarrow> hostsOf M ! i = peerHost (controllers M ! i)"
  by (simp add: hostsOf_def)

lemma remoteHost_Inr: "remoteHost c = Inr h \<longleftrightarrow> peerConnected c \<and> h = peerHost c"
  by (auto simp: remoteHost_def)

lemma sendStartMessage_step:
  assumes "sendStartMessage en s k = Inr s'" and "startedUpto en M0 k s" and "k < length (controllers M0)"
  shows "startedUpto en M0 (Suc k) s'"
proof -
  obtain perHost M where s: "s = (perHost, M)" by (cases s)
  let ?cs = "controllers M" and ?h = "hostsOf M0 ! k"
  have inv: "countsOf (take k (hostsOf M0)) perHost" "M = M0\<lparr>controllers := ?cs\<rparr>"
    "length ?cs = length (controllers M0)" "hostsOf M = hostsOf M0"
    "?cs ! k = controllers M0 ! k"
    using assms(2,3) by (auto simp: startedUpto_def s Let_def)
  have k: "k < length ?cs" using assms(3) inv(3) by simp
  have host: "peerHost (?cs ! k) = ?h"
    using hostsOf_nth [OF k] inv(4) by simp
  obtain entry M1 M2 where entry: "entryPointHostFor k M = Inr entry"
    and send: "onController k (sendMessage en (Start (workloadDuration (masterWorkload M)) entry 0
        (word_of_int (mapAt 0 (countNode ?h perHost) ?h - 1)))) M = Inr M1"
    and await: "onController k (\<lambda>c. Inr (asyncWaitForMessage c)) M1 = Inr M2"
    and s': "s' = (countNode ?h perHost, M2)"
    using assms(1) host by (auto simp: sendStartMessage_def s andThen_Inr_iff Let_def vectorAt_Inr_iff remoteHost_Inr)
  have "entry = (if k = 0 then '''' else hostsOf M0 ! 0)"
    using entry k inv(4) hostsOf_nth [of 0 M]
    by (auto simp: entryPointHostFor_def getNodeEntryPointHost_def andThen_Inr_iff vectorAt_Inr_iff remoteHost_Inr split: if_splits)
  moreover have "mapAt 0 (countNode ?h perHost) ?h - 1 = int (earlierOnHost (hostsOf M0) k)"
    using countNode_counts(2) [OF inv(1), of ?h] by (simp add: earlierOnHost_def)
  moreover have "workloadDuration (masterWorkload M) = workloadDuration (masterWorkload M0)"
    using inv(2) by (metis DhtperfMaster.select_convs(1) DhtperfMaster.surjective DhtperfMaster.update_convs(5))
  ultimately have message: "Start (workloadDuration (masterWorkload M)) entry 0
      (word_of_int (mapAt 0 (countNode ?h perHost) ?h - 1)) = startMessage M0 k"
    by (simp add: startMessage_def)
  obtain c1 where c1: "sendMessage en (startMessage M0 k) (?cs ! k) = Inr c1"
    and M1: "M1 = M\<lparr>controllers := ?cs[k := c1]\<rparr>"
    using send unfolding message by (auto simp: onController_Inr)
  let ?c2 = "c1\<lparr>reading := HeaderRead\<rparr>"
  have M2: "M2 = M\<lparr>controllers := ?cs[k := ?c2]\<rparr>"
    using await k by (auto simp: onController_Inr M1 asyncWaitForMessage_def)
  have upd: "M\<lparr>controllers := x\<rparr> = M0\<lparr>controllers := x\<rparr>" for x
    by (subst inv(2)) simp
  have "take (Suc k) (hostsOf M0) = take k (hostsOf M0) @ [?h]"
    using assms(3) by (simp add: hostsOf_def take_Suc_conv_app_nth)
  moreover have "hostsOf M2 = hostsOf M0"
    unfolding M2 using hostsOf_update [OF k, of ?c2] sendMessage_Inr(1) [OF c1] inv(4) by simp
  moreover have "sentTo en (controllers M0 ! k) ms \<longrightarrow> sentTo en ?c2 (ms @ [startMessage M0 k])" for ms
    using sendMessage_Inr(4) [OF c1, of ms] inv(5) by (simp add: sentTo_def)
  ultimately show ?thesis
    using assms(2) inv(2,3) k countNode_counts(1) [OF inv(1), of ?h]
    unfolding startedUpto_def s s' M2 upd by (simp add: nth_list_update less_Suc_eq)
qed

lemma sendStartMessages_upto:
  assumes "sendStartMessages en M0 = Inr M"
  obtains perHost M' where "startedUpto en M0 (length (controllers M0)) (perHost, M')"
    and "M = M'\<lparr>startMessagesSent := True\<rparr>"
proof -
  obtain perHost M' where f: "foldResult (sendStartMessage en) (mapEmpty, M0) [0..<length (controllers M0)] = Inr (perHost, M')"
    and M: "M = M'\<lparr>startMessagesSent := True\<rparr>"
    using assms by (auto simp: sendStartMessages_def andThen_Inr_iff)
  have "startedUpto en M0 (length (controllers M0)) (perHost, M')"
    by (rule foldResult_upto [OF f, of "startedUpto en M0"])
      (auto simp: startedUpto_def [of en M0 0] countsOf_def mapEmpty_def intro: sendStartMessage_step)
  then show thesis using that M by blast
qed

section \<open>The invariant of the event loop\<close>

definition masterInv :: "endian \<Rightarrow> DhtperfMaster \<Rightarrow> bool" where
  "masterInv en M \<longleftrightarrow>
     (\<forall>i < length (controllers M). configured en M i (startMessagesSent M))
     \<and> unat (failedControllers M) \<le> unat (finishedControllers M)
     \<and> (if startMessagesSent M
        then \<not> accepting M \<and> length (controllers M) = unat (nodes (masterWorkload M))
          \<and> unat (finishedControllers M) = idle (controllers M)
          \<and> (finishedControllers M = nodes (masterWorkload M) \<longrightarrow> stopped M)
        else accepting M \<and> length (controllers M) < unat (nodes (masterWorkload M))
          \<and> finishedControllers M = 0 \<and> idle (controllers M) = length (controllers M) \<and> \<not> stopped M)"

lemma configured_cong:
  assumes "masterWorkload M' = masterWorkload M" and "masterDhtType M' = masterDhtType M"
    and "writesStarted (controllers M' ! i) = writesStarted (controllers M ! i)"
    and "hostsOf M' = hostsOf M"
  shows "configured en M' i b = configured en M i b"
  using assms by (simp add: configured_def profileMessage_def startMessage_def sentTo_def)

text \<open>Operations that only touch what is under way on a connection.\<close>

lemma configured_update:
  assumes "i < length (controllers M)" and "peerHost c = peerHost (controllers M ! i)"
    and "writesStarted c = writesStarted (controllers M ! i)"
  shows "configured en (M\<lparr>controllers := (controllers M)[i := c]\<rparr>) j b = configured en M j b"
  using assms hostsOf_update [OF assms(1,2)]
  by (intro configured_cong) (simp_all add: nth_list_update)

lemma configured_unstarted_cong:
  assumes "masterWorkload M' = masterWorkload M" and "masterDhtType M' = masterDhtType M"
    and "writesStarted (controllers M' ! i) = writesStarted (controllers M ! i)"
  shows "configured en M' i False = configured en M i False"
  using assms by (simp add: configured_def profileMessage_def sentTo_def)

text \<open>The state after the two messages to a new controller.\<close>

lemma greet_controller:
  assumes "sendDhtTypeMessage en n (M\<lparr>accepting := False, controllers := controllers M @ [newControllerConnection host]\<rparr>) = Inr M1"
    and "sendProfileMessage en n M1 = Inr M2" and "n = length (controllers M)"
  obtains c where "M2 = M\<lparr>accepting := False, controllers := controllers M @ [c]\<rparr>" and "reading c = NoRead"
    and "peerHost c = host" and "configured en M2 n False" and "pendingWrites c = 2" and "overlapped c"
    and "writeBuffer c = last (writesStarted c)"
proof -
  obtain c1 where c1: "sendMessage en (DhtType (masterDhtType M)) (newControllerConnection host) = Inr c1"
    and M1: "M1 = M\<lparr>accepting := False, controllers := controllers M @ [c1]\<rparr>"
    using assms(1,3) by (auto simp: sendDhtTypeMessage_def onController_Inr)
  obtain j l p g c2 where prof: "getNodeProfile (of_nat n) (masterWorkload M) = Inr (j, l, p, g)"
    and c2: "sendMessage en (Profile j l p g) c1 = Inr c2"
    and M2: "M2 = M\<lparr>accepting := False, controllers := controllers M @ [c2]\<rparr>"
    using assms(2,3) by (auto simp: sendProfileMessage_def M1 onController_Inr andThen_Inr_iff)
  have "sentTo en (newControllerConnection host) []"
    by (simp add: sentTo_def newControllerConnection_def)
  then have "sentTo en c2 [DhtType (masterDhtType M), Profile j l p g]"
    using sendMessage_Inr(4) [OF c1] sendMessage_Inr(4) [OF c2] by fastforce
  then have "configured en M2 n False"
    using prof assms(3) by (simp add: configured_def profileMessage_def M2)
  moreover have "reading c2 = NoRead" "peerHost c2 = host" "pendingWrites c2 = 2" "overlapped c2"
    "writeBuffer c2 = last (writesStarted c2)"
    using sendMessage_Inr [OF c1] sendMessage_Inr [OF c2] by (simp_all add: newControllerConnection_def)
  ultimately show thesis using that M2 by blast
qed

text \<open>The start messages to configured controllers: then all are waited for.\<close>

lemma sendStartMessages_inv:
  assumes "sendStartMessages en M2 = Inr M'" and "\<forall>i < length (controllers M2). configured en M2 i False"
    and "length (controllers M2) = unat (nodes (masterWorkload M2))"
    and "\<not> accepting M2" and "finishedControllers M2 = 0" and "failedControllers M2 = 0" and "nodes (masterWorkload M2) \<noteq> 0"
  shows "masterInv en M'"
proof -
  let ?n = "length (controllers M2)"
  obtain perHost M3 where up: "startedUpto en M2 ?n (perHost, M3)" and M': "M' = M3\<lparr>startMessagesSent := True\<rparr>"
    using assms(1) by (rule sendStartMessages_upto)
  then have M3: "M3 = M2\<lparr>controllers := controllers M3\<rparr>" "length (controllers M3) = ?n" "hostsOf M3 = hostsOf M2"
    and all: "\<forall>j < ?n. reading (controllers M3 ! j) = HeaderRead
      \<and> (\<forall>ms. sentTo en (controllers M2 ! j) ms \<longrightarrow> sentTo en (controllers M3 ! j) (ms @ [startMessage M2 j]))"
    by (auto simp: startedUpto_def)
  have same: "masterWorkload M3 = masterWorkload M2" "masterDhtType M3 = masterDhtType M2" "accepting M3 = accepting M2"
    "finishedControllers M3 = 0" "failedControllers M3 = 0"
    by (subst M3(1), simp add: assms)+
  have "idle (controllers M3) = 0"
    using all M3(2) by (auto simp: idle_def filter_empty_conv in_set_conv_nth)
  moreover have "configured en M' i True" if "i < ?n" for i
  proof -
    have "startMessage M' i = startMessage M2 i" and "profileMessage M' i = profileMessage M2 i"
      using same M3(3) by (simp_all add: startMessage_def profileMessage_def M' hostsOf_def)
    then show ?thesis
      using assms(2) all that same by (fastforce simp: configured_def M')
  qed
  ultimately show ?thesis
    using same M3(2) assms(3,4,7) by (auto simp: masterInv_def M')
qed

lemma handleAccept_inv:
  assumes "handleAccept en accepted M = Inr M'" and "masterInv en M" and "accepting M"
  shows "masterInv en M'"
proof -
  let ?n = "length (controllers M)"
  have inv: "\<not> startMessagesSent M" "?n < unat (nodes (masterWorkload M))" "finishedControllers M = 0"
    "failedControllers M = 0" "idle (controllers M) = ?n" "\<not> stopped M" "\<forall>i < ?n. configured en M i False"
    using assms(2,3) by (auto simp: masterInv_def unat_eq_zero split: if_splits)
  obtain host M1 M2 where g: "sendDhtTypeMessage en ?n (M\<lparr>accepting := False, controllers := controllers M @ [newControllerConnection host]\<rparr>) = Inr M1"
      "sendProfileMessage en ?n M1 = Inr M2"
    and r: "(if length (controllers M2) < unat (nodes (masterWorkload M2)) then Inr (asyncAccept M2) else sendStartMessages en M2) = Inr M'"
    using assms(1) by (auto simp: handleAccept_def Let_def andThen_Inr_iff split: option.splits)
  from g obtain c where M2: "M2 = M\<lparr>accepting := False, controllers := controllers M @ [c]\<rparr>"
    and c: "reading c = NoRead" "configured en M2 ?n False"
    by (rule greet_controller) auto
  have conf: "\<forall>i < Suc ?n. configured en M2 i False"
  proof (intro allI impI)
    fix i assume "i < Suc ?n"
    then consider "i < ?n" | "i = ?n" by linarith
    then show "configured en M2 i False"
    proof cases
      case 1
      then have "configured en M2 i False = configured en M i False"
        by (intro configured_unstarted_cong) (simp_all add: M2 nth_append)
      then show ?thesis using inv(7) 1 by simp
    qed (simp add: c(2))
  qed
  have idle: "idle (controllers M2) = Suc ?n"
    using inv(5) c(1) by (simp add: M2 idle_def)
  show ?thesis
  proof (cases "Suc ?n < unat (nodes (masterWorkload M))")
    case True
    then have M': "M' = asyncAccept M2" using r by (simp add: M2)
    have "configured en M' i False = configured en M2 i False" for i
      by (rule configured_unstarted_cong) (simp_all add: M' asyncAccept_def)
    then show ?thesis
      using True inv conf idle by (simp add: masterInv_def M' M2 asyncAccept_def)
  next
    case False
    then have "sendStartMessages en M2 = Inr M'" using r by (simp add: M2)
    moreover have "nodes (masterWorkload M) \<noteq> 0"
      using inv(2) by auto
    ultimately show ?thesis
      using False inv conf by (intro sendStartMessages_inv [of en M2]) (simp_all add: M2)
  qed
qed

text \<open>
  After the start messages a controller changes from waited for to idle exactly when it is counted as
  finished; \<open>quiet\<close> are the changes that do neither.
\<close>

lemma masterInv_result [simp]: "masterInv en (M\<lparr>resultProcessor := R\<rparr>) = masterInv en M"
proof -
  have "configured en (M\<lparr>resultProcessor := R\<rparr>) j b = configured en M j b" for j b
    by (rule configured_cong) (simp_all add: hostsOf_def)
  then show ?thesis by (simp add: masterInv_def)
qed

lemma quiet_inv:
  assumes "masterInv en M" and "i < length (controllers M)" and "peerHost c = peerHost (controllers M ! i)"
    and "writesStarted c = writesStarted (controllers M ! i)"
    and "reading c = NoRead \<longleftrightarrow> reading (controllers M ! i) = NoRead"
  shows "masterInv en (M\<lparr>controllers := (controllers M)[i := c]\<rparr>)"
proof -
  have "idle ((controllers M)[i := c]) = idle (controllers M)"
    using idle_update [OF assms(2), of c] assms(5) by (simp split: if_splits)
  then show ?thesis
    using assms(1) configured_update [OF assms(2,3,4)] by (simp add: masterInv_def)
qed

lemma finished_inv:
  assumes "masterInv en M" and "i < length (controllers M)" and "peerHost c = peerHost (controllers M ! i)"
    and "writesStarted c = writesStarted (controllers M ! i)"
    and "reading c = NoRead" and "reading (controllers M ! i) \<noteq> NoRead"
    and "M1 = M\<lparr>controllers := (controllers M)[i := c]\<rparr>"
  shows "masterInv en (controllerFinished M1)" and "masterInv en (handleDisconnection M1)"
proof -
  have started: "startMessagesSent M"
    using assms(1,6) idle_all [of "controllers M" i, OF _ assms(2)] by (auto simp: masterInv_def split: if_splits)
  have "idle ((controllers M)[i := c]) = Suc (idle (controllers M))"
    using idle_update [OF assms(2), of c] assms(5,6) by simp
  moreover have "idle ((controllers M)[i := c]) \<le> unat (nodes (masterWorkload M))"
    using idle_le [of "(controllers M)[i := c]"] assms(1) started by (simp add: masterInv_def)
  ultimately have fin: "unat (finishedControllers M + 1) = idle ((controllers M)[i := c])"
    and bound: "Suc (unat (finishedControllers M)) < 4294967296"
    using assms(1) started unat_u32_bound [of "nodes (masterWorkload M)"] by (auto simp: masterInv_def unat_word_ariths)
  have "unat (failedControllers M) \<le> unat (finishedControllers M)"
    using assms(1) by (simp add: masterInv_def)
  then have fail: "unat (failedControllers M + 1) = Suc (unat (failedControllers M))"
    and le: "unat (failedControllers M) \<le> unat (finishedControllers M + 1)"
    and le': "unat (failedControllers M + 1) \<le> unat (finishedControllers M + 1)"
    using bound by (simp_all add: unat_word_ariths)
  have conf: "configured en M' j True" if "j < length (controllers M)"
      and "M' \<in> {controllerFinished M1, handleDisconnection M1}" for j M'
  proof -
    have "configured en M' j True = configured en M1 j True"
      using that(2) by (intro configured_cong) (auto simp: controllerFinished_def handleDisconnection_def Let_def hostsOf_def)
    also have "\<dots> = configured en M j True"
      unfolding assms(7) by (rule configured_update [OF assms(2,3,4)])
    finally show ?thesis using assms(1) started that(1) by (simp add: masterInv_def)
  qed
  have rest: "\<not> accepting M \<and> length (controllers M) = unat (nodes (masterWorkload M))"
    using assms(1) started by (simp add: masterInv_def)
  show "masterInv en (controllerFinished M1)"
    unfolding masterInv_def using conf rest started fin le
    by (auto simp: controllerFinished_def Let_def assms(7))
  show "masterInv en (handleDisconnection M1)"
    unfolding masterInv_def using conf rest started fin le'
    by (auto simp: controllerFinished_def handleDisconnection_def Let_def assms(7))
qed

text \<open>What the handlers of a read keep of the connection.\<close>

lemma connection_handlers_keep:
  "handleHeaderRead en header c = Inr (r, c') \<Longrightarrow> peerHost c' = peerHost c \<and> writesStarted c' = writesStarted c"
  "handleBodyRead en body c = Inr (r, c') \<Longrightarrow> peerHost c' = peerHost c \<and> writesStarted c' = writesStarted c"
  "handleWrite error c = Inr c' \<Longrightarrow> peerHost c' = peerHost c \<and> writesStarted c' = writesStarted c \<and> reading c' = reading c"
  by (auto simp: handleHeaderRead_def handleBodyRead_def handleWrite_def connectionMessage_def andThen_Inr_iff Let_def
      split: option.splits if_splits)

lemma read_keeps:
  "handleHeaderRead en header c = Inr (r, c') \<Longrightarrow>
     peerHost c' = peerHost c \<and> writesStarted c' = writesStarted c \<and> (reading c' = NoRead \<longleftrightarrow> r \<noteq> Continue)"
  "handleBodyRead en body c = Inr (r, c') \<Longrightarrow>
     peerHost c' = peerHost c \<and> writesStarted c' = writesStarted c \<and> (reading c' = NoRead \<longleftrightarrow> r \<noteq> Continue)"
  using connection_handlers_keep(1) [of en header c r c'] handleHeaderRead_reading [of en header c r c']
    connection_handlers_keep(2) [of en body c r c'] handleBodyRead_reading [of en body c r c']
  by auto

text \<open>
  What a step of the loop does: it accepts a connection, changes one connection without ending the wait for
  it, processes a report, ends the wait for a controller, or stops the loop.
\<close>

lemma afterRead_cases:
  assumes "afterRead B i f M = Inr M'" and wait: "reading (controllers M ! i) \<noteq> NoRead"
    and keep: "\<And>c r c'. f c = Inr (r, c') \<Longrightarrow> peerHost c' = peerHost c \<and> writesStarted c' = writesStarted c
      \<and> (reading c' = NoRead \<longleftrightarrow> r \<noteq> Continue)"
  obtains (quiet) c where "i < length (controllers M)" "peerHost c = peerHost (controllers M ! i)"
      "writesStarted c = writesStarted (controllers M ! i)" "reading c \<noteq> NoRead"
      "M' = M\<lparr>controllers := (controllers M)[i := c]\<rparr>"
  | (report) c type reported R where "i < length (controllers M)" "peerHost c = peerHost (controllers M ! i)"
      "writesStarted c = writesStarted (controllers M ! i)" "reading c \<noteq> NoRead"
      "pushResult B type reported (resultProcessor M) = Inr R"
      "M' = M\<lparr>resultProcessor := R, controllers := (controllers M)[i := c]\<rparr>"
  | (ended) c M1 where "i < length (controllers M)" "peerHost c = peerHost (controllers M ! i)"
      "writesStarted c = writesStarted (controllers M ! i)" "reading c = NoRead"
      "M1 = M\<lparr>controllers := (controllers M)[i := c]\<rparr>" "M' = controllerFinished M1 \<or> M' = handleDisconnection M1"
proof -
  obtain r c where i: "i < length (controllers M)" and f: "f (controllers M ! i) = Inr (r, c)"
    and M': "(case r of Continue \<Rightarrow> Inr (M\<lparr>controllers := (controllers M)[i := c]\<rparr>)
        | Received message \<Rightarrow> handleMessage B i message (M\<lparr>controllers := (controllers M)[i := c]\<rparr>)
        | Disconnected \<Rightarrow> Inr (handleDisconnection (M\<lparr>controllers := (controllers M)[i := c]\<rparr>))) = Inr M'"
    using assms(1) by (auto simp: afterRead_def andThen_Inr_iff vectorAt_Inr_iff Let_def)
  note k = keep [OF f]
  show thesis
  proof (cases r)
    case Continue
    show thesis by (rule quiet [of c]) (use i k M' Continue in simp_all)
  next
    case Disconnected
    show thesis by (rule ended [of c, OF i _ _ _ refl]) (use k M' Disconnected in simp_all)
  next
    case (Received message)
    show thesis
    proof (cases message)
      case (Report type reported)
      then obtain R where "pushResult B type reported (resultProcessor M) = Inr R"
        and "M' = M\<lparr>resultProcessor := R, controllers := (controllers M)[i := c\<lparr>reading := HeaderRead\<rparr>]\<rparr>"
        using M' Received i by (auto simp: handleMessage_cases andThen_Inr_iff onController_Inr asyncWaitForMessage_def)
      then show thesis by (intro report [of "c\<lparr>reading := HeaderRead\<rparr>" type reported R]) (use i k in simp_all)
    next
      case Finish
      show thesis by (rule ended [of c, OF i _ _ _ refl]) (use k M' Received Finish in \<open>simp_all add: handleMessage_cases\<close>)
    qed (use M' Received in \<open>simp_all add: handleMessage_cases\<close>)
  qed
qed

lemma masterStep_cases:
  assumes "masterStep B en M M'"
  obtains (accept) accepted where "\<not> stopped M" "accepting M" "handleAccept en accepted M = Inr M'"
  | (quiet) i c where "\<not> stopped M" "i < length (controllers M)" "peerHost c = peerHost (controllers M ! i)"
      "writesStarted c = writesStarted (controllers M ! i)" "reading c = NoRead \<longleftrightarrow> reading (controllers M ! i) = NoRead"
      "M' = M\<lparr>controllers := (controllers M)[i := c]\<rparr>"
  | (report) i c type reported R where "\<not> stopped M" "i < length (controllers M)" "peerHost c = peerHost (controllers M ! i)"
      "writesStarted c = writesStarted (controllers M ! i)" "reading c \<noteq> NoRead" "reading (controllers M ! i) \<noteq> NoRead"
      "pushResult B type reported (resultProcessor M) = Inr R"
      "M' = M\<lparr>resultProcessor := R, controllers := (controllers M)[i := c]\<rparr>"
  | (ended) i c M1 where "\<not> stopped M" "i < length (controllers M)" "peerHost c = peerHost (controllers M ! i)"
      "writesStarted c = writesStarted (controllers M ! i)" "reading c = NoRead" "reading (controllers M ! i) \<noteq> NoRead"
      "M1 = M\<lparr>controllers := (controllers M)[i := c]\<rparr>" "M' = controllerFinished M1 \<or> M' = handleDisconnection M1"
  | (timer) "\<not> stopped M" "startMessagesSent M" "M' = M\<lparr>stopped := True\<rparr>"
  using assms
proof (rule masterStepE)
  fix e
  assume e: "\<not> stopped M" "deliverable e M" "handleEvent B en e M = Inr M'"
  have onto: thesis if "onController i f M = Inr M'" and "\<And>c c'. f c = Inr c' \<Longrightarrow>
      peerHost c' = peerHost c \<and> writesStarted c' = writesStarted c \<and> reading c' = reading c" for i f
  proof -
    obtain c where "i < length (controllers M)" "f (controllers M ! i) = Inr c" "M' = M\<lparr>controllers := (controllers M)[i := c]\<rparr>"
      using \<open>onController i f M = Inr M'\<close> by (auto simp: onController_Inr)
    then show thesis using quiet [OF e(1), of i c] that(2) by simp
  qed
  have onRead: thesis if "afterRead B i f M = Inr M'" and n: "reading (controllers M ! i) \<noteq> NoRead"
    and "\<And>c r c'. f c = Inr (r, c') \<Longrightarrow> peerHost c' = peerHost c \<and> writesStarted c' = writesStarted c
      \<and> (reading c' = NoRead \<longleftrightarrow> r \<noteq> Continue)" for i f
  proof (rule afterRead_cases [OF that(1) n], goal_cases)
    case (1 c r c')
    then show ?case by (rule that(3))
  next
    case (2 c)
    show thesis by (rule quiet [OF e(1) 2(1-3) _ 2(5)]) (use 2(4) n in simp)
  next
    case (3 c type reported R)
    show thesis by (rule report [OF e(1) 3(1-4) n 3(5,6)])
  next
    case (4 c M1)
    show thesis by (rule ended [OF e(1) 4(1-4) n 4(5,6)])
  qed
  show thesis
  proof (cases e)
    case (AcceptDone accepted)
    then show thesis using accept e by simp
  next
    case (HeaderDone i header)
    then have h: "afterRead B i (handleHeaderRead en header) M = Inr M'" and n: "reading (controllers M ! i) \<noteq> NoRead"
      using e by simp_all
    show thesis by (rule onRead [OF h n read_keeps(1)])
  next
    case (BodyDone i body)
    then have h: "afterRead B i (handleBodyRead en body) M = Inr M'" and n: "reading (controllers M ! i) \<noteq> NoRead"
      using e by simp_all
    show thesis by (rule onRead [OF h n read_keeps(2)])
  next
    case (WriteDone i error)
    then have "onController i (handleWrite error) M = Inr M'" using e by simp
    then show thesis by (rule onto) (rule connection_handlers_keep(3))
  next
    case (TimerDone error)
    then show thesis using timer e by (auto simp: handleWorkloadTimeout_def split: if_splits)
  next
    case (ConnectionLost i)
    then have "onController i (\<lambda>c. Inr (c\<lparr>peerConnected := False\<rparr>)) M = Inr M'" using e by simp
    then show thesis by (rule onto) auto
  qed
qed

lemma masterStep_inv:
  assumes "masterStep B en M M'" and "masterInv en M"
  shows "masterInv en M'"
  using assms(1)
proof (cases rule: masterStep_cases)
  case (accept accepted)
  then show ?thesis using handleAccept_inv assms(2) by blast
next
  case (quiet i c)
  then show ?thesis using quiet_inv [OF assms(2), of i c] by simp
next
  case (report i c type reported R)
  then show ?thesis using quiet_inv [of en "M\<lparr>resultProcessor := R\<rparr>" i c] assms(2) by simp
next
  case (ended i c M1)
  then show ?thesis using finished_inv [OF assms(2) ended(2-7)] by blast
next
  case timer
  moreover have "configured en (M\<lparr>stopped := True\<rparr>) j b = configured en M j b" for j b
    by (intro configured_cong) (simp_all add: hostsOf_def)
  ultimately show ?thesis using assms(2) by (simp add: masterInv_def)
qed

interpretation masterLoop: event_driven "masterStep B en" "masterInv en"
  for B :: "'b boost_scheme" and en :: endian
  by unfold_locales (rule masterStep_inv)

lemma masterReaches_inv: "masterReaches B en M M' \<Longrightarrow> masterInv en M \<Longrightarrow> masterInv en M'"
  unfolding masterReaches_def by (rule masterLoop.inv_reachable)

text \<open>A master that was set up, at the start of \<open>run\<close>.\<close>

definition readyMaster :: "DhtperfMaster \<Rightarrow> bool" where
  "readyMaster M \<longleftrightarrow> controllers M = [] \<and> finishedControllers M = 0 \<and> failedControllers M = 0
     \<and> \<not> startMessagesSent M \<and> \<not> stopped M \<and> nodes (masterWorkload M) \<noteq> 0"

lemma loadWorkloadFile_ready:
  assumes "loadWorkloadFile B workloadFile nodesArg (newDhtperfMaster t lowLatency) = Inr M"
  shows "readyMaster M" and "masterDhtType M = t"
    and "loadConfig B workloadFile nodesArg newMasterWorkload = Inr (True, masterWorkload M)"
proof -
  obtain W where W: "loadConfig B workloadFile nodesArg newMasterWorkload = Inr (True, W)"
    and M: "M = newDhtperfMaster t lowLatency\<lparr>masterWorkload := W\<rparr>"
    using assms by (auto simp: loadWorkloadFile_def andThen_Inr_iff newDhtperfMaster_def)
  then show "loadConfig B workloadFile nodesArg newMasterWorkload = Inr (True, masterWorkload M)" and "masterDhtType M = t"
    by (simp_all add: newDhtperfMaster_def)
  show "readyMaster M"
    using W by (elim loadConfig_True) (simp add: M readyMaster_def newDhtperfMaster_def)
qed

lemma readyMaster_inv: "readyMaster M \<Longrightarrow> masterInv en (asyncAccept M)"
  by (auto simp: readyMaster_def masterInv_def asyncAccept_def idle_def unat_gt_0)

text \<open>The configuration never changes.\<close>

definition sameSetup :: "DhtperfMaster \<Rightarrow> DhtperfMaster \<Rightarrow> bool" where
  "sameSetup M M' \<longleftrightarrow> masterWorkload M' = masterWorkload M \<and> masterDhtType M' = masterDhtType M"

lemma sendStartMessages_setup:
  assumes "sendStartMessages en M = Inr M'"
  shows "sameSetup M M'"
proof -
  obtain perHost M1 where u: "startedUpto en M (length (controllers M)) (perHost, M1)" and M': "M' = M1\<lparr>startMessagesSent := True\<rparr>"
    using assms by (rule sendStartMessages_upto)
  then have M1: "M1 = M\<lparr>controllers := controllers M1\<rparr>" by (simp add: startedUpto_def)
  have "masterWorkload M1 = masterWorkload M" "masterDhtType M1 = masterDhtType M"
    by (subst M1, simp)+
  then have "sameSetup M M1" by (simp add: sameSetup_def)
  then show ?thesis by (simp add: M' sameSetup_def)
qed

lemma handleAccept_setup:
  assumes "handleAccept en accepted M = Inr M'"
  shows "sameSetup M M'"
proof -
  obtain host M1 M2 where g: "sendDhtTypeMessage en (length (controllers M)) (M\<lparr>accepting := False, controllers := controllers M @ [newControllerConnection host]\<rparr>) = Inr M1"
      "sendProfileMessage en (length (controllers M)) M1 = Inr M2"
    and r: "(if length (controllers M2) < unat (nodes (masterWorkload M2)) then Inr (asyncAccept M2) else sendStartMessages en M2) = Inr M'"
    using assms by (auto simp: handleAccept_def Let_def andThen_Inr_iff split: option.splits)
  have "sameSetup M M2"
    using g by (rule greet_controller) (simp_all add: sameSetup_def)
  moreover have "sameSetup M2 M'"
    using r sendStartMessages_setup [of en M2 M'] by (auto simp: sameSetup_def asyncAccept_def split: if_splits)
  ultimately show ?thesis by (simp add: sameSetup_def)
qed

lemma sameSetup_simps [simp]:
  "sameSetup M (M'\<lparr>controllers := cs\<rparr>) = sameSetup M M'" "sameSetup M (M'\<lparr>stopped := b\<rparr>) = sameSetup M M'"
  "sameSetup (M\<lparr>controllers := cs\<rparr>) M' = sameSetup M M'" "sameSetup (M\<lparr>resultProcessor := R\<rparr>) M' = sameSetup M M'"
  "sameSetup M (M'\<lparr>resultProcessor := R\<rparr>) = sameSetup M M'" "sameSetup M (controllerFinished M') = sameSetup M M'"
  "sameSetup M (handleDisconnection M') = sameSetup M M'"
  "sameSetup M M"
  by (auto simp: sameSetup_def controllerFinished_def handleDisconnection_def Let_def)

lemma masterStep_setup: "masterStep B en M1 M2 \<Longrightarrow> sameSetup M1 M2"
  by (erule masterStep_cases) (auto intro: handleAccept_setup)

interpretation masterSetup: event_driven "masterStep B en" "sameSetup M"
  for B :: "'b boost_scheme" and en :: endian and M :: DhtperfMaster
  by unfold_locales (use masterStep_setup in \<open>fastforce simp: sameSetup_def\<close>)

lemma masterReaches_setup: "masterReaches B en M M' \<Longrightarrow> sameSetup M M'"
  unfolding masterReaches_def by (erule masterSetup.inv_reachable) simp

text \<open>When all are there, the controllers and their hosts stay the same.\<close>

definition assembled :: "endian \<Rightarrow> string list \<Rightarrow> DhtperfMaster \<Rightarrow> bool" where
  "assembled en hosts M \<longleftrightarrow> masterInv en M \<and> startMessagesSent M \<and> hostsOf M = hosts"

lemma masterStep_assembled:
  assumes "masterStep B en M M'" and "assembled en hosts M"
  shows "assembled en hosts M'"
proof -
  have "masterInv en M'"
    using masterStep_inv [OF assms(1)] assms(2) by (simp add: assembled_def)
  moreover have "startMessagesSent M' \<and> hostsOf M' = hosts"
    using assms(1)
  proof (cases rule: masterStep_cases)
    case (accept accepted)
    then show ?thesis using assms(2) by (simp add: assembled_def masterInv_def)
  next
    case (quiet i c)
    then show ?thesis using assms(2) hostsOf_update [of i M c] by (simp add: assembled_def)
  next
    case (report i c type reported R)
    then show ?thesis using assms(2) hostsOf_update [of i M c] by (simp add: assembled_def hostsOf_def)
  next
    case (ended i c M1)
    then have "hostsOf M1 = hosts" "startMessagesSent M1"
      using assms(2) hostsOf_update [of i M c] by (simp_all add: assembled_def)
    then show ?thesis
      using ended(8) by (auto simp: controllerFinished_def handleDisconnection_def hostsOf_def Let_def)
  next
    case timer
    then show ?thesis using assms(2) by (simp add: assembled_def hostsOf_def)
  qed
  ultimately show ?thesis by (simp add: assembled_def)
qed

interpretation masterAssembled: event_driven "masterStep B en" "assembled en hosts"
  for B :: "'b boost_scheme" and en :: endian and hosts :: "string list"
  by unfold_locales (rule masterStep_assembled)

text \<open>Two nodes of one host get different offsets unless 65536 nodes lie between them.\<close>

lemma earlierOnHost_less:
  assumes "i < j" and "j < length hosts" and "hosts ! i = hosts ! j"
  shows "earlierOnHost hosts i < earlierOnHost hosts j"
proof -
  have "take j hosts = take i hosts @ take (j - i) (drop i hosts)"
    using assms(1) by (metis add_diff_inverse_nat less_imp_not_less take_add)
  moreover have "hosts ! i \<in> set (take (j - i) (drop i hosts))"
    using assms by (subst in_set_conv_nth) (intro exI [of _ 0], simp)
  then have "count_list (take (j - i) (drop i hosts)) (hosts ! j) \<noteq> 0"
    using assms(3) count_list_0_iff [of "take (j - i) (drop i hosts)" "hosts ! j"] by simp
  ultimately show ?thesis
    using assms(3) by (simp add: earlierOnHost_def)
qed

lemma earlierOnHost_le: "i < length hosts \<Longrightarrow> earlierOnHost hosts i < length hosts"
  using count_le_length [of "take i hosts" "hosts ! i"] by (simp add: earlierOnHost_def)

lemma nodesStatus_read:
  assumes "0 \<le> a" "a < 2147483648" "0 \<le> b" "b < 2147483648" "0 \<le> c" "c < 2147483648"
  shows "NodesStatus_set (showInt a @ '' '' @ showInt b @ '' '' @ showInt c) N =
    \<lparr>finished = a, failed = b, unfinished = c\<rparr>"
proof -
  have "extractInt 32 old (istreamOf (showInt a @ CHR '' '' # showInt b @ CHR '' '' # showInt c)) =
      (a, \<lparr>unread = CHR '' '' # showInt b @ CHR '' '' # showInt c, failbit = False\<rparr>)" for old
    unfolding istreamOf_def using assms by (intro extractInt_showInt) (auto simp: isDigit_def)
  moreover have "extractInt 32 old \<lparr>unread = CHR '' '' # showInt b @ CHR '' '' # showInt c, failbit = False\<rparr> =
      (b, \<lparr>unread = CHR '' '' # showInt c, failbit = False\<rparr>)" for old
    using assms by (intro extractInt_space_showInt) (auto simp: isDigit_def)
  moreover have "extractInt 32 old \<lparr>unread = CHR '' '' # showInt c, failbit = False\<rparr> = (c, \<lparr>unread = [], failbit = False\<rparr>)" for old
    using extractInt_space_showInt [of 32 c "[]" old] assms by simp
  ultimately show ?thesis
    by (simp add: NodesStatus_set_def)
qed

text \<open>A run of the master up to a state that the event loop reaches.\<close>

definition masterRunning ::
    "'b boost_scheme \<Rightarrow> endian \<Rightarrow> string \<Rightarrow> MasterWorkload \<Rightarrow> DhtperfMaster \<Rightarrow> bool" where
  "masterRunning B en t W M \<longleftrightarrow>
     (\<exists>workloadFile nodesArg lowLatency M0.
        loadWorkloadFile B workloadFile nodesArg (newDhtperfMaster t lowLatency) = Inr M0
        \<and> W = masterWorkload M0 \<and> masterReaches B en (asyncAccept M0) M)"

lemma masterRunning_facts:
  assumes "masterRunning B en t W M"
  shows "masterInv en M" and "masterWorkload M = W" and "masterDhtType M = t"
proof -
  obtain workloadFile nodesArg lowLatency M0
    where l: "loadWorkloadFile B workloadFile nodesArg (newDhtperfMaster t lowLatency) = Inr M0"
      and W: "W = masterWorkload M0" and r: "masterReaches B en (asyncAccept M0) M"
    using assms by (auto simp: masterRunning_def)
  show "masterInv en M"
    using masterReaches_inv [OF r] readyMaster_inv [OF loadWorkloadFile_ready(1) [OF l]] by blast
  show "masterWorkload M = W" and "masterDhtType M = t"
    using masterReaches_setup [OF r] loadWorkloadFile_ready(2) [OF l] W by (simp_all add: sameSetup_def asyncAccept_def)
qed

section \<open>Reading the messages of a controller\<close>

text \<open>The events with which the loop delivers one message of controller \<open>i\<close>.\<close>

definition deliveryOf :: "endian \<Rightarrow> nat \<Rightarrow> Message \<Rightarrow> masterEvent list" where
  "deliveryOf en i m =
     HeaderDone i (Some (headerBytes en (messageHeader en m)))
       # (if bodyBytes en m = [] then [] else [BodyDone i (Some (bodyBytes en m))])"

definition handleEvents :: "'b boost_scheme \<Rightarrow> endian \<Rightarrow> masterEvent list \<Rightarrow> DhtperfMaster \<Rightarrow> DhtperfMaster result" where
  "handleEvents B en es M = foldResult (\<lambda>M e. handleEvent B en e M) M es"

lemma handleEvents_append:
  "handleEvents B en (es @ fs) M = andThen (handleEvents B en es M) (handleEvents B en fs)"
  unfolding handleEvents_def foldResult_append by (simp add: handleEvents_def)

lemma messageHeader_simps [simp]:
  "opcode (messageHeader en m) = messageOpcode m"
  "bodySize (messageHeader en m) = of_nat (length (bodyBytes en m))"
  by (simp_all add: messageHeader_def)

lemma handleEvents_simps:
  "handleEvents B en [] M = Inr M"
  "handleEvents B en (e # es) M = andThen (handleEvent B en e M) (handleEvents B en es)"
  by (simp_all add: handleEvents_def [abs_def])

lemma header_event:
  assumes "i < length (controllers M)" and "peerConnected (controllers M ! i)" and "sendable en m" and "bodyBytes en m \<noteq> []"
  shows "handleEvent B en (HeaderDone i (Some (headerBytes en (messageHeader en m)))) M =
    Inr (M\<lparr>controllers := (controllers M)[i := (controllers M ! i)\<lparr>headerBuffer := messageHeader en m,
      bodyBuffer := resizeBody (length (bodyBytes en m)) (bodyBuffer (controllers M ! i)), reading := BodyRead\<rparr>]\<rparr>)"
proof -
  let ?c = "controllers M ! i" and ?h = "messageHeader en m" and ?b = "bodyBytes en m"
  have size: "unat (of_nat (length ?b) :: u32) = length ?b"
    using assms(3) by (intro unat_of_nat_u32) (simp add: sendable_def)
  moreover have "0 < length ?b" using assms(4) by simp
  ultimately have pos: "(0 :: u32) < of_nat (length ?b)"
    by (simp only: word_less_nat_alt) simp
  have "handleHeaderRead en (Some (headerBytes en ?h)) ?c =
      Inr (Continue, ?c\<lparr>headerBuffer := ?h, bodyBuffer := resizeBody (length ?b) (bodyBuffer ?c), reading := BodyRead\<rparr>)"
    unfolding handleHeaderRead_def using pos size assms(2)
    by (simp add: headerSize_def remoteHost_def Let_def del: bodyBytes.simps)
  then show ?thesis
    using assms(1) by (simp add: afterRead_def vectorAt_in)
qed

lemma body_event:
  assumes "i < length (controllers M)" and "headerBuffer (controllers M ! i) = messageHeader en m" and "sendable en m"
  shows "handleEvent B en (BodyDone i (Some (bodyBytes en m))) M =
    handleMessage B i m (M\<lparr>controllers := (controllers M)[i := (controllers M ! i)\<lparr>bodyBuffer := bodyBytes en m, reading := NoRead\<rparr>]\<rparr>)"
proof -
  let ?c = "controllers M ! i" and ?b = "bodyBytes en m"
  have size: "unat (of_nat (length ?b) :: u32) = length ?b"
    using assms(3) by (intro unat_of_nat_u32) (simp add: sendable_def)
  have "handleBodyRead en (Some ?b) ?c = Inr (Received m, ?c\<lparr>bodyBuffer := ?b, reading := NoRead\<rparr>)"
    unfolding handleBodyRead_def connectionMessage_def using size fromBits_layout [OF assms(3)] assms(2)
    by (simp add: Let_def del: bodyBytes.simps)
  then show ?thesis
    using assms(1) by (simp add: afterRead_def vectorAt_in del: bodyBytes.simps)
qed

lemma handleMessage_report:
  assumes "i < length (controllers M)"
  shows "handleMessage B i (Report type reported) M =
    andThen (pushResult B type reported (resultProcessor M)) (\<lambda>R.
      Inr (M\<lparr>controllers := (controllers M)[i := (controllers M ! i)\<lparr>reading := HeaderRead\<rparr>], resultProcessor := R\<rparr>))"
  using assms
  by (cases "pushResult B type reported (resultProcessor M)")
    (simp_all add: handleMessage_cases onController_def vectorAt_in asyncWaitForMessage_def)

lemma deliver_report:
  assumes "i < length (controllers M)" and "peerConnected (controllers M ! i)" and "sendable en (Report type reported)"
  shows "handleEvents B en (deliveryOf en i (Report type reported)) M =
    andThen (pushResult B type reported (resultProcessor M)) (\<lambda>R.
      Inr (M\<lparr>controllers := (controllers M)[i := (controllers M ! i)
             \<lparr>headerBuffer := messageHeader en (Report type reported),
              bodyBuffer := bodyBytes en (Report type reported), reading := HeaderRead\<rparr>], resultProcessor := R\<rparr>))"
proof -
  let ?m = "Report type reported" and ?c = "controllers M ! i"
  let ?h = "messageHeader en ?m" and ?b = "bodyBytes en ?m"
  let ?c1 = "?c\<lparr>headerBuffer := ?h, bodyBuffer := resizeBody (length ?b) (bodyBuffer ?c), reading := BodyRead\<rparr>"
  have b: "?b \<noteq> []" by simp
  have 1: "handleEvent B en (HeaderDone i (Some (headerBytes en ?h))) M = Inr (M\<lparr>controllers := (controllers M)[i := ?c1]\<rparr>)"
    by (rule header_event [OF assms b])
  have 2: "handleEvent B en (BodyDone i (Some ?b)) (M\<lparr>controllers := (controllers M)[i := ?c1]\<rparr>) =
      handleMessage B i ?m (M\<lparr>controllers := (controllers M)[i := ?c1\<lparr>bodyBuffer := ?b, reading := NoRead\<rparr>]\<rparr>)"
    using body_event [of i "M\<lparr>controllers := (controllers M)[i := ?c1]\<rparr>" en ?m B] assms(1,3) by simp
  show ?thesis
    using 1 2 b assms(1)
    by (cases "pushResult B type reported (resultProcessor M)")
      (simp_all add: deliveryOf_def handleEvents_simps handleMessage_report del: bodyBytes.simps handleEvent.simps)
qed

lemma deliver_finish:
  assumes "i < length (controllers M)" and "peerConnected (controllers M ! i)"
  shows "handleEvents B en (deliveryOf en i Finish) M =
    Inr (controllerFinished (M\<lparr>controllers := (controllers M)[i := (controllers M ! i)
      \<lparr>reading := NoRead, headerBuffer := messageHeader en Finish\<rparr>]\<rparr>))"
  using assms
  by (simp add: deliveryOf_def handleEvents_simps afterRead_def vectorAt_in handleHeaderRead_def headerSize_def
      remoteHost_def connectionMessage_def fromBits_def opcode_defs Finish_fromBits_def handleMessage_cases Let_def)

text \<open>A controller's reports, then \<open>Finish\<close>: pushed one after the other, up to a bad one.\<close>

lemma deliver_all:
  assumes "i < length (controllers M)" and "peerConnected (controllers M ! i)"
    and "\<forall>(type, reported) \<in> set rs. sendable en (Report type reported)"
  shows "case foldResult (\<lambda>R (type, reported). pushResult B type reported R) (resultProcessor M) rs of
      Inl e \<Rightarrow> handleEvents B en (concat (map (\<lambda>(type, reported). deliveryOf en i (Report type reported)) rs)
                  @ deliveryOf en i Finish) M = Inl e
    | Inr R \<Rightarrow> \<exists>M'. handleEvents B en (concat (map (\<lambda>(type, reported). deliveryOf en i (Report type reported)) rs)
                  @ deliveryOf en i Finish) M = Inr M'
        \<and> resultProcessor M' = R
        \<and> finishedControllers M' = finishedControllers M + 1 \<and> failedControllers M' = failedControllers M
        \<and> reading (controllers M' ! i) = NoRead
        \<and> (\<forall>j. j \<noteq> i \<longrightarrow> controllers M' ! j = controllers M ! j)"
  using assms
proof (induction rs arbitrary: M)
  case Nil
  then show ?case
    by (simp add: deliver_finish controllerFinished_def Let_def)
next
  case (Cons r rs)
  obtain type reported where r: "r = (type, reported)" by (cases r)
  have s: "sendable en (Report type reported)" using Cons.prems(3) r by simp
  show ?case
  proof (cases "pushResult B type reported (resultProcessor M)")
    case (Inl e)
    then show ?thesis
      using deliver_report [OF Cons.prems(1,2) s, of B] by (simp add: r handleEvents_append)
  next
    case (Inr R)
    let ?M1 = "M\<lparr>controllers := (controllers M)[i := (controllers M ! i)
             \<lparr>headerBuffer := messageHeader en (Report type reported),
              bodyBuffer := bodyBytes en (Report type reported), reading := HeaderRead\<rparr>], resultProcessor := R\<rparr>"
    have 1: "handleEvents B en (deliveryOf en i (Report type reported)) M = Inr ?M1"
      using deliver_report [OF Cons.prems(1,2) s, of B] Inr by simp
    have "i < length (controllers ?M1)" and "peerConnected (controllers ?M1 ! i)"
      using Cons.prems(1,2) by simp_all
    from Cons.IH [OF this] show ?thesis
      using Cons.prems(3) 1 Inr by (simp add: r handleEvents_append split: sum.splits)
  qed
qed

section \<open>A concrete run\<close>

text \<open>Two controllers of one host are accepted.\<close>

lemma toBits_small: "length (bodyBytes en m) < 4294967296 \<Longrightarrow> \<exists>bits. toBits en m = Inr bits"
  by (simp add: toBits_layout)

lemma sendMessage_small:
  assumes "length (bodyBytes en m) < 4294967296"
  obtains c' where "sendMessage en m c = Inr c'" and "peerHost c' = peerHost c" and "peerConnected c' = peerConnected c"
    and "reading c' = reading c" and "pendingWrites c' = pendingWrites c + 1"
proof -
  obtain bits where "toBits en m = Inr bits" using toBits_small [OF assms] by blast
  then show thesis using that by (simp add: sendMessage_def)
qed

lemma greet_ok:
  assumes "getNodeProfile (of_nat (length (controllers M))) (masterWorkload M) = Inr (j, l, p, g)"
    and "length (masterDhtType M) < 4294967296" and "length (bodyBytes en (Profile j l p g)) < 4294967296"
  obtains c where "handleAccept en (Some host) M =
      (let M2 = M\<lparr>accepting := False, controllers := controllers M @ [c]\<rparr>
       in if Suc (length (controllers M)) < unat (nodes (masterWorkload M)) then Inr (asyncAccept M2) else sendStartMessages en M2)"
    and "peerHost c = host" and "peerConnected c" and "pendingWrites c = 2"
proof -
  obtain c1 where c1: "sendMessage en (DhtType (masterDhtType M)) (newControllerConnection host) = Inr c1"
    "peerHost c1 = host" "peerConnected c1" "pendingWrites c1 = 1"
    using sendMessage_small [of en "DhtType (masterDhtType M)" "newControllerConnection host"] assms(2)
    by (auto simp: newControllerConnection_def)
  obtain c2 where c2: "sendMessage en (Profile j l p g) c1 = Inr c2" "peerHost c2 = host" "peerConnected c2" "pendingWrites c2 = 2"
    using sendMessage_small [OF assms(3), of c1] c1(2-4) by (metis one_add_one)
  show thesis
    by (rule that [of c2]) (use c1 c2 assms(1) in
      \<open>simp_all add: handleAccept_def sendDhtTypeMessage_def sendProfileMessage_def onController_def vectorAt_def Let_def\<close>)
qed

text \<open>The start messages can be sent when every peer is there and the host of node 0 is not too long.\<close>

definition started :: "ControllerConnection \<Rightarrow> ControllerConnection \<Rightarrow> bool" where
  "started c c' \<longleftrightarrow> peerHost c' = peerHost c \<and> peerConnected c' \<and> reading c' = HeaderRead
     \<and> pendingWrites c' = pendingWrites c + 1"

lemma sendStartMessage_ok:
  assumes k: "k < length (controllers M)" and c: "peerConnected (controllers M ! k)"
    and first: "peerConnected (controllers M ! 0)" "length (peerHost (controllers M ! 0)) < 4294967288"
  shows "\<exists>ph' c'. sendStartMessage en (ph, M) k = Inr (ph', M\<lparr>controllers := (controllers M)[k := c']\<rparr>)
    \<and> started (controllers M ! k) c'"
proof -
  let ?c = "controllers M ! k" and ?entry = "if k = 0 then '''' else peerHost (controllers M ! 0)"
  have entry: "entryPointHostFor k M = Inr ?entry"
    using first order.strict_trans1 [OF le0 k]
    by (simp add: entryPointHostFor_def getNodeEntryPointHost_def vectorAt_def remoteHost_def)
  let ?ph = "countNode (peerHost ?c) ph"
  let ?m = "Start (workloadDuration (masterWorkload M)) ?entry 0 (word_of_int (mapAt 0 ?ph (peerHost ?c) - 1))"
  have "length (bodyBytes en ?m) < 4294967296" using first by simp
  then obtain c' where c': "sendMessage en ?m ?c = Inr c'" "peerHost c' = peerHost ?c" "peerConnected c' = peerConnected ?c"
    "pendingWrites c' = pendingWrites ?c + 1"
    by (rule sendMessage_small)
  have "sendStartMessage en (ph, M) k = Inr (?ph, M\<lparr>controllers := (controllers M)[k := c'\<lparr>reading := HeaderRead\<rparr>]\<rparr>)"
    using entry c c' k
    by (simp add: sendStartMessage_def vectorAt_def remoteHost_def onController_def asyncWaitForMessage_def Let_def)
  then show ?thesis
    using c c'(2-4) by (auto simp: started_def)
qed

lemma sendStartMessages_ok:
  assumes "\<forall>c \<in> set (controllers M). peerConnected c \<and> length (peerHost c) < 4294967288"
  shows "\<exists>cs. sendStartMessages en M = Inr (M\<lparr>controllers := cs, startMessagesSent := True\<rparr>)
    \<and> list_all2 started (controllers M) cs"
proof -
  let ?cs = "controllers M"
  have "\<exists>ph cs. foldResult (sendStartMessage en) (mapEmpty, M) [0..<n] = Inr (ph, M\<lparr>controllers := cs\<rparr>)
      \<and> length cs = length ?cs \<and> (\<forall>i < length cs. if i < n then started (?cs ! i) (cs ! i) else cs ! i = ?cs ! i)"
    if "n \<le> length ?cs" for n
    using that
  proof (induction n)
    case 0
    show ?case
      by (intro exI [of _ mapEmpty] exI [of _ ?cs]) simp
  next
    case (Suc n)
    then have "\<exists>ph cs. foldResult (sendStartMessage en) (mapEmpty, M) [0..<n] = Inr (ph, M\<lparr>controllers := cs\<rparr>)
      \<and> length cs = length ?cs \<and> (\<forall>i < length cs. if i < n then started (?cs ! i) (cs ! i) else cs ! i = ?cs ! i)"
      by simp
    then obtain ph cs where fold: "foldResult (sendStartMessage en) (mapEmpty, M) [0..<n] = Inr (ph, M\<lparr>controllers := cs\<rparr>)"
      and len: "length cs = length ?cs"
      and cs: "\<And>i. i < length cs \<Longrightarrow> if i < n then started (?cs ! i) (cs ! i) else cs ! i = ?cs ! i"
      by blast
    have n: "n < length cs" using Suc.prems len by simp
    have z: "0 < length cs" by (rule order.strict_trans1 [OF le0 n])
    have "peerConnected (cs ! i) \<and> length (peerHost (cs ! i)) < 4294967288" if "i < length cs" for i
      using assms cs [OF that] len that by (cases "i < n") (simp_all add: started_def)
    then obtain ph' c' where step: "sendStartMessage en (ph, M\<lparr>controllers := cs\<rparr>) n = Inr (ph', M\<lparr>controllers := cs[n := c']\<rparr>)"
      and c': "started (cs ! n) c'"
      using sendStartMessage_ok [of n "M\<lparr>controllers := cs\<rparr>" en ph] n z by auto
    have "if i < Suc n then started (?cs ! i) (cs[n := c'] ! i) else cs[n := c'] ! i = ?cs ! i" if "i < length (cs[n := c'])" for i
      using cs [of i] cs [OF n] c' that by (cases "i = n") auto
    moreover have "foldResult (sendStartMessage en) (mapEmpty, M) [0..<Suc n] = Inr (ph', M\<lparr>controllers := cs[n := c']\<rparr>)"
      using fold step by (simp add: foldResult_append)
    moreover have "length (cs[n := c']) = length ?cs" using len by simp
    ultimately show ?case by blast
  qed
  from this [OF order.refl] obtain ph cs where
      "foldResult (sendStartMessage en) (mapEmpty, M) [0..<length ?cs] = Inr (ph, M\<lparr>controllers := cs\<rparr>)"
      "length cs = length ?cs" "\<forall>i < length cs. started (?cs ! i) (cs ! i)"
    by auto
  then show ?thesis
    by (intro exI [of _ cs]) (simp add: sendStartMessages_def list_all2_conv_all_nth)
qed

lemma exampleWorkload:
  "\<exists>W. loadConfig refBoost (Some (linesText (configLines 2 60 exampleProfiles ''a'' []))) 0 newMasterWorkload = Inr (True, W)
     \<and> nodes W = 2 \<and> (\<forall>i < 2. getNodeProfile (of_nat i) W = Inr (''now'', ''none'', ''none'', ''none''))"
proof -
  obtain W where W: "loadConfig refBoost (Some (linesText (configLines 2 60 exampleProfiles ''a'' []))) 0 newMasterWorkload = Inr (True, W)"
    and n: "nodes W = 2" and st: "store W = map storedProfile exampleProfiles"
    and np: "\<And>i. i < unat (2 :: u32) \<Longrightarrow> mapFind (nodeProfiles W) (of_nat i) = Some (chosenProfile ''a'' [] (of_nat i))"
    and at: "\<And>k. k < length exampleProfiles \<Longrightarrow> mapFind (profiles W) (fst (exampleProfiles ! k)) = Some k"
    by (rule written_config_loads [OF refBoost_regex refBoost_cast _ _ exampleProfiles_good(1-3), of 2 60 "[]"]) simp_all
  have "getNodeProfile (of_nat i) W = Inr (''now'', ''none'', ''none'', ''none'')" if "i < 2" for i
    using np [of i] at [of 0] st that
    by (simp add: getNodeProfile_def mapAt_def chosenProfile_def vectorAt_def exampleProfiles_def MasterProfile_getProfile_def)
  then show ?thesis using W n by blast
qed

lemma exampleRun:
  "\<exists>W M. masterRunning refBoost LittleEndian ''dummy'' W M \<and> startMessagesSent M \<and> length (controllers M) = 2
     \<and> unat (nodes W) = 2 \<and> hostsOf M = [''10.0.0.1'', ''10.0.0.1'']
     \<and> (\<forall>i < 2. getNodeProfile (of_nat i) W = Inr (''now'', ''none'', ''none'', ''none''))"
proof -
  obtain W where W: "loadConfig refBoost (Some (linesText (configLines 2 60 exampleProfiles ''a'' []))) 0 newMasterWorkload = Inr (True, W)"
    and n: "nodes W = 2" and prof: "\<And>i. i < 2 \<Longrightarrow> getNodeProfile (of_nat i) W = Inr (''now'', ''none'', ''none'', ''none'')"
    using exampleWorkload by blast
  let ?M0 = "newDhtperfMaster ''dummy'' False\<lparr>masterWorkload := W\<rparr>"
  let ?B = refBoost and ?en = LittleEndian and ?h = "''10.0.0.1''"
  have load: "loadWorkloadFile ?B (Some (linesText (configLines 2 60 exampleProfiles ''a'' []))) 0 (newDhtperfMaster ''dummy'' False) = Inr ?M0"
    using W by (simp add: loadWorkloadFile_def newDhtperfMaster_def)
  have small: "length (bodyBytes ?en (Profile ''now'' ''none'' ''none'' ''none'')) < 4294967296"
    by simp
  have greet: "\<exists>c. handleAccept ?en (Some ?h) M =
      (let M2 = M\<lparr>accepting := False, controllers := controllers M @ [c]\<rparr>
       in if Suc (length (controllers M)) < 2 then Inr (asyncAccept M2) else sendStartMessages ?en M2)
      \<and> peerHost c = ?h \<and> peerConnected c"
    if "length (controllers M) < 2" and "masterWorkload M = W" and "masterDhtType M = ''dummy''" for M
    by (rule greet_ok [of M "''now''" "''none''" "''none''" "''none''" ?en ?h])
      (use that prof small n in \<open>auto simp del: bodyBytes.simps\<close>)
  obtain c where c: "handleAccept ?en (Some ?h) (asyncAccept ?M0) = Inr (asyncAccept (asyncAccept ?M0\<lparr>accepting := False, controllers := [c]\<rparr>))"
    "peerHost c = ?h" "peerConnected c"
    using greet [of "asyncAccept ?M0"] by (auto simp: newDhtperfMaster_def asyncAccept_def)
  let ?M1 = "asyncAccept (asyncAccept ?M0\<lparr>accepting := False, controllers := [c]\<rparr>)"
  obtain d where d: "handleAccept ?en (Some ?h) ?M1 = sendStartMessages ?en (?M1\<lparr>accepting := False, controllers := [c, d]\<rparr>)"
    "peerHost d = ?h" "peerConnected d"
    using greet [of ?M1] by (auto simp: newDhtperfMaster_def asyncAccept_def)
  obtain M where M: "sendStartMessages ?en (?M1\<lparr>accepting := False, controllers := [c, d]\<rparr>) = Inr M" "startMessagesSent M"
    "hostsOf M = [?h, ?h]"
    using sendStartMessages_ok [of "?M1\<lparr>accepting := False, controllers := [c, d]\<rparr>" ?en] c d
    by (auto simp: hostsOf_def started_def list_all2_Cons1)
  have "masterStep ?B ?en (asyncAccept ?M0) ?M1"
    using c(1) by (intro masterStep.deliver [where e = "AcceptDone (Some ?h)"]) (simp_all add: newDhtperfMaster_def asyncAccept_def)
  moreover have "masterStep ?B ?en ?M1 M"
    using d(1) M(1) by (intro masterStep.deliver [where e = "AcceptDone (Some ?h)"]) (simp_all add: newDhtperfMaster_def asyncAccept_def)
  ultimately have "masterReaches ?B ?en (asyncAccept ?M0) M"
    unfolding masterReaches_def by (meson converse_rtranclp_into_rtranclp rtranclp.rtrancl_refl)
  then have "masterRunning ?B ?en ''dummy'' W M"
    unfolding masterRunning_def using load by (metis (no_types, lifting) DhtperfMaster.select_convs(1) DhtperfMaster.surjective DhtperfMaster.update_convs(1))
  moreover have "length (controllers M) = 2"
    using M(3) by (metis One_nat_def Suc_1 hostsOf_def length_map list.size(3,4) add.right_neutral add_Suc_right)
  moreover have "unat (nodes W) = 2" by (simp add: n)
  ultimately show ?thesis using M(2,3) prof by blast
qed

section \<open>Properties\<close>

text \<open>
  C8. However accepts, reads, writes, losses of connections and the timer interleave, every controller is
  counted once: after the start messages there are as many controllers as nodes, the finished ones are
  exactly those that the master waits for no more, the failed ones are among them, and the loop has
  stopped when no one is waited for. Before that no one is counted.
\<close>

theorem controllers_counted_once:
  assumes "masterRunning B en t W M"
  shows "unat (failedControllers M) \<le> unat (finishedControllers M)
    \<and> unat (finishedControllers M) \<le> unat (nodes W)
    \<and> (startMessagesSent M \<longrightarrow>
          length (controllers M) = unat (nodes W)
          \<and> unat (finishedControllers M) = length (filter (\<lambda>c. reading c = NoRead) (controllers M))
          \<and> ((\<forall>c \<in> set (controllers M). reading c = NoRead) \<longrightarrow> stopped M))
    \<and> (\<not> startMessagesSent M \<longrightarrow>
          finishedControllers M = 0 \<and> accepting M \<and> length (controllers M) < unat (nodes W))"
proof -
  note f = masterRunning_facts [OF assms]
  show ?thesis
  proof (cases "startMessagesSent M")
    case True
    have all: "idle (controllers M) = length (controllers M)" if "\<forall>c \<in> set (controllers M). reading c = NoRead"
      using that by (simp add: idle_def)
    have m: "unat (failedControllers M) \<le> unat (finishedControllers M)" "length (controllers M) = unat (nodes W)"
      "unat (finishedControllers M) = idle (controllers M)" "finishedControllers M = nodes W \<longrightarrow> stopped M"
      using f(1,2) True by (simp_all add: masterInv_def)
    have "(\<forall>c \<in> set (controllers M). reading c = NoRead) \<longrightarrow> stopped M"
      using all m(2,3,4) by (metis word_unat_eq_iff)
    then show ?thesis
      using True m idle_le [of "controllers M"] by (simp add: idle_def)
  next
    case False
    moreover have "unat (failedControllers M) = 0"
      using f(1) False by (auto simp: masterInv_def)
    ultimately show ?thesis using f(1,2) by (simp add: masterInv_def)
  qed
qed

theorem controllers_counted_once_witness:
  "\<exists>W M. masterRunning refBoost LittleEndian ''dummy'' W M \<and> startMessagesSent M
     \<and> length (filter (\<lambda>c. reading c = NoRead) (controllers M)) \<le> 2"
proof -
  obtain W M where r: "masterRunning refBoost LittleEndian ''dummy'' W M" "startMessagesSent M" "unat (nodes W) = 2"
    using exampleRun by blast
  from controllers_counted_once [OF r(1)] show ?thesis using r by metis
qed

text \<open>
  C24. The status that is reported at the end accounts for every node: finished, failed and unfinished
  nodes add up to all nodes, and the unfinished ones are those that are still waited for.
\<close>

theorem nodes_status_partition:
  assumes "masterRunning B en t W M" and "startMessagesSent M" and "unat (nodes W) < 2147483648"
  shows "\<exists>M'. pushNodesStatus B M = Inr M'
    \<and> failed (nodesStatus (resultProcessor M')) = int (unat (failedControllers M))
    \<and> unfinished (nodesStatus (resultProcessor M')) = int (length (filter (\<lambda>c. reading c \<noteq> NoRead) (controllers M)))
    \<and> finished (nodesStatus (resultProcessor M')) + failed (nodesStatus (resultProcessor M'))
        + unfinished (nodesStatus (resultProcessor M')) = int (unat (nodes W))
    \<and> 0 \<le> finished (nodesStatus (resultProcessor M'))"
proof -
  note f = masterRunning_facts [OF assms(1)]
  let ?fa = "failedControllers M" and ?fi = "finishedControllers M" and ?n = "nodes W"
  have le: "unat ?fa \<le> unat ?fi" and idle: "unat ?fi = idle (controllers M)" and len: "length (controllers M) = unat ?n"
    using f(1,2) assms(2) by (simp_all add: masterInv_def)
  have le': "unat ?fi \<le> unat ?n"
    using idle len idle_le [of "controllers M"] by simp
  have s: "sint w = int (unat w)" if "unat w < 2147483648" for w :: u32
    using sint_of_nat_u32 [OF that] by simp
  have d1: "unat (?fi - ?fa) = unat ?fi - unat ?fa" and d2: "unat (?n - ?fi) = unat ?n - unat ?fi"
    using le le' by (simp_all add: unat_sub word_le_nat_alt)
  have "length (filter (\<lambda>c. reading c \<noteq> NoRead) (controllers M)) + idle (controllers M) = length (controllers M)"
    using sum_length_filter_compl [of "\<lambda>c. reading c = NoRead" "controllers M"] by (simp add: idle_def)
  then have waited: "length (filter (\<lambda>c. reading c \<noteq> NoRead) (controllers M)) = unat ?n - unat ?fi"
    using idle len by simp
  define x y z where xyz: "x = unat ?fi - unat ?fa" "y = unat ?fa" "z = unat ?n - unat ?fi"
  have bounds: "x < 2147483648" "y < 2147483648" "z < 2147483648" and sum: "x + y + z = unat ?n"
    using le le' assms(3) unfolding xyz by linarith+
  have "nodesStatusText M = showInt (int x) @ '' '' @ showInt (int y) @ '' '' @ showInt (int z)"
    using s [of ?fa] s [of "?fi - ?fa"] s [of "?n - ?fi"] d1 d2 bounds f(2)
    unfolding xyz nodesStatusText_def Let_def by metis
  then have "NodesStatus_set (nodesStatusText M) N = \<lparr>finished = int x, failed = int y, unfinished = int z\<rparr>" for N
    using nodesStatus_read [of "int x" "int y" "int z" N] bounds by simp
  then have r: "pushNodesStatus B M = Inr (M\<lparr>resultProcessor := (resultProcessor M)
      \<lparr>nodesStatus := \<lparr>finished = int x, failed = int y, unfinished = int z\<rparr>\<rparr>\<rparr>)"
    by (simp add: pushNodesStatus_def pushResult_def pushStatus_def)
  show ?thesis
    unfolding r waited xyz(3) [symmetric] unfolding sum [symmetric] xyz(2) [symmetric] by simp
qed

theorem nodes_status_partition_witness:
  "\<exists>W M M'. masterRunning refBoost LittleEndian ''dummy'' W M \<and> pushNodesStatus refBoost M = Inr M'
     \<and> finished (nodesStatus (resultProcessor M')) + failed (nodesStatus (resultProcessor M'))
         + unfinished (nodesStatus (resultProcessor M')) = 2"
proof -
  obtain W M where r: "masterRunning refBoost LittleEndian ''dummy'' W M" "startMessagesSent M" "unat (nodes W) = 2"
    using exampleRun by blast
  from nodes_status_partition [OF r(1,2)] show ?thesis using r by fastforce
qed

text \<open>
  Every controller gets its configuration, in this order and nothing else: the type of the DHT, the
  profile that the workload has for it, and, when all are there, a start message with the duration, the
  host of controller 0 (none for controller 0 itself) and the number of earlier controllers of its host as
  offset; so two controllers of one host never share an offset (with at most 65536 nodes).
\<close>

lemma controllers_configured:
  assumes "masterRunning B en t W M" and "startMessagesSent M" and "i < length (controllers M)"
  shows "(\<exists>j l p g. getNodeProfile (of_nat i) W = Inr (j, l, p, g)
        \<and> map Inr (writesStarted (controllers M ! i)) = map (toBits en)
            [DhtType t, Profile j l p g,
             Start (workloadDuration W) (if i = 0 then '''' else peerHost (controllers M ! 0)) 0
               (of_nat (earlierOnHost (hostsOf M) i))])
    \<and> (\<forall>k < i. unat (nodes W) \<le> 65536 \<longrightarrow> peerHost (controllers M ! k) = peerHost (controllers M ! i) \<longrightarrow>
          (of_nat (earlierOnHost (hostsOf M) k) :: u16) \<noteq> of_nat (earlierOnHost (hostsOf M) i))"
proof (intro conjI allI impI)
  note f = masterRunning_facts [OF assms(1)]
  have "configured en M i True"
    using f(1) assms(2,3) by (simp add: masterInv_def)
  then show "\<exists>j l p g. getNodeProfile (of_nat i) W = Inr (j, l, p, g)
        \<and> map Inr (writesStarted (controllers M ! i)) = map (toBits en)
            [DhtType t, Profile j l p g,
             Start (workloadDuration W) (if i = 0 then '''' else peerHost (controllers M ! 0)) 0
               (of_nat (earlierOnHost (hostsOf M) i))]"
    using f(2,3) assms(3) hostsOf_nth [of 0 M]
    by (fastforce simp: configured_def profileMessage_def startMessage_def sentTo_def andThen_Inr_iff split: if_splits)
  fix k assume k: "k < i" and n: "unat (nodes W) \<le> 65536" and h: "peerHost (controllers M ! k) = peerHost (controllers M ! i)"
  have len: "length (hostsOf M) = unat (nodes W)"
    using f(1,2) assms(2) by (simp add: masterInv_def hostsOf_def)
  have i: "i < length (hostsOf M)" using assms(3) by (simp add: hostsOf_def)
  have "earlierOnHost (hostsOf M) k < earlierOnHost (hostsOf M) i"
    using k i h hostsOf_nth [of k M] hostsOf_nth [of i M] assms(3) by (intro earlierOnHost_less) auto
  moreover have "earlierOnHost (hostsOf M) i < 65536"
    using earlierOnHost_le [OF i] len n by linarith
  ultimately show "(of_nat (earlierOnHost (hostsOf M) k) :: u16) \<noteq> of_nat (earlierOnHost (hostsOf M) i)"
    using unat_of_nat_u16 [of "earlierOnHost (hostsOf M) k"] unat_of_nat_u16 [of "earlierOnHost (hostsOf M) i"]
    by (metis less_imp_not_eq order.strict_trans)
qed

lemma controllers_configured_witness:
  "\<exists>W M. masterRunning refBoost LittleEndian ''dummy'' W M
     \<and> (of_nat (earlierOnHost (hostsOf M) 0) :: u16) \<noteq> of_nat (earlierOnHost (hostsOf M) 1)"
proof -
  obtain W M where r: "masterRunning refBoost LittleEndian ''dummy'' W M" "startMessagesSent M" "length (controllers M) = 2"
    "unat (nodes W) = 2" "hostsOf M = [''10.0.0.1'', ''10.0.0.1'']"
    using exampleRun by blast
  have "1 < length (controllers M)" using r(3) by simp
  note conf = controllers_configured [OF r(1,2) this]
  have "peerHost (controllers M ! 0) = peerHost (controllers M ! 1)"
    using hostsOf_nth [of 0 M] hostsOf_nth [of 1 M] r(3,5) by simp
  then have "(of_nat (earlierOnHost (hostsOf M) 0) :: u16) \<noteq> of_nat (earlierOnHost (hostsOf M) 1)"
    using conf r(4) by simp
  then show ?thesis using r(1) by blast
qed

definition waitingMaster :: DhtperfMaster where
  "waitingMaster = newDhtperfMaster ''dummy'' False
     \<lparr>startMessagesSent := True, controllers := [asyncWaitForMessage (newControllerConnection ''10.0.0.1'')]\<rparr>"

text \<open>
  C39. A controller that closes its connection is counted as failed and as finished, and the run goes on
  with the others. But if the connection is reset, so that its endpoint is no longer known, the attempt to
  print the endpoint in the error message throws, and the whole master ends; the same holds for a message
  that has just been read.
\<close>

theorem lost_connection:
  assumes "i < length (controllers M)"
  shows "(peerConnected (controllers M ! i) \<longrightarrow>
        (\<exists>M'. handleEvent B en (HeaderDone i None) M = Inr M' \<and> handleEvent B en (BodyDone i None) M = Inr M'
          \<and> failedControllers M' = failedControllers M + 1 \<and> finishedControllers M' = finishedControllers M + 1
          \<and> resultProcessor M' = resultProcessor M \<and> (\<forall>j. j \<noteq> i \<longrightarrow> controllers M' ! j = controllers M ! j)))
    \<and> handleEvents B en [ConnectionLost i, HeaderDone i None] M = Inl SystemError
    \<and> handleEvents B en [ConnectionLost i, BodyDone i None] M = Inl SystemError
    \<and> (length header = headerSize \<longrightarrow>
        handleEvents B en [ConnectionLost i, HeaderDone i (Some header)] M = Inl SystemError)"
  using assms
  by (simp add: handleEvents_simps onController_def afterRead_def vectorAt_in handleHeaderRead_def handleBodyRead_def
      remoteHost_def headerSize_def handleDisconnection_def controllerFinished_def Let_def)

theorem lost_connection_witness:
  "\<exists>M'. handleEvent refBoost LittleEndian (HeaderDone 0 None) waitingMaster = Inr M' \<and> failedControllers M' = 1"
  using lost_connection [of 0 waitingMaster refBoost LittleEndian]
  by (auto simp: waitingMaster_def newDhtperfMaster_def newControllerConnection_def asyncWaitForMessage_def)

text \<open>
  The greeting of every controller breaks the rule of \<open>async_write\<close>: the profile is written, from the
  same buffer, while the write of the DHT type is still under way, because no handler can run in between.
\<close>

lemma greeting_writes_overlap:
  assumes "handleAccept en (Some host) M = Inr M'" and "Suc (length (controllers M)) < unat (nodes (masterWorkload M))"
  shows "\<exists>c first second. controllers M' = controllers M @ [c] \<and> peerHost c = host
    \<and> writesStarted c = [first, second] \<and> toBits en (DhtType (masterDhtType M)) = Inr first
    \<and> overlapped c \<and> pendingWrites c = 2 \<and> writeBuffer c = second"
proof -
  let ?n = "length (controllers M)"
  obtain M1 M2 where g: "sendDhtTypeMessage en ?n (M\<lparr>accepting := False, controllers := controllers M @ [newControllerConnection host]\<rparr>) = Inr M1"
      "sendProfileMessage en ?n M1 = Inr M2"
    and r: "(if length (controllers M2) < unat (nodes (masterWorkload M2)) then Inr (asyncAccept M2) else sendStartMessages en M2) = Inr M'"
    using assms(1) by (auto simp: handleAccept_def Let_def andThen_Inr_iff)
  from g obtain c where M2: "M2 = M\<lparr>accepting := False, controllers := controllers M @ [c]\<rparr>"
    and c: "peerHost c = host" "configured en M2 ?n False" "pendingWrites c = 2" "overlapped c" "writeBuffer c = last (writesStarted c)"
    by (rule greet_controller) auto
  have "M' = asyncAccept M2" using r assms(2) by (simp add: M2)
  moreover obtain p where "map Inr (writesStarted c) = map (toBits en) [DhtType (masterDhtType M), p]"
    using c(2) by (auto simp: configured_def sentTo_def M2)
  ultimately show ?thesis
    using c by (auto simp: asyncAccept_def M2 map_eq_Cons_conv)
qed

lemma greeting_writes_overlap_witness:
  "\<exists>M M' c. handleAccept LittleEndian (Some ''10.0.0.1'') M = Inr M' \<and> controllers M' = [c] \<and> overlapped c"
proof -
  obtain W where W: "nodes W = 2" "getNodeProfile (of_nat 0) W = Inr (''now'', ''none'', ''none'', ''none'')"
    using exampleWorkload by (metis zero_less_numeral)
  let ?M = "newDhtperfMaster ''dummy'' False\<lparr>masterWorkload := W\<rparr>"
  have "length (bodyBytes LittleEndian (Profile ''now'' ''none'' ''none'' ''none'')) < 4294967296" by simp
  then obtain M' where M': "handleAccept LittleEndian (Some ''10.0.0.1'') ?M = Inr M'"
    by (rule greet_ok [of ?M "''now''" "''none''" "''none''" "''none''" LittleEndian "''10.0.0.1''", rotated 2])
      (use W in \<open>auto simp: newDhtperfMaster_def Let_def\<close>)
  have "Suc (length (controllers ?M)) < unat (nodes (masterWorkload ?M))"
    using W(1) by (simp add: newDhtperfMaster_def)
  from greeting_writes_overlap [OF M' this] show ?thesis
    using M' by (auto simp: newDhtperfMaster_def)
qed

end
