(* ===== verification/Programs.thy ===== *)
theory Programs
  imports Controller MasterInvariant
begin

text \<open>
  \<open>dhtperf-master.cpp\<close> and \<open>dhtperf-controller.cpp\<close>: the main programs, from the command line to the
  object that they run. Parsing a command line is the work of \<open>boost::program_options\<close>: a function
  from the described options, the positional ones and the arguments to the values of the options, or
  \<open>None\<close> if it throws.
\<close>

section \<open>Options\<close>

datatype optionKind =
    Switch
  | TextOption "string option"  (* with its default value *)
  | NumberOption "int option"

type_synonym optionsDescription = "(string \<times> optionKind) list"

datatype optionValue =
    SwitchValue
  | TextValue string
  | NumberValue int

type_synonym variablesMap = "string \<Rightarrow> optionValue option"

type_synonym optionsParser = "optionsDescription \<Rightarrow> (string \<times> nat) list \<Rightarrow> string list \<Rightarrow> variablesMap option"

text \<open>What the library promises: a value has the type of its option, and an option with a default has one.\<close>

fun validValue :: "optionKind \<Rightarrow> optionValue option \<Rightarrow> bool" where
  "validValue Switch v \<longleftrightarrow> v = None \<or> v = Some SwitchValue"
| "validValue (TextOption d) v \<longleftrightarrow> (v = None \<and> d = None) \<or> (\<exists>s. v = Some (TextValue s))"
| "validValue (NumberOption d) v \<longleftrightarrow> (v = None \<and> d = None) \<or> (\<exists>n. v = Some (NumberValue n))"

definition options_documented :: "optionsParser \<Rightarrow> bool" where
  "options_documented parse \<longleftrightarrow> (\<forall>desc positional arguments vm. parse desc positional arguments = Some vm \<longrightarrow>
     (\<forall>(name, kind) \<in> set desc. validValue kind (vm name)))"

text \<open>\<open>po::notify\<close>: a string keeps its value, which is empty at first; an \<open>int\<close> has none before.\<close>

definition notifyText :: "string \<Rightarrow> variablesMap \<Rightarrow> string" where
  "notifyText name vm = (case vm name of Some (TextValue s) \<Rightarrow> s | _ \<Rightarrow> '''')"

definition notifyNumber :: "string \<Rightarrow> variablesMap \<Rightarrow> int option" where
  "notifyNumber name vm = (case vm name of Some (NumberValue n) \<Rightarrow> Some n | _ \<Rightarrow> None)"

definition DefaultMasterPort :: int where
  "DefaultMasterPort = 1810"

section \<open>The master\<close>

record masterOptions =
  helpAsked :: bool
  versionAsked :: bool
  workloadFile :: string
  dht :: string
  nodesOption :: "int option"
  lowLatency :: bool

definition validDhts :: "string list" where
  "validDhts =
     [''dummy'', ''kaddemo'', ''openchord'', ''owshellchord'', ''owshellkad'', ''owshellpastry'', ''pastconsole'']"

text \<open>Either the exit status before a master is made, or the master with which \<open>run\<close> is called.\<close>

definition masterMain ::
    "'b boost_scheme \<Rightarrow> masterOptions option \<Rightarrow> (string \<Rightarrow> string option) \<Rightarrow> int + DhtperfMaster result" where
  "masterMain B options readFile =
     (case options of
        None \<Rightarrow> Inl 1
      | Some opt \<Rightarrow>
          if helpAsked opt then Inl 0
          else if versionAsked opt then Inl 0
          else if dht opt = '''' then Inl 1
          else if dht opt \<notin> set validDhts then Inl 1
          else let master = newDhtperfMaster (dht opt) (lowLatency opt)
               in Inr (case nodesOption opt of
                         Some n \<Rightarrow> loadWorkloadFile B (readFile (workloadFile opt)) n master
                       | None \<Rightarrow> loadWorkloadFile B (readFile (workloadFile opt)) 0 master))"

definition masterDescription :: optionsDescription where
  "masterDescription =
     [(''help'', Switch), (''version'', Switch), (''port'', NumberOption (Some DefaultMasterPort)),
      (''workload-file'', TextOption (Some ''example-workload'')), (''dht'', TextOption None),
      (''nodes'', NumberOption None), (''low-latency'', Switch)]"

definition masterOptionsOf :: "variablesMap \<Rightarrow> masterOptions" where
  "masterOptionsOf vm =
     \<lparr>helpAsked = vm ''help'' \<noteq> None, versionAsked = vm ''version'' \<noteq> None,
      workloadFile = notifyText ''workload-file'' vm, dht = notifyText ''dht'' vm,
      nodesOption = notifyNumber ''nodes'' vm, lowLatency = vm ''low-latency'' \<noteq> None\<rparr>"

definition masterProgram ::
    "'b boost_scheme \<Rightarrow> optionsParser \<Rightarrow> string list \<Rightarrow> (string \<Rightarrow> string option) \<Rightarrow> int + DhtperfMaster result" where
  "masterProgram B parse arguments readFile =
     masterMain B (map_option masterOptionsOf (parse masterDescription [] arguments)) readFile"

section \<open>The controller\<close>

record controllerOptions =
  controllerHelp :: bool
  controllerVersion :: bool
  masterHost :: string
  masterPort :: "int option"

text \<open>The exit status, or the host and port of the master to connect to.\<close>

definition controllerMain :: "controllerOptions option \<Rightarrow> int + (string \<times> int) result" where
  "controllerMain options =
     (case options of
        None \<Rightarrow> Inl 1
      | Some opt \<Rightarrow>
          if controllerHelp opt then Inl 0
          else if controllerVersion opt then Inl 0
          else Inr (case masterPort opt of
                      None \<Rightarrow> Inl UndefinedBehaviour
                    | Some port \<Rightarrow> Inr (masterHost opt, port)))"

definition controllerDescription :: optionsDescription where
  "controllerDescription =
     [(''help'', Switch), (''version'', Switch), (''host'', TextOption (Some ''localhost'')),
      (''port'', NumberOption (Some DefaultMasterPort))]"

definition controllerOptionsOf :: "variablesMap \<Rightarrow> controllerOptions" where
  "controllerOptionsOf vm =
     \<lparr>controllerHelp = vm ''help'' \<noteq> None, controllerVersion = vm ''version'' \<noteq> None,
      masterHost = notifyText ''host'' vm, masterPort = notifyNumber ''port'' vm\<rparr>"

definition controllerProgram :: "optionsParser \<Rightarrow> string list \<Rightarrow> int + (string \<times> int) result" where
  "controllerProgram parse arguments =
     controllerMain (map_option controllerOptionsOf (parse controllerDescription [(''host'', 1)] arguments))"

text \<open>The port of the controller is always set, because its option has a default.\<close>

lemma controllerProgram_defined:
  assumes "options_documented parse"
  shows "controllerProgram parse arguments \<noteq> Inr (Inl e)"
proof (cases "parse controllerDescription [(''host'', 1)] arguments")
  case (Some vm)
  then have "\<forall>(name, kind) \<in> set controllerDescription. validValue kind (vm name)"
    using assms by (auto simp: options_documented_def)
  then obtain n where "vm ''port'' = Some (NumberValue n)"
    by (auto simp: controllerDescription_def)
  then show ?thesis
    by (simp add: controllerProgram_def controllerMain_def Some controllerOptionsOf_def notifyNumber_def del: One_nat_def)
qed (simp add: controllerProgram_def controllerMain_def del: One_nat_def)

end
