(* ===== verification/Service.thy ===== *)
theory Service
  imports Decimal
begin

text \<open>
  \<open>src/src/service\<close>: the daemon \<open>dhtperfd\<close> that starts and stops the programs on a host, and its client.
  The two ends of a connection are the texts that are sent; a daemon records the shell commands it runs.
  The version of the program and the directory of the logs are set by the build, and are arguments here.
\<close>

section \<open>protocol.h\<close>

definition MSG_PREFIX :: string where "MSG_PREFIX = ''dhtperf''"
definition MSG_PING :: string where "MSG_PING = MSG_PREFIX @ ''ping''"
definition MSG_START :: string where "MSG_START = MSG_PREFIX @ ''start''"
definition MSG_STOP :: string where "MSG_STOP = MSG_PREFIX @ ''stop''"
definition MSG_ACK :: string where "MSG_ACK = MSG_PREFIX @ ''ack''"
definition MSG_UPDATE :: string where "MSG_UPDATE = MSG_PREFIX @ ''update''"
definition MSG_VERSION :: string where "MSG_VERSION = MSG_PREFIX @ ''version''"

lemmas MSG_defs =
  MSG_PREFIX_def MSG_PING_def MSG_START_def MSG_STOP_def MSG_ACK_def MSG_UPDATE_def MSG_VERSION_def

section \<open>dhtperfd.cpp\<close>

text \<open>\<open>controllerNumber\<close> is a static variable of \<open>handle_client\<close>.\<close>

record dhtperfd =
  controllerNumber :: int
  systemCalls :: "string list"

definition newDhtperfd :: dhtperfd where
  "newDhtperfd = \<lparr>controllerNumber = 0, systemCalls = []\<rparr>"

text \<open>\<open>system(cmd)\<close>; its result is only printed.\<close>

definition do_system :: "string \<Rightarrow> dhtperfd \<Rightarrow> dhtperfd" where
  "do_system cmd d = d\<lparr>systemCalls := systemCalls d @ [cmd]\<rparr>"

definition startCommand :: "string \<Rightarrow> int \<Rightarrow> string \<Rightarrow> string" where
  "startCommand logDir n host =
     ''dhtperf-controller '' @ host @ '' > '' @ logDir @ ''controller.'' @ showInt n @ ''.log 2>&1 &''"

text \<open>What the client sent, and the answer.\<close>

definition handle_client :: "string \<Rightarrow> string \<Rightarrow> string \<Rightarrow> dhtperfd \<Rightarrow> string \<times> dhtperfd" where
  "handle_client logDir version input d =
     (let (msg, input) = nextWord input;
          ack = MSG_ACK @ [newline]
      in if msg = MSG_PING then (ack, d)
         else if msg = MSG_START
         then (let (host, input) = nextWord input
               in (ack, (do_system (startCommand logDir (controllerNumber d) host) d)
                          \<lparr>controllerNumber := controllerNumber d + 1\<rparr>))
         else if msg = MSG_STOP
         then (ack, do_system ''pkill java'' (do_system ''pkill dhtperf-controller'' (do_system ''pkill dhtperf-master'' d)))
         else if msg = MSG_UPDATE then (ack, do_system ''sudo yum update -y &'' d)
         else if msg = MSG_VERSION then (version @ [newline] @ ack, d)
         else ([], d))"

text \<open>\<open>do_serve\<close> takes one client after the other; here, the ones given.\<close>

primrec do_serve :: "string \<Rightarrow> string \<Rightarrow> string list \<Rightarrow> dhtperfd \<Rightarrow> string list \<times> dhtperfd" where
  "do_serve logDir version [] d = ([], d)"
| "do_serve logDir version (input # inputs) d =
     (let (answer, d) = handle_client logDir version input d;
          (answers, d) = do_serve logDir version inputs d
      in (answer # answers, d))"

text \<open>
  The main program: whether it becomes a daemon (which can fail) before it serves. It ends only in
  that failure; the answers are those to the clients so far.
\<close>

definition dhtperfdMain ::
    "bool \<Rightarrow> string \<Rightarrow> string \<Rightarrow> string list \<Rightarrow> string list \<Rightarrow> (string list \<times> dhtperfd) result" where
  "dhtperfdMain daemonFails logDir version args inputs =
     (if length args = 1 \<and> args ! 0 = ''-d'' \<and> daemonFails then Inl ExitFailure
      else Inr (do_serve logDir version inputs newDhtperfd))"

section \<open>dhtperfd-client.cpp\<close>

text \<open>The text that the client sends, from the arguments after the name of the program; \<open>None\<close> is the usage message.\<close>

definition clientRequest :: "string list \<Rightarrow> string option" where
  "clientRequest args =
     (if length args < 2 then None
      else if args ! 1 = ''ping'' then Some (MSG_PING @ [newline])
      else if args ! 1 = ''start''
      then (if length args = 3 then Some (MSG_START @ '' '' @ args ! 2 @ [newline]) else None)
      else if args ! 1 = ''stop'' then Some (MSG_STOP @ [newline])
      else if args ! 1 = ''update'' then Some (MSG_UPDATE @ [newline])
      else if args ! 1 = ''version'' then Some (MSG_VERSION @ [newline])
      else None)"

text \<open>The end of \<open>main\<close>: the exit status for the answer of the daemon.\<close>

definition clientStatus :: "string list \<Rightarrow> string \<Rightarrow> int" where
  "clientStatus args answer =
     (let answer = (if args ! 1 = ''version'' then snd (nextWord answer) else answer);
          (reply, answer) = nextWord answer
      in if reply = MSG_ACK then 0 else 1)"

text \<open>A call of the client with a daemon at the other end.\<close>

definition clientMain :: "string \<Rightarrow> string \<Rightarrow> string list \<Rightarrow> dhtperfd \<Rightarrow> int \<times> dhtperfd" where
  "clientMain logDir version args d =
     (case clientRequest args of
        None \<Rightarrow> (1, d)
      | Some request \<Rightarrow>
          let (answer, d) = handle_client logDir version request d
          in (clientStatus args answer, d))"

text \<open>
  The process of the client: \<open>main\<close> needs \<open>elapsed\<close> seconds to get the answer, \<open>None\<close> if it never does, and
  a second thread ends the process when its timer expires. Without a command there is no thread.
\<close>

definition timeout_thread_function :: "int option \<Rightarrow> int option" where
  "timeout_thread_function elapsed =
     (case elapsed of None \<Rightarrow> Some 1 | Some seconds \<Rightarrow> if seconds < 20 then None else Some 1)"

definition clientProcess :: "int option \<Rightarrow> string list \<Rightarrow> string \<Rightarrow> int" where
  "clientProcess elapsed args answer =
     (if length args < 2 then 1
      else case timeout_thread_function elapsed of
             Some status \<Rightarrow> status
           | None \<Rightarrow> if clientRequest args = None then 1 else clientStatus args answer)"

definition printUsage :: "string \<Rightarrow> string" where
  "printUsage progName =
     concat (map (\<lambda>l. l @ [newline])
       [''Usage:'', ''  '' @ progName @ '' host command'', ''Where command can be:'', ''  ping'',
        ''  start master_host'', ''  stop'', ''  update'', ''  version''])"

section \<open>Lemmas\<close>

text \<open>The process succeeds exactly if a request is acknowledged in time; a daemon that hangs cannot block it.\<close>

lemma clientProcess_status:
  "clientProcess elapsed args answer =
     (if (\<exists>seconds < 20. elapsed = Some seconds) \<and> clientRequest args \<noteq> None \<and> clientStatus args answer = 0 then 0 else 1)"
  by (auto simp: clientProcess_def timeout_thread_function_def clientRequest_def clientStatus_def Let_def
      split: option.splits prod.splits if_splits)

definition noSpace :: "string \<Rightarrow> bool" where
  "noSpace w \<longleftrightarrow> w \<noteq> [] \<and> (\<forall>c \<in> set w. \<not> isSpace c)"

lemma nextWord_word:
  assumes "noSpace w" and "isSpace c"
  shows "nextWord (w @ c # rest) = (w, c # rest)"
    and "nextWord (c # rest) = nextWord rest"
proof -
  have "skipSpace (w @ c # rest) = w @ c # rest"
    using assms(1) by (cases w) (auto simp: noSpace_def skipSpace_def)
  then show "nextWord (w @ c # rest) = (w, c # rest)"
    using assms by (auto simp: nextWord_def noSpace_def takeWhile_append dropWhile_append)
  show "nextWord (c # rest) = nextWord rest"
    using assms(2) by (simp add: nextWord_def skipSpace_def)
qed

lemma space_newline: "isSpace newline" "isSpace (CHR '' '')"
  by (simp_all add: isSpace_def)

lemma nextWord_line:
  "noSpace w \<Longrightarrow> nextWord (w @ newline # rest) = (w, newline # rest)"
  "noSpace w \<Longrightarrow> nextWord (w @ CHR '' '' # rest) = (w, CHR '' '' # rest)"
  "nextWord (newline # rest) = nextWord rest"
  "nextWord (CHR '' '' # rest) = nextWord rest"
  using nextWord_word(1) space_newline nextWord_def skipSpace_def
  by (simp_all add: nextWord_def skipSpace_def)

lemma noSpace_MSG:
  "noSpace MSG_PING" "noSpace MSG_START" "noSpace MSG_STOP" "noSpace MSG_ACK" "noSpace MSG_UPDATE" "noSpace MSG_VERSION"
  by (simp_all add: noSpace_def MSG_defs isSpace_def)

lemma MSG_distinct: "distinct [MSG_PING, MSG_START, MSG_STOP, MSG_UPDATE, MSG_VERSION, MSG_ACK]"
  by (simp add: MSG_defs)

text \<open>The effect of a request by its first word.\<close>

lemma handle_client_word:
  "nextWord input = (MSG_PING, r) \<Longrightarrow> handle_client logDir version input d = (MSG_ACK @ [newline], d)"
  "nextWord input = (MSG_START, r) \<Longrightarrow> handle_client logDir version input d =
     (MSG_ACK @ [newline], (do_system (startCommand logDir (controllerNumber d) (fst (nextWord r))) d)
        \<lparr>controllerNumber := controllerNumber d + 1\<rparr>)"
  "nextWord input = (MSG_STOP, r) \<Longrightarrow> handle_client logDir version input d =
     (MSG_ACK @ [newline], d\<lparr>systemCalls := systemCalls d @ [''pkill dhtperf-master'', ''pkill dhtperf-controller'', ''pkill java'']\<rparr>)"
  "nextWord input = (MSG_UPDATE, r) \<Longrightarrow> handle_client logDir version input d =
     (MSG_ACK @ [newline], do_system ''sudo yum update -y &'' d)"
  "nextWord input = (MSG_VERSION, r) \<Longrightarrow> handle_client logDir version input d = (version @ [newline] @ MSG_ACK @ [newline], d)"
  "nextWord input = (w, r) \<Longrightarrow> w \<notin> {MSG_PING, MSG_START, MSG_STOP, MSG_UPDATE, MSG_VERSION} \<Longrightarrow>
     handle_client logDir version input d = ([], d)"
  using MSG_distinct
  by (auto simp: handle_client_def do_system_def Let_def split: prod.splits)

text \<open>The requests with start of a controller, and their hosts.\<close>

definition startHosts :: "string list \<Rightarrow> string list" where
  "startHosts inputs =
     map (\<lambda>input. fst (nextWord (snd (nextWord input)))) (filter (\<lambda>input. fst (nextWord input) = MSG_START) inputs)"

definition isStart :: "string \<Rightarrow> bool" where
  "isStart cmd \<longleftrightarrow> isPrefix ''dhtperf-controller '' cmd"

definition startCommands :: "string \<Rightarrow> int \<Rightarrow> string list \<Rightarrow> string list" where
  "startCommands logDir n hosts = map (\<lambda>k. startCommand logDir (n + int k) (hosts ! k)) [0..<length hosts]"

lemma startCommands_Cons:
  "startCommands logDir n (h # hs) = startCommand logDir n h # startCommands logDir (n + 1) hs"
  unfolding startCommands_def by (simp add: upt_conv_Cons map_Suc_upt [symmetric] o_def algebra_simps del: upt_Suc)

lemma isStart_commands [simp]:
  "isStart (startCommand logDir n host)" "\<not> isStart ''pkill dhtperf-master''" "\<not> isStart ''pkill dhtperf-controller''"
  "\<not> isStart ''pkill java''" "\<not> isStart ''sudo yum update -y &''"
  by (simp_all add: isStart_def startCommand_def isPrefix_def)

lemma handle_client_starts:
  assumes "handle_client logDir version input d = (answer, d')"
  shows "controllerNumber d' = controllerNumber d + int (length (startHosts [input]))
    \<and> filter isStart (systemCalls d') = filter isStart (systemCalls d) @ startCommands logDir (controllerNumber d) (startHosts [input])"
proof -
  obtain w r where w: "nextWord input = (w, r)" by (cases "nextWord input")
  consider "w = MSG_PING" | "w = MSG_START" | "w = MSG_STOP" | "w = MSG_UPDATE" | "w = MSG_VERSION"
    | "w \<notin> {MSG_PING, MSG_START, MSG_STOP, MSG_UPDATE, MSG_VERSION}" by blast
  then show ?thesis
  proof cases
    case 2
    then show ?thesis
      using assms w handle_client_word(2) [of input r logDir version d]
      by (auto simp: startHosts_def startCommands_Cons startCommands_def [of _ _ "[]"] do_system_def)
  next
    case 6
    then show ?thesis
      using assms handle_client_word(6) [OF w, of logDir version d] w by (simp add: startHosts_def startCommands_def)
  qed (use assms w MSG_distinct handle_client_word(1,3,4,5) [of input r logDir version d] in
      \<open>auto simp: startHosts_def startCommands_def do_system_def\<close>)
qed

lemma startHosts_Cons: "startHosts (input # inputs) = startHosts [input] @ startHosts inputs"
  by (simp add: startHosts_def)

lemma startCommands_append:
  "startCommands logDir n (xs @ ys) = startCommands logDir n xs @ startCommands logDir (n + int (length xs)) ys"
  by (induction xs arbitrary: n) (auto simp: startCommands_Cons startCommands_def [of _ _ "[]"] algebra_simps)

lemma do_serve_starts:
  assumes "do_serve logDir version inputs d = (answers, d')"
  shows "controllerNumber d' = controllerNumber d + int (length (startHosts inputs))
    \<and> filter isStart (systemCalls d') = filter isStart (systemCalls d) @ startCommands logDir (controllerNumber d) (startHosts inputs)"
  using assms
proof (induction inputs arbitrary: d answers)
  case Nil
  then show ?case by (simp add: startHosts_def startCommands_def)
next
  case (Cons input inputs)
  obtain a d1 as where 1: "handle_client logDir version input d = (a, d1)" and 2: "do_serve logDir version inputs d1 = (as, d')"
    using Cons.prems by (auto split: prod.splits)
  show ?case
    using handle_client_starts [OF 1] Cons.IH [OF 2]
    by (simp add: startHosts_Cons [of input inputs] startCommands_append)
qed

lemma showInt_inj: "showInt i = showInt j \<longleftrightarrow> i = j"
  by (metis Pair_inject append_Nil2 option.inject scanInt_showInt)

section \<open>Properties\<close>

text \<open>
  C38. Client and daemon understand each other: each command of the client makes the daemon run exactly the
  shell commands for it, the answer is recognised and the client succeeds; anything else on the command
  line of the client fails without a request. The host of a start is put into the shell command as it is.
\<close>

theorem client_daemon_agree:
  assumes "noSpace version" and "noSpace host"
  shows "clientMain logDir version [h, ''ping''] d = (0, d)
    \<and> clientMain logDir version [h, ''version''] d = (0, d)
    \<and> clientMain logDir version [h, ''start'', host] d =
        (0, d\<lparr>systemCalls := systemCalls d @ [''dhtperf-controller '' @ host @ '' > '' @ logDir @ ''controller.''
               @ showInt (controllerNumber d) @ ''.log 2>&1 &''],
              controllerNumber := controllerNumber d + 1\<rparr>)
    \<and> clientMain logDir version [h, ''stop''] d =
        (0, d\<lparr>systemCalls := systemCalls d @ [''pkill dhtperf-master'', ''pkill dhtperf-controller'', ''pkill java'']\<rparr>)
    \<and> clientMain logDir version [h, ''update''] d = (0, d\<lparr>systemCalls := systemCalls d @ [''sudo yum update -y &'']\<rparr>)
    \<and> (cmd \<notin> {''ping'', ''start'', ''stop'', ''update'', ''version''} \<longrightarrow> clientMain logDir version (h # cmd # others) d = (1, d))"
proof -
  note words = nextWord_line noSpace_MSG assms
  have ack: "nextWord (MSG_ACK @ [newline]) = (MSG_ACK, [newline])"
    by (simp add: words)
  show ?thesis
    using handle_client_word(1) [of "MSG_PING @ [newline]" "[newline]" logDir version d]
      handle_client_word(2) [of "MSG_START @ '' '' @ host @ [newline]" "'' '' @ host @ [newline]" logDir version d]
      handle_client_word(3) [of "MSG_STOP @ [newline]" "[newline]" logDir version d]
      handle_client_word(4) [of "MSG_UPDATE @ [newline]" "[newline]" logDir version d]
      handle_client_word(5) [of "MSG_VERSION @ [newline]" "[newline]" logDir version d]
    by (simp add: words ack clientMain_def clientRequest_def clientStatus_def do_system_def startCommand_def Let_def)
qed

theorem client_daemon_agree_witness:
  "clientMain ''/tmp/'' ''1.0'' [''node1'', ''start'', ''10.0.0.1''] newDhtperfd =
     (0, \<lparr>controllerNumber = 1, systemCalls = [''dhtperf-controller 10.0.0.1 > /tmp/controller.0.log 2>&1 &'']\<rparr>)"
proof -
  have "noSpace ''1.0''" and "noSpace ''10.0.0.1''"
    by (simp_all add: noSpace_def isSpace_def)
  moreover have "showInt 0 = ''0''"
    by code_simp
  ultimately show ?thesis
    using client_daemon_agree [of "''1.0''" "''10.0.0.1''" "''/tmp/''" "''node1''" newDhtperfd]
    by (simp add: newDhtperfd_def)
qed

text \<open>
  The controllers that a daemon starts over its whole life are the requested ones in order, numbered
  from 0, so that no two of them write to the same log file.
\<close>

theorem started_controllers_numbered:
  "filter isStart (systemCalls (snd (do_serve logDir version inputs newDhtperfd))) =
     map (\<lambda>k. ''dhtperf-controller '' @ (startHosts inputs ! k) @ '' > '' @ logDir @ ''controller.'' @ showInt (int k) @ ''.log 2>&1 &'')
       [0..<length (startHosts inputs)]
   \<and> distinct (map (\<lambda>k. logDir @ ''controller.'' @ showInt (int k) @ ''.log'') [0..<length (startHosts inputs)])"
proof
  obtain answers d where d: "do_serve logDir version inputs newDhtperfd = (answers, d)"
    by (cases "do_serve logDir version inputs newDhtperfd")
  show "filter isStart (systemCalls (snd (do_serve logDir version inputs newDhtperfd))) =
     map (\<lambda>k. ''dhtperf-controller '' @ (startHosts inputs ! k) @ '' > '' @ logDir @ ''controller.'' @ showInt (int k) @ ''.log 2>&1 &'')
       [0..<length (startHosts inputs)]"
    using do_serve_starts [OF d] unfolding d snd_conv
    by (simp add: newDhtperfd_def startCommands_def startCommand_def)
  show "distinct (map (\<lambda>k. logDir @ ''controller.'' @ showInt (int k) @ ''.log'') [0..<length (startHosts inputs)])"
    by (simp add: distinct_map inj_on_def showInt_inj)
qed

end
