(* ===== verification/MasterRun.thy ===== *)
theory MasterRun
  imports MasterInvariant
begin

text \<open>
  Complete runs of the master's event loop: all controllers are accepted, then their reports arrive,
  the reads of different controllers and the completions of the writes in any order.
\<close>

section \<open>Accepting the controllers\<close>

lemma eventLoop_step:
  "\<not> stopped M \<Longrightarrow> deliverable e M \<Longrightarrow> handleEvent B en e M = Inr M' \<Longrightarrow>
     eventLoop B en (e # es) M = eventLoop B en es M'"
  by simp

lemma masterReaches_step:
  "\<not> stopped M \<Longrightarrow> deliverable e M \<Longrightarrow> handleEvent B en e M = Inr M1 \<Longrightarrow> masterReaches B en M1 M' \<Longrightarrow> masterReaches B en M M'"
  unfolding masterReaches_def by (blast intro: masterStep.deliver converse_rtranclp_into_rtranclp)

text \<open>A complete run of the loop is a run of its steps.\<close>

lemma eventLoop_reaches: "eventLoop B en es M = Some (Inr M') \<Longrightarrow> masterReaches B en M M'"
proof (induction es arbitrary: M)
  case Nil
  then show ?case by (simp add: masterReaches_def split: if_splits)
next
  case (Cons e es)
  then obtain M1 where "\<not> stopped M" "deliverable e M" "handleEvent B en e M = Inr M1" "eventLoop B en es M1 = Some (Inr M')"
    by (auto split: if_splits sum.splits)
  then show ?case using masterReaches_step Cons.IH by blast
qed

definition acceptAll :: "string list \<Rightarrow> masterEvent list" where
  "acceptAll hosts = map (\<lambda>h. AcceptDone (Some h)) hosts"

text \<open>What the workload and the host names must be for the messages to be sent.\<close>

definition sendableSetup :: "endian \<Rightarrow> DhtperfMaster \<Rightarrow> string list \<Rightarrow> bool" where
  "sendableSetup en M hosts \<longleftrightarrow>
     (\<forall>h \<in> set hosts. length h < 4294967288) \<and> length (masterDhtType M) < 4294967296
     \<and> (\<forall>k < unat (nodes (masterWorkload M)). \<exists>j l p g. getNodeProfile (of_nat k) (masterWorkload M) = Inr (j, l, p, g)
          \<and> length (bodyBytes en (Profile j l p g)) < 4294967296)"

lemma started_hosts: "list_all2 started cs0 cs \<Longrightarrow> map peerHost cs = map peerHost cs0"
  by (induction rule: list_all2_induct) (simp_all add: started_def)

lemma started_waiting:
  "list_all2 started cs0 cs \<Longrightarrow> list_all (\<lambda>c. peerConnected c \<and> pendingWrites c = 2) cs0 \<Longrightarrow>
     list_all (\<lambda>c. peerConnected c \<and> reading c = HeaderRead \<and> pendingWrites c = 3) cs"
  by (induction rule: list_all2_induct) (simp_all add: started_def)

text \<open>The last connection: all controllers are started.\<close>

lemma accept_last:
  assumes "handleAccept en (Some h) M = sendStartMessages en (M\<lparr>accepting := False, controllers := controllers M @ [c]\<rparr>)"
    and "accepting M" and "\<not> stopped M"
    and "\<forall>c \<in> set (controllers (M\<lparr>accepting := False, controllers := controllers M @ [c]\<rparr>)).
      peerConnected c \<and> length (peerHost c) < 4294967288 \<and> pendingWrites c = 2"
  shows "\<exists>cs. eventLoop B en (AcceptDone (Some h) # es) M =
      eventLoop B en es (M\<lparr>accepting := False, controllers := cs, startMessagesSent := True\<rparr>)
    \<and> masterReaches B en M (M\<lparr>accepting := False, controllers := cs, startMessagesSent := True\<rparr>)
    \<and> map peerHost cs = hostsOf M @ [peerHost c]
    \<and> (\<forall>c \<in> set cs. peerConnected c \<and> reading c = HeaderRead \<and> pendingWrites c = 3)"
proof -
  let ?M2 = "M\<lparr>accepting := False, controllers := controllers M @ [c]\<rparr>"
  obtain cs where cs: "sendStartMessages en ?M2 = Inr (?M2\<lparr>controllers := cs, startMessagesSent := True\<rparr>)"
    and rel: "list_all2 started (controllers M @ [c]) cs"
    using sendStartMessages_ok [of ?M2 en] assms(4) by auto
  have event: "handleEvent B en (AcceptDone (Some h)) M = Inr (M\<lparr>accepting := False, controllers := cs, startMessagesSent := True\<rparr>)"
    using assms(1) cs by simp
  have "masterReaches B en M (M\<lparr>accepting := False, controllers := cs, startMessagesSent := True\<rparr>)"
    by (rule masterReaches_step [OF assms(3) _ event]) (simp_all add: assms(2) masterReaches_def)
  moreover have "eventLoop B en (AcceptDone (Some h) # es) M =
      eventLoop B en es (M\<lparr>accepting := False, controllers := cs, startMessagesSent := True\<rparr>)"
    using event assms(2,3) by simp
  moreover have "map peerHost cs = hostsOf M @ [peerHost c]"
    using started_hosts [OF rel] by (simp add: hostsOf_def)
  moreover have "\<forall>c \<in> set cs. peerConnected c \<and> reading c = HeaderRead \<and> pendingWrites c = 3"
    using started_waiting [OF rel] assms(4) by (simp add: list_all_iff)
  ultimately show ?thesis by blast
qed

lemma accept_phase:
  assumes "sendableSetup en M hosts" and "hosts \<noteq> []"
    and "length (controllers M) + length hosts = unat (nodes (masterWorkload M))"
    and "accepting M" and "\<not> stopped M"
    and "\<forall>c \<in> set (controllers M). peerConnected c \<and> length (peerHost c) < 4294967288 \<and> pendingWrites c = 2"
  shows "\<exists>cs. eventLoop B en (acceptAll hosts @ es) M =
      eventLoop B en es (M\<lparr>accepting := False, controllers := cs, startMessagesSent := True\<rparr>)
    \<and> masterReaches B en M (M\<lparr>accepting := False, controllers := cs, startMessagesSent := True\<rparr>)
    \<and> map peerHost cs = hostsOf M @ hosts
    \<and> (\<forall>c \<in> set cs. peerConnected c \<and> reading c = HeaderRead \<and> pendingWrites c = 3)"
  using assms
proof (induction hosts arbitrary: M)
  case (Cons h hosts)
  let ?k = "length (controllers M)" and ?W = "masterWorkload M"
  have k: "?k < unat (nodes ?W)" using Cons.prems(3) by simp
  then obtain j l p g where prof: "getNodeProfile (of_nat ?k) ?W = Inr (j, l, p, g)"
    and small: "length (bodyBytes en (Profile j l p g)) < 4294967296"
    using Cons.prems(1) unfolding sendableSetup_def by blast
  obtain c where accept: "handleAccept en (Some h) M =
      (let M2 = M\<lparr>accepting := False, controllers := controllers M @ [c]\<rparr>
       in if Suc ?k < unat (nodes ?W) then Inr (asyncAccept M2) else sendStartMessages en M2)"
    and c: "peerHost c = h" "peerConnected c" "pendingWrites c = 2"
    by (rule greet_ok [OF prof _ small, of h]) (use Cons.prems(1) in \<open>simp add: sendableSetup_def\<close>)
  let ?M2 = "M\<lparr>accepting := False, controllers := controllers M @ [c]\<rparr>"
  have ok: "\<forall>c \<in> set (controllers ?M2). peerConnected c \<and> length (peerHost c) < 4294967288 \<and> pendingWrites c = 2"
    using Cons.prems(1,6) c by (simp add: sendableSetup_def)
  show ?case
  proof (cases hosts)
    case Nil
    then have "handleAccept en (Some h) M = sendStartMessages en ?M2"
      using accept Cons.prems(3) by simp
    from accept_last [OF this Cons.prems(4,5) ok, of B es] show ?thesis
      by (simp only: Nil acceptAll_def list.map append_Cons append_Nil c)
  next
    case (Cons h' hosts')
    let ?M3 = "asyncAccept ?M2"
    have event: "handleEvent B en (AcceptDone (Some h)) M = Inr ?M3"
      using accept Cons.prems(3) Cons by simp
    have reach: "masterReaches B en ?M3 M' \<Longrightarrow> masterReaches B en M M'" for M'
      by (rule masterReaches_step [OF Cons.prems(5) _ event]) (simp add: Cons.prems(4))
    have step: "eventLoop B en (acceptAll (h # hosts) @ es) M = eventLoop B en (acceptAll hosts @ es) ?M3"
      using event Cons.prems(4,5) by (simp add: acceptAll_def)
    have "sendableSetup en ?M3 hosts" and "hosts \<noteq> []" and "accepting ?M3" and "\<not> stopped ?M3"
      and "length (controllers ?M3) + length hosts = unat (nodes (masterWorkload ?M3))"
      and "\<forall>c \<in> set (controllers ?M3). peerConnected c \<and> length (peerHost c) < 4294967288 \<and> pendingWrites c = 2"
      using Cons.prems ok Cons by (simp_all add: sendableSetup_def asyncAccept_def)
    from Cons.IH [OF this(1,2,5,3,4,6)] obtain cs where
        "eventLoop B en (acceptAll hosts @ es) ?M3 = eventLoop B en es (M\<lparr>accepting := False, controllers := cs, startMessagesSent := True\<rparr>)"
        "masterReaches B en ?M3 (M\<lparr>accepting := False, controllers := cs, startMessagesSent := True\<rparr>)"
        "map peerHost cs = hostsOf M @ h # hosts"
        "\<forall>c \<in> set cs. peerConnected c \<and> reading c = HeaderRead \<and> pendingWrites c = 3"
      by (auto simp: asyncAccept_def hostsOf_def c)
    then show ?thesis
      unfolding step using reach by blast
  qed
qed simp

section \<open>Interleaved reads\<close>

text \<open>The events of one controller, as messages are delivered: its reports, then \<open>Finish\<close>.\<close>

definition deliveryOfAll :: "endian \<Rightarrow> nat \<Rightarrow> (string \<times> string) list \<Rightarrow> masterEvent list" where
  "deliveryOfAll en i rs =
     concat (map (\<lambda>(type, reported). deliveryOf en i (Report type reported)) rs) @ deliveryOf en i Finish"

lemma deliveryOfAll_simps:
  "deliveryOfAll en i [] = [HeaderDone i (Some (headerBytes en (messageHeader en Finish)))]"
  "deliveryOfAll en i ((t, r) # rs) =
     HeaderDone i (Some (headerBytes en (messageHeader en (Report t r))))
       # BodyDone i (Some (bodyBytes en (Report t r))) # deliveryOfAll en i rs"
  by (simp_all add: deliveryOfAll_def deliveryOf_def)

fun readOf :: "nat \<Rightarrow> masterEvent \<Rightarrow> bool" where
  "readOf i (HeaderDone j header) \<longleftrightarrow> j = i"
| "readOf i (BodyDone j body) \<longleftrightarrow> j = i"
| "readOf i e \<longleftrightarrow> False"

fun writeOf :: "nat \<Rightarrow> masterEvent \<Rightarrow> bool" where
  "writeOf i (WriteDone j error) \<longleftrightarrow> j = i \<and> \<not> error"
| "writeOf i e \<longleftrightarrow> False"

lemma readOf_delivery [simp]: "filter (readOf i) (deliveryOfAll en j rs) = (if i = j then deliveryOfAll en j rs else [])"
  by (induction rs) (auto simp: deliveryOfAll_simps)

lemma delivery_events: "\<forall>e \<in> set (deliveryOfAll en i rs). (readOf j e \<longleftrightarrow> i = j) \<and> \<not> writeOf j e"
proof (induction rs)
  case (Cons r rs)
  then show ?case by (cases r) (simp add: deliveryOfAll_simps)
qed (simp add: deliveryOfAll_simps)

text \<open>
  What a controller still sends, given what its connection has read: \<open>rs\<close> are the reports that are not
  processed yet, the list of events what completes its reads.
\<close>

inductive expects :: "endian \<Rightarrow> nat \<Rightarrow> ControllerConnection \<Rightarrow> (string \<times> string) list \<Rightarrow> masterEvent list \<Rightarrow> bool"
  for en i c where
  over: "reading c = NoRead \<Longrightarrow> expects en i c [] []"
| header: "reading c = HeaderRead \<Longrightarrow> \<forall>(t, r) \<in> set rs. sendable en (Report t r) \<Longrightarrow>
    expects en i c rs (deliveryOfAll en i rs)"
| body: "reading c = BodyRead \<Longrightarrow> headerBuffer c = messageHeader en (Report t r) \<Longrightarrow>
    \<forall>(t, r) \<in> set ((t, r) # rs). sendable en (Report t r) \<Longrightarrow>
    expects en i c ((t, r) # rs) (BodyDone i (Some (bodyBytes en (Report t r))) # deliveryOfAll en i rs)"

inductive_cases expects_NilE: "expects en i c rs []"
inductive_cases expects_ConsE: "expects en i c rs (e # es)"

lemma delivery_nonempty [simp]: "deliveryOfAll en i rs \<noteq> []" "[] \<noteq> deliveryOfAll en i rs"
  by (cases rs; auto simp: deliveryOfAll_simps)+

lemma expects_reading: "expects en i c rs es \<Longrightarrow> reading c = NoRead \<longleftrightarrow> es = []"
  by (auto elim: expects.cases)

text \<open>A write that completes changes nothing that matters here.\<close>

lemma expects_write: "expects en i c rs es \<Longrightarrow> expects en i (c\<lparr>pendingWrites := k\<rparr>) rs es"
proof (induction rule: expects.cases)
  case (body t r rs)
  show ?case
    unfolding body(1,2) by (rule expects.body) (use body(3-5) in simp_all)
qed (simp_all add: expects.over expects.header)

definition pushReports :: "'b boost_scheme \<Rightarrow> (string \<times> string) list \<Rightarrow> ResultProcessor \<Rightarrow> ResultProcessor result" where
  "pushReports B rs R = foldResult (\<lambda>R (type, reported). pushResult B type reported R) R rs"

lemma pushReports_simps:
  "pushReports B [] R = Inr R"
  "pushReports B ((t, r) # rs) R = andThen (pushResult B t r R) (pushReports B rs)"
  by (simp_all add: pushReports_def [abs_def])

lemma pushReports_append:
  "pushReports B (rs @ rs') R = andThen (pushReports B rs R) (pushReports B rs')"
  by (simp add: pushReports_def [abs_def] foldResult_append)

text \<open>
  The state of the loop while the events \<open>es\<close> are to come: connection \<open>i\<close> waits for what \<open>es\<close> holds for it.
\<close>

definition runState :: "endian \<Rightarrow> masterEvent list \<Rightarrow> (string \<times> string) list list \<Rightarrow> DhtperfMaster \<Rightarrow> bool" where
  "runState en es rss M \<longleftrightarrow>
     length rss = length (controllers M)
     \<and> (\<forall>i < length rss. peerConnected (controllers M ! i)
          \<and> expects en i (controllers M ! i) (rss ! i) (filter (readOf i) es)
          \<and> length (filter (writeOf i) es) \<le> pendingWrites (controllers M ! i))
     \<and> (\<forall>e \<in> set es. \<exists>i < length rss. readOf i e \<or> writeOf i e)
     \<and> (es \<noteq> [] \<longrightarrow> (\<exists>i < length rss. readOf i (last es)))
     \<and> unat (finishedControllers M) = idle (controllers M)
     \<and> length (controllers M) = unat (nodes (masterWorkload M))
     \<and> (stopped M \<longleftrightarrow> finishedControllers M = nodes (masterWorkload M))"

lemma runStateD:
  assumes "runState en es rss M"
  shows "length rss = length (controllers M)"
    and "i < length rss \<Longrightarrow> peerConnected (controllers M ! i)"
    and "i < length rss \<Longrightarrow> expects en i (controllers M ! i) (rss ! i) (filter (readOf i) es)"
    and "i < length rss \<Longrightarrow> length (filter (writeOf i) es) \<le> pendingWrites (controllers M ! i)"
    and "e \<in> set es \<Longrightarrow> \<exists>i < length rss. readOf i e \<or> writeOf i e"
    and "es \<noteq> [] \<Longrightarrow> \<exists>i < length rss. readOf i (last es)"
    and "unat (finishedControllers M) = idle (controllers M)"
    and "length (controllers M) = unat (nodes (masterWorkload M))"
    and "stopped M \<longleftrightarrow> finishedControllers M = nodes (masterWorkload M)"
  using assms unfolding runState_def by blast+

lemma idle_less:
  assumes "i < length cs" and "reading (cs ! i) \<noteq> NoRead"
  shows "idle cs < length cs"
  using assms idle_le [of cs] idle_all [of cs i] by (meson le_neq_implies_less)

lemma runState_running:
  assumes "runState en (e # es) rss M"
  shows "\<not> stopped M"
proof -
  note s = runStateD [OF assms]
  obtain i where i: "i < length rss" "readOf i (last (e # es))"
    using s(6) by blast
  have "last (e # es) \<in> set (e # es)" by (rule last_in_set) simp
  then have "filter (readOf i) (e # es) \<noteq> []"
    using i(2) by (auto simp: filter_empty_conv)
  then have "reading (controllers M ! i) \<noteq> NoRead"
    using expects_reading [OF s(3) [OF i(1)]] by blast
  then have "idle (controllers M) < length (controllers M)"
    using idle_less [of i "controllers M"] i(1) s(1) by simp
  then show ?thesis
    using s(7-9) by auto
qed

text \<open>One event of controller \<open>i\<close> changes its connection only.\<close>

lemma runState_update:
  assumes "runState en (e # es) rss M" and i: "i < length rss" and e: "readOf i e \<or> writeOf i e"
    and c: "peerConnected c" "expects en i c rs (filter (readOf i) es)" "length (filter (writeOf i) es) \<le> pendingWrites c"
    and M': "controllers M' = (controllers M)[i := c]" "masterWorkload M' = masterWorkload M"
    and count: "unat (finishedControllers M') = idle (controllers M')"
      "stopped M' \<longleftrightarrow> finishedControllers M' = nodes (masterWorkload M')"
  shows "runState en es (rss[i := rs]) M'"
proof -
  have other: "\<not> readOf j e \<and> \<not> writeOf j e" if "j \<noteq> i" for j
    using e that by (cases e) auto
  note s = runStateD [OF assms(1)]
  have "peerConnected (controllers M' ! j) \<and> expects en j (controllers M' ! j) (rss[i := rs] ! j) (filter (readOf j) es)
      \<and> length (filter (writeOf j) es) \<le> pendingWrites (controllers M' ! j)" if "j < length rss" for j
  proof (cases "j = i")
    case True
    then show ?thesis using c i s(1) by (simp add: M')
  next
    case False
    then show ?thesis
      using s(2-4) [OF that] other [OF False] s(1) by (simp add: M')
  qed
  moreover have "es \<noteq> [] \<longrightarrow> (\<exists>i < length rss. readOf i (last es))"
    using s(6) by auto
  moreover have "\<forall>e \<in> set es. \<exists>i < length rss. readOf i e \<or> writeOf i e"
    using s(5) by simp
  ultimately show ?thesis
    unfolding runState_def using count s(1,8) by (simp add: M')
qed

lemma mset_concat_update:
  "i < length xss \<Longrightarrow> mset (concat (xss[i := ys])) + mset (xss ! i) = mset (concat xss) + mset ys"
proof (induction xss arbitrary: i)
  case (Cons xs xss)
  show ?case
  proof (cases i)
    case (Suc j)
    then have "mset (concat (xss[j := ys])) + mset (xss ! j) = mset (concat xss) + mset ys"
      using Cons by simp
    then show ?thesis using Suc by (simp add: add.assoc)
  qed simp
qed simp

lemma write_step:
  assumes "runState en (WriteDone i False # es) rss M" and i: "i < length rss"
  defines "c \<equiv> (controllers M ! i)\<lparr>pendingWrites := pendingWrites (controllers M ! i) - 1\<rparr>"
  shows "deliverable (WriteDone i False) M"
    and "handleEvent B en (WriteDone i False) M = Inr (M\<lparr>controllers := (controllers M)[i := c]\<rparr>)"
    and "runState en es rss (M\<lparr>controllers := (controllers M)[i := c]\<rparr>)"
proof -
  note s = runStateD [OF assms(1)]
  have i': "i < length (controllers M)" using i s(1) by simp
  have pending: "Suc (length (filter (writeOf i) es)) \<le> pendingWrites (controllers M ! i)"
    using s(4) [OF i] by simp
  then show "deliverable (WriteDone i False) M"
    using i' by simp
  show "handleEvent B en (WriteDone i False) M = Inr (M\<lparr>controllers := (controllers M)[i := c]\<rparr>)"
    using i' by (simp add: onController_def vectorAt_in handleWrite_def Let_def c_def)
  have "idle ((controllers M)[i := c]) = idle (controllers M)"
    using idle_update [OF i', of c] by (simp add: c_def split: if_splits)
  then have "runState en es (rss[i := rss ! i]) (M\<lparr>controllers := (controllers M)[i := c]\<rparr>)"
    using s(2,3) [OF i] pending s(7,9)
    by (intro runState_update [OF assms(1) i]) (simp_all add: c_def expects_write)
  then show "runState en es rss (M\<lparr>controllers := (controllers M)[i := c]\<rparr>)"
    by simp
qed

lemma header_step:
  assumes "runState en (e # es) rss M" and i: "i < length rss"
    and e: "e = HeaderDone i (Some (headerBytes en (messageHeader en (Report t r))))"
    and "rss ! i = (t, r) # rs" and wait: "reading (controllers M ! i) = HeaderRead"
    and ok: "\<forall>(t, r) \<in> set ((t, r) # rs). sendable en (Report t r)"
    and rest: "filter (readOf i) es = BodyDone i (Some (bodyBytes en (Report t r))) # deliveryOfAll en i rs"
  shows "\<exists>M'. handleEvent B en e M = Inr M' \<and> runState en es rss M' \<and> resultProcessor M' = resultProcessor M
    \<and> failedControllers M' = failedControllers M \<and> masterWorkload M' = masterWorkload M"
proof -
  note s = runStateD [OF assms(1)]
  let ?m = "Report t r"
  define c where "c = (controllers M ! i)\<lparr>headerBuffer := messageHeader en ?m,
      bodyBuffer := resizeBody (length (bodyBytes en ?m)) (bodyBuffer (controllers M ! i)), reading := BodyRead\<rparr>"
  have i': "i < length (controllers M)" using i s(1) by simp
  have event: "handleEvent B en e M = Inr (M\<lparr>controllers := (controllers M)[i := c]\<rparr>)"
    unfolding e c_def by (rule header_event [OF i' s(2) [OF i]]) (use ok in simp_all)
  have "idle ((controllers M)[i := c]) = idle (controllers M)"
    using idle_update [OF i', of c] wait by (simp add: c_def)
  moreover have "expects en i c (rss ! i) (filter (readOf i) es)"
    unfolding rest assms(4) by (rule expects.body) (use ok in \<open>simp_all add: c_def\<close>)
  ultimately have "runState en es (rss[i := rss ! i]) (M\<lparr>controllers := (controllers M)[i := c]\<rparr>)"
    using s(2,4) [OF i] s(7,9) e by (intro runState_update [OF assms(1) i]) (simp_all add: c_def)
  then show ?thesis
    unfolding event by simp
qed

lemma body_step:
  assumes "runState en (e # es) rss M" and i: "i < length rss"
    and e: "e = BodyDone i (Some (bodyBytes en (Report t r)))"
    and "rss ! i = (t, r) # rs" and wait: "reading (controllers M ! i) = BodyRead"
    and h: "headerBuffer (controllers M ! i) = messageHeader en (Report t r)"
    and ok: "\<forall>(t, r) \<in> set ((t, r) # rs). sendable en (Report t r)"
    and rest: "filter (readOf i) es = deliveryOfAll en i rs"
    and push: "pushResult B t r (resultProcessor M) = Inr R"
  shows "\<exists>M'. handleEvent B en e M = Inr M' \<and> runState en es (rss[i := rs]) M' \<and> resultProcessor M' = R
    \<and> failedControllers M' = failedControllers M \<and> masterWorkload M' = masterWorkload M"
proof -
  note s = runStateD [OF assms(1)]
  let ?m = "Report t r"
  define c where "c = (controllers M ! i)\<lparr>bodyBuffer := bodyBytes en ?m, reading := HeaderRead\<rparr>"
  have i': "i < length (controllers M)" using i s(1) by simp
  have "handleEvent B en e M = handleMessage B i ?m
      (M\<lparr>controllers := (controllers M)[i := (controllers M ! i)\<lparr>bodyBuffer := bodyBytes en ?m, reading := NoRead\<rparr>]\<rparr>)"
    unfolding e by (rule body_event [OF i' h]) (use ok in simp)
  then have event: "handleEvent B en e M = Inr (M\<lparr>controllers := (controllers M)[i := c], resultProcessor := R\<rparr>)"
    using handleMessage_report [of i "M\<lparr>controllers := (controllers M)[i := (controllers M ! i)
        \<lparr>bodyBuffer := bodyBytes en ?m, reading := NoRead\<rparr>]\<rparr>" B t r] push i'
    by (simp add: c_def)
  have "idle ((controllers M)[i := c]) = idle (controllers M)"
    using idle_update [OF i', of c] wait by (simp add: c_def)
  moreover have "expects en i c rs (filter (readOf i) es)"
    unfolding rest by (rule expects.header) (use ok in \<open>simp_all add: c_def\<close>)
  ultimately have "runState en es (rss[i := rs]) (M\<lparr>controllers := (controllers M)[i := c], resultProcessor := R\<rparr>)"
    using s(2,4) [OF i] s(7,9) e by (intro runState_update [OF assms(1) i]) (simp_all add: c_def)
  then show ?thesis
    unfolding event by simp
qed

lemma finish_step:
  assumes "runState en (e # es) rss M" and i: "i < length rss"
    and e: "e = HeaderDone i (Some (headerBytes en (messageHeader en Finish)))"
    and "rss ! i = []" and wait: "reading (controllers M ! i) = HeaderRead" and rest: "filter (readOf i) es = []"
  shows "\<exists>M'. handleEvent B en e M = Inr M' \<and> runState en es rss M' \<and> resultProcessor M' = resultProcessor M
    \<and> failedControllers M' = failedControllers M \<and> masterWorkload M' = masterWorkload M"
proof -
  note s = runStateD [OF assms(1)]
  define c where "c = (controllers M ! i)\<lparr>reading := NoRead, headerBuffer := messageHeader en Finish\<rparr>"
  define M' where "M' = controllerFinished (M\<lparr>controllers := (controllers M)[i := c]\<rparr>)"
  have i': "i < length (controllers M)" using i s(1) by simp
  have event: "handleEvent B en e M = Inr M'"
    using deliver_finish [OF i' s(2) [OF i], of B en]
    by (cases "handleEvent B en e M") (simp_all add: M'_def c_def e deliveryOf_def handleEvents_simps)
  have idle: "idle ((controllers M)[i := c]) = Suc (idle (controllers M))"
    using idle_update [OF i', of c] wait by (simp add: c_def)
  have "idle ((controllers M)[i := c]) \<le> unat (nodes (masterWorkload M))"
    using idle_le [of "(controllers M)[i := c]"] s(8) by simp
  then have "unat (finishedControllers M + 1) = idle ((controllers M)[i := c])"
    using idle s(7) unat_u32_bound [of "nodes (masterWorkload M)"] by (simp add: unat_word_ariths)
  moreover have "M' = M\<lparr>controllers := (controllers M)[i := c], finishedControllers := finishedControllers M + 1,
      stopped := finishedControllers M + 1 = nodes (masterWorkload M)\<rparr>"
    using runState_running [OF assms(1)] by (simp add: M'_def controllerFinished_def Let_def)
  moreover have "expects en i c (rss ! i) (filter (readOf i) es)"
    unfolding rest assms(4) by (rule expects.over) (simp add: c_def)
  ultimately have "runState en es (rss[i := rss ! i]) M'"
    using s(2,4) [OF i] e by (intro runState_update [OF assms(1) i]) (simp_all add: c_def)
  then show ?thesis
    unfolding event by (simp add: M'_def controllerFinished_def Let_def)
qed

text \<open>What the next read of a connection can bring.\<close>

lemma due_read:
  assumes "expects en i c rss (e # es)"
  obtains
    (finish) "e = HeaderDone i (Some (headerBytes en (messageHeader en Finish)))" "rss = []"
      "reading c = HeaderRead" "es = []"
  | (header) t r rs where "e = HeaderDone i (Some (headerBytes en (messageHeader en (Report t r))))" "rss = (t, r) # rs"
      "reading c = HeaderRead" "\<forall>(t, r) \<in> set ((t, r) # rs). sendable en (Report t r)"
      "es = BodyDone i (Some (bodyBytes en (Report t r))) # deliveryOfAll en i rs"
  | (body) t r rs where "e = BodyDone i (Some (bodyBytes en (Report t r)))" "rss = (t, r) # rs"
      "reading c = BodyRead" "headerBuffer c = messageHeader en (Report t r)"
      "\<forall>(t, r) \<in> set ((t, r) # rs). sendable en (Report t r)" "es = deliveryOfAll en i rs"
proof (rule expects_ConsE [OF assms], goal_cases)
  case 1
  show thesis
  proof (cases rss)
    case Nil
    show thesis by (rule finish) (use 1 Nil in \<open>simp_all add: deliveryOfAll_simps\<close>)
  next
    case (Cons x rs)
    show thesis
      by (rule header [of "fst x" "snd x" rs]) (use 1 Cons in \<open>cases x; simp add: deliveryOfAll_simps\<close>)+
  qed
next
  case (2 t r rs)
  then show thesis by (intro body [of t r rs]) simp_all
qed

text \<open>Any event that is due: at most one report is processed, and the rest of the run is still to come.\<close>

lemma run_step:
  assumes run: "runState en (e # es) rss M"
    and push: "\<forall>(t, r) \<in> set (concat rss). \<forall>R. \<exists>R'. pushResult B t r R = Inr R'"
  obtains M' rss' pushed where "deliverable e M" and "handleEvent B en e M = Inr M'" and "runState en es rss' M'"
    and "mset (concat rss) = mset pushed + mset (concat rss')"
    and "pushReports B pushed (resultProcessor M) = Inr (resultProcessor M')"
    and "failedControllers M' = failedControllers M" and "masterWorkload M' = masterWorkload M"
proof -
  note s = runStateD [OF run]
  obtain i where i: "i < length rss" and of_i: "readOf i e \<or> writeOf i e"
    using s(5) [of e] by auto
  have i': "i < length (controllers M)" using i s(1) by simp
  show thesis
  proof (cases "writeOf i e")
    case True
    then have e: "e = WriteDone i False" by (cases e) auto
    show thesis
      using that [of _ rss "[]"] write_step [OF run [unfolded e] i] by (simp add: e pushReports_simps)
  next
    case False
    then have due: "expects en i (controllers M ! i) (rss ! i) (e # filter (readOf i) es)"
      using s(3) [OF i] of_i by simp
    then show thesis
    proof (cases rule: due_read)
      case finish
      then show thesis
        using that [of _ rss "[]"] finish_step [OF run i finish(1,2,3,4), of B] i' by (auto simp: pushReports_simps)
    next
      case header
      then show thesis
        using that [of _ rss "[]"] header_step [OF run i header(1,2,3,4,5), of B] i' by (auto simp: pushReports_simps)
    next
      case (body t r rs)
      have "(t, r) \<in> set (concat rss)" using body(2) nth_mem [OF i] by (auto intro: bexI [of _ "(t, r) # rs"])
      then obtain R where R: "pushResult B t r (resultProcessor M) = Inr R" using push by fast
      have "mset (concat rss) = mset [(t, r)] + mset (concat (rss[i := rs]))"
        using mset_concat_update [OF i, of rs] body(2) by (simp add: union_commute)
      then show thesis
        using that [of _ "rss[i := rs]" "[(t, r)]"] body_step [OF run i body R] body(1,3) i' R
        by (auto simp: pushReports_simps)
    qed
  qed
qed

text \<open>
  The whole of what the controllers send, in any order that keeps the order of each: the loop takes every
  event, stops with all controllers finished and none failed, and has processed every report.
\<close>

lemma read_phase:
  assumes "runState en es rss M"
    and "\<forall>(t, r) \<in> set (concat rss). \<forall>R. \<exists>R'. pushResult B t r R = Inr R'"
  shows "\<exists>M' order. eventLoop B en es M = Some (Inr M') \<and> stopped M'
    \<and> finishedControllers M' = nodes (masterWorkload M) \<and> failedControllers M' = failedControllers M
    \<and> mset order = mset (concat rss) \<and> pushReports B order (resultProcessor M) = Inr (resultProcessor M')"
  using assms
proof (induction es arbitrary: M rss)
  case Nil
  note s = runStateD [OF Nil.prems(1)]
  have all: "reading (controllers M ! i) = NoRead \<and> rss ! i = []" if "i < length rss" for i
    using s(3) [OF that] by (auto elim: expects_NilE)
  then have "\<forall>rs \<in> set rss. rs = []" by (metis in_set_conv_nth)
  then have "concat rss = []" by simp
  moreover have "\<forall>c \<in> set (controllers M). reading c = NoRead"
    using all s(1) by (metis in_set_conv_nth)
  then have "idle (controllers M) = length (controllers M)"
    unfolding idle_def by (simp add: filter_True)
  then have "unat (finishedControllers M) = unat (nodes (masterWorkload M))"
    using s(7,8) by linarith
  then have "finishedControllers M = nodes (masterWorkload M)"
    by (simp only: word_unat_eq_iff)
  ultimately show ?case
    using s(9) by (auto simp: pushReports_simps intro!: exI [of _ "[]"])
next
  case (Cons e es)
  obtain M1 rss1 pushed where step: "deliverable e M" "handleEvent B en e M = Inr M1" "runState en es rss1 M1"
    and split: "mset (concat rss) = mset pushed + mset (concat rss1)"
    and pushed: "pushReports B pushed (resultProcessor M) = Inr (resultProcessor M1)"
    and same: "failedControllers M1 = failedControllers M" "masterWorkload M1 = masterWorkload M"
    by (rule run_step [OF Cons.prems])
  have sub: "set (concat rss1) \<subseteq> set (concat rss)"
    using mset_eq_setD [of "concat rss" "pushed @ concat rss1"] split by simp
  have "\<forall>(t, r) \<in> set (concat rss1). \<forall>R. \<exists>R'. pushResult B t r R = Inr R'"
    using sub Cons.prems(2) by (meson subsetD)
  from Cons.IH [OF step(3) this] obtain M' order where rest: "eventLoop B en es M1 = Some (Inr M')" "stopped M'"
      "finishedControllers M' = nodes (masterWorkload M1)" "failedControllers M' = failedControllers M1"
      "mset order = mset (concat rss1)" "pushReports B order (resultProcessor M1) = Inr (resultProcessor M')"
    by blast
  have "mset (pushed @ order) = mset (concat rss)"
    using split rest(5) by simp
  moreover have "pushReports B (pushed @ order) (resultProcessor M) = Inr (resultProcessor M')"
    using pushed rest(6) by (simp add: pushReports_append)
  moreover have "eventLoop B en (e # es) M = Some (Inr M')"
    using eventLoop_step [OF runState_running [OF Cons.prems(1)] step(1,2)] rest(1) by simp
  ultimately show ?case
    using rest(2-4) unfolding same by blast
qed

end
