(* ===== verification/Composition.thy ===== *)
theory Composition
  imports Programs Service MasterRun
begin

text \<open>
  Properties of the programs together: what the master sends is what a controller is configured with,
  what a node measured is what the master processes, and the parameters on which both sides must agree.
\<close>

section \<open>From the master to a controller\<close>

text \<open>The steps of \<open>DhtperfController::run\<close> that read the configuration.\<close>

definition readConfiguration :: "'b boost_scheme \<Rightarrow> endian \<Rightarrow> DhtperfController \<Rightarrow> DhtperfController result" where
  "readConfiguration B en C =
     andThen (getDhtType en C) (\<lambda>C. andThen (Controller_getProfile B en C) (waitForStartMessage en))"

lemma setProfiles_simps:
  "setProfiles B [] C = Inr C"
  "setProfiles B ((op, t) # ps) C =
     andThen (setProfile B op t (profile C) (draws C)) (\<lambda>(b, W, k). setProfiles B ps (C\<lparr>profile := W, draws := k\<rparr>))"
  by (simp_all add: setProfiles_def andThen_assoc split_def)

lemma setProfiles_fromMaster:
  "setProfiles B ps (C\<lparr>fromMaster := r\<rparr>) = andThen (setProfiles B ps C) (\<lambda>C. Inr (C\<lparr>fromMaster := r\<rparr>))"
proof (induction ps arbitrary: C)
  case (Cons p ps)
  obtain op t where p: "p = (op, t)" by (cases p)
  have upd: "C\<lparr>fromMaster := r, profile := W, draws := k\<rparr> = C\<lparr>profile := W, draws := k, fromMaster := r\<rparr>" for W k
    by simp
  have "setProfiles B ps (C\<lparr>fromMaster := r, profile := W, draws := k\<rparr>) =
      andThen (setProfiles B ps (C\<lparr>profile := W, draws := k\<rparr>)) (\<lambda>C. Inr (C\<lparr>fromMaster := r\<rparr>))" for W k
    unfolding upd by (rule Cons.IH)
  then show ?case
    by (cases "setProfile B op t (profile C) (draws C)") (auto simp: p setProfiles_simps)
qed (simp add: setProfiles_simps)

lemma setProfiles_dhtNode:
  "setProfiles B ps C = Inr C' \<Longrightarrow> dhtNode C' = dhtNode C"
proof (induction ps arbitrary: C)
  case (Cons p ps)
  obtain op t where p: "p = (op, t)" by (cases p)
  obtain b W k where "setProfiles B ps (C\<lparr>profile := W, draws := k\<rparr>) = Inr C'"
    using Cons.prems by (auto simp: p setProfiles_simps andThen_Inr_iff)
  from Cons.IH [OF this] show ?case by simp
qed (simp add: setProfiles_simps)

text \<open>The controller reads three messages, whatever profile texts they hold.\<close>

lemma readConfiguration_sent:
  assumes "sendable en (DhtType t)" "toBits en (DhtType t) = Inr b1"
    and "sendable en (Profile j l p g)" "toBits en (Profile j l p g) = Inr b2"
    and "sendable en (Start d h eo so)" "toBits en (Start d h eo so) = Inr b3"
    and "fromMaster C = b1 @ b2 @ b3"
  shows "readConfiguration B en C =
    andThen (makeNode t (files C)) (\<lambda>(n, fs).
    andThen (setProfiles B [(Join, j), (Leave, l), (Put, p), (Get, g)]
      (C\<lparr>dhtNode := Some n, files := fs, fromMaster := []\<rparr>)) (\<lambda>C.
    Inr (C\<lparr>profile := setDuration d (profile C),
           dhtNode := Some (setSelfPortOffset so (setEntryPoint h eo n))\<rparr>)))"
proof (cases "makeNode t (files C)")
  case (Inl e)
  then show ?thesis
    using getNextMessage_sent [OF assms(1,2), of opcode_DhtType "b2 @ b3"] assms(7)
    by (simp add: readConfiguration_def getDhtType_def)
next
  case (Inr nf)
  obtain n fs where nf: "nf = (n, fs)" by (cases nf)
  let ?C1 = "C\<lparr>fromMaster := b2 @ b3, dhtNode := Some n, files := fs\<rparr>"
  let ?ps = "[(Join, j), (Leave, l), (Put, p), (Get, g)]"
  let ?C0 = "C\<lparr>dhtNode := Some n, files := fs\<rparr>"
  have 1: "getDhtType en C = Inr ?C1"
    using getNextMessage_sent [OF assms(1,2), of opcode_DhtType "b2 @ b3"] assms(7) Inr nf
    by (simp add: getDhtType_def)
  have upd: "C\<lparr>fromMaster := r, dhtNode := Some n, files := fs\<rparr> = ?C0\<lparr>fromMaster := r\<rparr>" for r
    by simp
  have 2: "Controller_getProfile B en ?C1 = andThen (setProfiles B ?ps ?C0) (\<lambda>C. Inr (C\<lparr>fromMaster := b3\<rparr>))"
    using getNextMessage_sent [OF assms(3,4), of opcode_Profile b3] setProfiles_fromMaster [of B ?ps b3 ?C0]
    by (simp add: Controller_getProfile_def)
  show ?thesis
  proof (cases "setProfiles B ?ps ?C0")
    case (Inl e)
    then show ?thesis
      using 1 2 Inr nf setProfiles_fromMaster [of B ?ps "[]" ?C0] by (simp add: readConfiguration_def)
  next
    case (Inr C2)
    have "dhtNode C2 = Some n"
      using setProfiles_dhtNode [OF Inr] by simp
    then have "waitForStartMessage en (C2\<lparr>fromMaster := b3\<rparr>) =
        Inr (C2\<lparr>fromMaster := [], profile := setDuration d (profile C2),
               dhtNode := Some (setSelfPortOffset so (setEntryPoint h eo n))\<rparr>)"
      using getNextMessage_sent [OF assms(5,6), of opcode_Start "[]"] by (simp add: waitForStartMessage_def)
    then show ?thesis
      using 1 2 Inr \<open>makeNode t (files C) = Inr nf\<close> nf setProfiles_fromMaster [of B ?ps "[]" ?C0]
      by (simp add: readConfiguration_def)
  qed
qed

lemma sendable_if_sent:
  assumes "toBits en m = Inr bits" and "fieldsFit m"
  shows "sendable en m"
  using assms by (simp add: sendable_def toBits_layout split: if_splits)

lemma configuration_messages:
  assumes "masterRunning B en t W M" and "startMessagesSent M" and "i < length (controllers M)"
    and "getNodeProfile (of_nat i) W = Inr (j, l, p, g)" and "\<forall>x \<in> {j, l, p, g}. length x < 2147483648"
  obtains b1 b2 b3 where "concat (writesStarted (controllers M ! i)) = b1 @ b2 @ b3"
    and "toBits en (DhtType t) = Inr b1" and "toBits en (Profile j l p g) = Inr b2" and "toBits en (startMessage M i) = Inr b3"
    and "sendable en (DhtType t)" and "sendable en (Profile j l p g)" and "sendable en (startMessage M i)"
proof -
  note f = masterRunning_facts [OF assms(1)]
  have "configured en M i True"
    using f(1) assms(2,3) by (simp add: masterInv_def)
  then have "map Inr (writesStarted (controllers M ! i)) = map (toBits en) [DhtType t, Profile j l p g, startMessage M i]"
    using f(2,3) assms(4) by (simp add: configured_def profileMessage_def sentTo_def)
  then obtain b1 b2 b3 where b: "writesStarted (controllers M ! i) = [b1, b2, b3]" "toBits en (DhtType t) = Inr b1"
    "toBits en (Profile j l p g) = Inr b2" "toBits en (startMessage M i) = Inr b3"
    by (auto simp: map_eq_Cons_conv simp del: toBits.simps)
  moreover have "sendable en (DhtType t)" "sendable en (Profile j l p g)" "sendable en (startMessage M i)"
    using b(2-4) assms(5) by (auto intro!: sendable_if_sent simp: startMessage_def simp del: toBits.simps)
  ultimately show thesis using that by simp
qed

section \<open>From a controller to the master\<close>

text \<open>The bytes that the events of a read hold.\<close>

fun eventBytes :: "masterEvent \<Rightarrow> bytes" where
  "eventBytes (HeaderDone i (Some bs)) = bs"
| "eventBytes (BodyDone i (Some bs)) = bs"
| "eventBytes _ = []"

definition reportsOf :: "'b boost_scheme \<Rightarrow> DhtNode \<Rightarrow> (string \<times> string) list" where
  "reportsOf B n =
     [(''JoinLatency'', NodeLatency_toString B (joinLatency n)),
      (''LeaveLatency'', NodeLatency_toString B (leaveLatency n)),
      (''GetLatency'', NodeLatency_toString B (getLatency n)),
      (''PutLatency'', NodeLatency_toString B (putLatency n)),
      (''JoinSuccessRate'', NodeSuccessRate_toString (joinSuccessRate n)),
      (''GetSuccessRate'', NodeSuccessRate_toString (getSuccessRate n))]"

lemma writeMessage_ok:
  assumes "sendable en m" and "\<forall>k. \<not> writeFails k"
  shows "writeMessage writeFails en m C =
    Inr (C\<lparr>toMaster := toMaster C @ concat (map eventBytes (deliveryOf en i m)), writes := writes C + 1\<rparr>)"
  using sendable_bits(1) [OF assms(1)] assms(2)
  by (simp add: writeMessage_def deliveryOf_def del: toBits.simps bodyBytes.simps)

lemma reports_written:
  assumes "dhtNode C = Some n" and "\<forall>k. \<not> writeFails k"
    and "\<forall>(type, reported) \<in> set (reportsOf B n). sendable en (Report type reported)"
  shows "andThen (reportResults B writeFails en C) (sendFinishMessage writeFails en) =
    Inr (C\<lparr>toMaster := toMaster C @ concat (map eventBytes (deliveryOfAll en i (reportsOf B n))), writes := writes C + 7\<rparr>)"
proof -
  have s: "sendable en (Report type reported)" if "(type, reported) \<in> set (reportsOf B n)" for type reported
    using assms(3) that by blast
  have f: "sendable en Finish" by (simp add: sendable_def)
  show ?thesis
    using s writeMessage_ok [OF _ assms(2), where i = i] writeMessage_ok [OF f assms(2), where i = i]
    by (simp add: reportResults_def sendFinishMessage_def getResults_def assms(1) deliveryOfAll_def reportsOf_def
        del: toBits.simps bodyBytes.simps)
qed

text \<open>What arrives of the measurements of a node.\<close>

definition transferred :: "NodeLatency \<Rightarrow> NodeLatency" where
  "transferred N =
     \<lparr>measurements = measurements N,
      latencyStatistics = pushAll real_of_int longQuot (map snd (measurements N)) (newStatistics 0)\<rparr>"

definition withNode :: "DhtNode \<Rightarrow> ResultProcessor \<Rightarrow> ResultProcessor" where
  "withNode n R = R
     \<lparr>joinLatencies := GeneralLatency_push (transferred (joinLatency n)) (joinLatencies R),
      leaveLatencies := GeneralLatency_push (transferred (leaveLatency n)) (leaveLatencies R),
      putLatencies := GeneralLatency_push (transferred (putLatency n)) (putLatencies R),
      getLatencies := GeneralLatency_push (transferred (getLatency n)) (getLatencies R),
      joinSuccessRates := GeneralSuccessRate_push (joinSuccessRate n) (joinSuccessRates R),
      getSuccessRates := GeneralSuccessRate_push (getSuccessRate n) (getSuccessRates R)\<rparr>"

lemma transferred_latencies:
  assumes "split_documented B" and "time_documented B" and "validNode n"
    and "N \<in> {joinLatency n, leaveLatency n, putLatency n, getLatency n}"
  shows "NodeLatency_fromString B (NodeLatency_toString B N) = Inr (transferred N)"
  using fromString_toString [OF assms(1,2)] assms(3,4) unfolding transferred_def validNode_def by blast

lemma pushResult_reports:
  assumes "split_documented B" and "time_documented B" and "validNode n"
  shows "pushReports B (reportsOf B n) R = Inr (withNode n R)"
  using transferred_latencies [OF assms]
  by (simp add: pushReports_def reportsOf_def pushResult_def pushLatency_def pushSuccessRate_def
      rate_fromString_toString withNode_def)

text \<open>A node that joined after 5 seconds, within 30 microseconds.\<close>

definition measuredNode :: DhtNode where
  "measuredNode = (newDhtNode DummyDht)
     \<lparr>joinLatency := NodeLatency_push 5 30 newNodeLatency, joinSuccessRate := NodeSuccessRate_hit newNodeSuccessRate\<rparr>"

lemma measuredNode_facts:
  "measurements (joinLatency measuredNode) = [(5, 30)]"
  "validNode measuredNode"
  "\<forall>(type, reported) \<in> set (reportsOf refBoost measuredNode). length reported < 4294967000"
proof -
  have m: "measurements (joinLatency measuredNode) = [(5, 30)]" "measurements (leaveLatency measuredNode) = []"
    "measurements (putLatency measuredNode) = []" "measurements (getLatency measuredNode) = []"
    by (simp_all add: measuredNode_def newDhtNode_def NodeLatency_push_def push_with_time_def newNodeLatency_def mapEmpty_def)
  then show "measurements (joinLatency measuredNode) = [(5, 30)]" and "validNode measuredNode"
    by (auto simp: validNode_def mapValid_def)
  have "reportsOf refBoost measuredNode =
      [(''JoinLatency'', ''5 30''), (''LeaveLatency'', ''''), (''GetLatency'', ''''), (''PutLatency'', ''''),
       (''JoinSuccessRate'', ''1 0''), (''GetSuccessRate'', ''0 0'')]"
    by code_simp
  then show "\<forall>(type, reported) \<in> set (reportsOf refBoost measuredNode). length reported < 4294967000"
    by simp
qed

section \<open>Properties\<close>



text \<open>
  C5. What a node measured reaches the results of the master unchanged: the six reports and the \<open>Finish\<close>
  that a controller writes are exactly the bytes of the events with which the master reads them, and these
  add the node with its measurements and success rates to the figures (the statistics of the latencies are
  those of the measured durations), count the controller as finished and change nothing else.
\<close>

theorem measurements_reach_results:
  assumes "split_documented B" and "time_documented B" and "dhtNode C = Some n" and "\<forall>k. \<not> writeFails k"
    and "validNode n" and "\<forall>(type, reported) \<in> set (reportsOf B n). length reported < 4294967000"
    and "i < length (controllers M)" and "peerConnected (controllers M ! i)"
  shows "\<exists>C' M'. andThen (reportResults B writeFails en C) (sendFinishMessage writeFails en) = Inr C'
    \<and> toMaster C' = toMaster C @ concat (map eventBytes (deliveryOfAll en i (reportsOf B n)))
    \<and> handleEvents B en (deliveryOfAll en i (reportsOf B n)) M = Inr M'
    \<and> resultProcessor M' = withNode n (resultProcessor M)
    \<and> finishedControllers M' = finishedControllers M + 1 \<and> failedControllers M' = failedControllers M"
proof -
  have s: "\<forall>(type, reported) \<in> set (reportsOf B n). sendable en (Report type reported)"
    using assms(6) by (simp add: reportsOf_def sendable_def)
  have "\<exists>M'. handleEvents B en (deliveryOfAll en i (reportsOf B n)) M = Inr M' \<and> resultProcessor M' = withNode n (resultProcessor M)
      \<and> finishedControllers M' = finishedControllers M + 1 \<and> failedControllers M' = failedControllers M"
    using deliver_all [OF assms(7,8) s, of B] pushResult_reports [OF assms(1,2,5), of "resultProcessor M"]
    unfolding deliveryOfAll_def pushReports_def by auto
  then show ?thesis
    using reports_written [OF assms(3,4) s, of i] by auto
qed

theorem measurements_reach_results_witness:
  "\<exists>C' M'. andThen (reportResults refBoost (\<lambda>k. False) LittleEndian ((quietController 40)\<lparr>dhtNode := Some measuredNode\<rparr>))
       (sendFinishMessage (\<lambda>k. False) LittleEndian) = Inr C'
     \<and> handleEvents refBoost LittleEndian (deliveryOfAll LittleEndian 0 (reportsOf refBoost measuredNode)) waitingMaster = Inr M'
     \<and> resultProcessor M' = withNode measuredNode (resultProcessor waitingMaster)"
  using measurements_reach_results [OF refBoost_split refBoost_time _ _ measuredNode_facts(2,3),
      of "(quietController 40)\<lparr>dhtNode := Some measuredNode\<rparr>" "\<lambda>k. False" 0 waitingMaster LittleEndian]
  by (auto simp: waitingMaster_def newControllerConnection_def asyncWaitForMessage_def)

text \<open>
  The time limits fit together: unless the sum overflows, a controller gives up exactly ten seconds after
  the master stops waiting for it, both counted from the duration of the workload.
\<close>

lemma controller_outlives_master:
  assumes "unat (workloadDuration (masterWorkload M)) + 100 < 2147483648"
  shows "timeoutThreadWait (workloadDuration (masterWorkload M)) = masterTimeout M + 10
    \<and> masterTimeout M = int (unat (workloadDuration (masterWorkload M))) + ReportAndFinishTimeout"
proof -
  let ?d = "workloadDuration (masterWorkload M)"
  have "unat (?d + 90) = unat ?d + 90" and c: "unat (?d + 100) = unat ?d + 100"
    using assms by (simp_all add: unat_word_ariths)
  then have m: "masterTimeout M = int (unat ?d) + 90"
    unfolding masterTimeout_def ReportAndFinishTimeout_def uint_nat by simp
  have "?d + 100 = of_nat (unat ?d + 100)"
    unfolding c [symmetric] by simp
  then have "sint (?d + 100) = int (unat ?d + 100)"
    using sint_of_nat_u32 [OF assms] by metis
  moreover have "timeoutThreadWait ?d = sint (?d + 100)"
    unfolding timeoutThreadWait_def ReportAndFinishTimeout_def by (simp add: add.assoc)
  ultimately show ?thesis
    using m by (simp only: ReportAndFinishTimeout_def) simp
qed

lemma controller_outlives_master_witness:
  "timeoutThreadWait 60 = masterTimeout (newDhtperfMaster t False\<lparr>masterWorkload := newMasterWorkload\<lparr>workloadDuration := 60\<rparr>\<rparr>) + 10"
  using controller_outlives_master [of "newDhtperfMaster t False\<lparr>masterWorkload := newMasterWorkload\<lparr>workloadDuration := 60\<rparr>\<rparr>"]
  by (simp add: newDhtperfMaster_def newMasterWorkload_def)



text \<open>
  The master accepts no type of DHT that a controller cannot make: for a run that \<open>main\<close> starts, the
  factory of the controllers has a class for the type, in every file system.
\<close>

lemma accepted_dht_is_known:
  assumes "masterMain B (Some opt) readFile = Inr master"
  shows "\<exists>b. makeNode (dht opt) fs = Inr (newDhtNode b, fs) \<or> makeNode (dht opt) fs = newWrapperNode b fs"
proof -
  have known: "newOwdhtshell d fs = newWrapperNode (OwdhtshellWrapper d) fs" if "d \<in> {''Chord'', ''Kademlia'', ''Pastry''}" for d
    using that by (cases "newWrapperNode (OwdhtshellWrapper d) fs") (auto simp: newOwdhtshell_def)
  have kaddemo: "newKaddemo fs = newWrapperNode KaddemoWrapper fs"
    by (cases "newWrapperNode KaddemoWrapper fs")
      (auto simp: newKaddemo_def newWrapperNode_def newDhtNode_def andThen_Inr_iff Let_def)
  have "dht opt \<in> set validDhts"
    using assms by (auto simp: masterMain_def split: if_splits)
  then show ?thesis
    using known kaddemo by (auto simp: validDhts_def makeNode_def newDummyDht_def newOpenchord_def newPastConsole_def)
qed

definition exampleOptions :: masterOptions where
  "exampleOptions =
     \<lparr>helpAsked = False, versionAsked = False, workloadFile = ''example-workload'', dht = ''owshellkad'',
      nodesOption = None, lowLatency = False\<rparr>"

lemma accepted_dht_is_known_witness:
  "\<exists>b. makeNode ''owshellkad'' fs = Inr (newDhtNode b, fs) \<or> makeNode ''owshellkad'' fs = newWrapperNode b fs"
proof -
  have "masterMain refBoost (Some exampleOptions) (\<lambda>name. None) = Inr (Inl ExitFailure)"
    by (simp add: masterMain_def exampleOptions_def validDhts_def loadWorkloadFile_def loadConfig_def)
  from accepted_dht_is_known [OF this] show ?thesis by (simp add: exampleOptions_def)
qed

end
