(* ===== verification/WholeRun.thy ===== *)
theory WholeRun
  imports Composition
begin

text \<open>
  A complete run of the master, from the workload file to the figures: the controllers connect, each
  reports what its node measured, in any interleaving, and the figures summarise all of it.
\<close>

section \<open>Figures of reports in any order\<close>

text \<open>The reported values of one type.\<close>

definition ofType :: "string \<Rightarrow> (string \<times> string) list \<Rightarrow> string list" where
  "ofType t rs = map snd (filter (\<lambda>r. fst r = t) rs)"

lemma ofType_simps [simp]:
  "ofType t [] = []"
  "ofType t ((u, r) # rs) = (if u = t then r # ofType t rs else ofType t rs)"
  "ofType t (rs @ rs') = ofType t rs @ ofType t rs'"
  by (simp_all add: ofType_def)

lemma mset_ofType: "mset rs = mset rs' \<Longrightarrow> mset (ofType t rs) = mset (ofType t rs')"
  by (simp add: ofType_def mset_map)

definition parsedLatency :: "'b boost_scheme \<Rightarrow> string \<Rightarrow> NodeLatency" where
  "parsedLatency B r = (case NodeLatency_fromString B r of Inl err \<Rightarrow> newNodeLatency | Inr N \<Rightarrow> N)"

lemma pushResult_figures:
  assumes "pushResult B t r R = Inr R'"
  shows "joinLatencies R' = fold GeneralLatency_push (map (parsedLatency B) (ofType ''JoinLatency'' [(t, r)])) (joinLatencies R)"
    and "leaveLatencies R' = fold GeneralLatency_push (map (parsedLatency B) (ofType ''LeaveLatency'' [(t, r)])) (leaveLatencies R)"
    and "putLatencies R' = fold GeneralLatency_push (map (parsedLatency B) (ofType ''PutLatency'' [(t, r)])) (putLatencies R)"
    and "getLatencies R' = fold GeneralLatency_push (map (parsedLatency B) (ofType ''GetLatency'' [(t, r)])) (getLatencies R)"
    and "joinSuccessRates R' = fold GeneralSuccessRate_push (map NodeSuccessRate_fromString (ofType ''JoinSuccessRate'' [(t, r)])) (joinSuccessRates R)"
    and "getSuccessRates R' = fold GeneralSuccessRate_push (map NodeSuccessRate_fromString (ofType ''GetSuccessRate'' [(t, r)])) (getSuccessRates R)"
  using assms
  by (auto simp: pushResult_def pushLatency_def pushSuccessRate_def pushStatus_def parsedLatency_def andThen_Inr_iff
      split: if_splits)

lemma pushReports_figures:
  assumes "pushReports B rs R = Inr R'"
  shows "joinLatencies R' = fold GeneralLatency_push (map (parsedLatency B) (ofType ''JoinLatency'' rs)) (joinLatencies R)
    \<and> leaveLatencies R' = fold GeneralLatency_push (map (parsedLatency B) (ofType ''LeaveLatency'' rs)) (leaveLatencies R)
    \<and> putLatencies R' = fold GeneralLatency_push (map (parsedLatency B) (ofType ''PutLatency'' rs)) (putLatencies R)
    \<and> getLatencies R' = fold GeneralLatency_push (map (parsedLatency B) (ofType ''GetLatency'' rs)) (getLatencies R)
    \<and> joinSuccessRates R' = fold GeneralSuccessRate_push (map NodeSuccessRate_fromString (ofType ''JoinSuccessRate'' rs)) (joinSuccessRates R)
    \<and> getSuccessRates R' = fold GeneralSuccessRate_push (map NodeSuccessRate_fromString (ofType ''GetSuccessRate'' rs)) (getSuccessRates R)"
  using assms
proof (induction rs arbitrary: R)
  case (Cons x rs)
  obtain t r where x: "x = (t, r)" by (cases x)
  obtain R1 where R1: "pushResult B t r R = Inr R1" "pushReports B rs R1 = Inr R'"
    using Cons.prems by (auto simp: x pushReports_simps andThen_Inr_iff)
  have "ofType u (x # rs) = ofType u [(t, r)] @ ofType u rs" for u
    by (simp add: x)
  then show ?case
    using Cons.IH [OF R1(2)] unfolding pushResult_figures [OF R1(1)] by (simp only: map_append fold_append o_apply)
qed (simp add: pushReports_simps)

lemma pushReports_dhtType: "pushReports B rs R = Inr R' \<Longrightarrow> resultDhtType R' = resultDhtType R"
proof (induction rs arbitrary: R)
  case (Cons x rs)
  obtain t r where x: "x = (t, r)" by (cases x)
  obtain R1 where R1: "pushResult B t r R = Inr R1" "pushReports B rs R1 = Inr R'"
    using Cons.prems by (auto simp: x pushReports_simps andThen_Inr_iff)
  have "resultDhtType R1 = resultDhtType R"
    using R1(1) by (auto simp: pushResult_def pushLatency_def pushSuccessRate_def pushStatus_def andThen_Inr_iff split: if_splits)
  then show ?case using Cons.IH [OF R1(2)] by simp
qed (simp add: pushReports_simps)

text \<open>Statistics do not depend on the order of the elements.\<close>

lemma summarises_mset:
  assumes "mset xs = mset ys"
  shows "summarises f q i xs S = summarises f q i ys S"
proof -
  have "length xs = length ys" "set xs = set ys" "xs = [] \<longleftrightarrow> ys = []"
    using assms by (auto dest: mset_eq_length mset_eq_setD)
  moreover have "(\<Sum>x\<leftarrow>xs. f x) = (\<Sum>x\<leftarrow>ys. f x)"
    using assms by (metis mset_map sum_mset_sum_list)
  moreover have "length (filter P xs) = length (filter P ys)" for P
    using assms by (metis mset_filter size_mset)
  ultimately show ?thesis unfolding summarises_def by simp
qed

lemma mset_concat_map: "mset (concat (map g xs)) = \<Sum>\<^sub># (image_mset (\<lambda>x. mset (g x)) (mset xs))"
  by (induction xs) simp_all

definition measured :: "(DhtNode \<Rightarrow> NodeLatency) \<Rightarrow> DhtNode list \<Rightarrow> int list" where
  "measured f ns = concat (map (\<lambda>n. map snd (measurements (f n))) ns)"

definition average :: "real list \<Rightarrow> real" where
  "average xs = sum_list xs / real (length xs)"

text \<open>The means of the nodes that measured something.\<close>

definition nodeMeans :: "(DhtNode \<Rightarrow> NodeLatency) \<Rightarrow> DhtNode list \<Rightarrow> real list" where
  "nodeMeans f ns = map (\<lambda>n. average (map (\<lambda>m. real_of_int (snd m)) (measurements (f n))))
     (filter (\<lambda>n. measurements (f n) \<noteq> []) ns)"

lemma transferred_figures:
  assumes "length (measurements (f n)) < 18446744073709551616"
  shows "NodeLatency_count (transferred (f n)) = 0 \<longleftrightarrow> measurements (f n) = []"
    and "measurements (f n) \<noteq> [] \<Longrightarrow>
      meanInMicroseconds (transferred (f n)) = average (map (\<lambda>m. real_of_int (snd m)) (measurements (f n)))"
proof -
  let ?N = "transferred (f n)"
  have s: "summarises real_of_int longQuot 0 (map snd (measurements (f n))) (latencyStatistics ?N)"
    unfolding transferred_def by (simp del: pushAll_simps) (rule summarises_pushAll, simp add: assms)
  then have "unat (NodeLatency_count ?N) = length (measurements (f n))"
    using assms by (simp add: summarises_def NodeLatency_count_def Statistics_count_def unat_of_nat)
  then show count: "NodeLatency_count ?N = 0 \<longleftrightarrow> measurements (f n) = []"
    by (simp flip: unat_eq_zero)
  assume "measurements (f n) \<noteq> []"
  then show "meanInMicroseconds ?N = average (map (\<lambda>m. real_of_int (snd m)) (measurements (f n)))"
    using s count by (simp add: meanInMicroseconds_def Statistics_mean_def summarises_def average_def comp_def)
qed

lemma transferred_nodes:
  assumes "length (measured f ns) < 2 ^ 64"
  shows "allDurations (map (\<lambda>n. transferred (f n)) ns) = measured f ns
    \<and> map meanInMicroseconds (countedNodes (map (\<lambda>n. transferred (f n)) ns)) = nodeMeans f ns"
  using assms
proof (induction ns)
  case (Cons n ns)
  have "length (measurements (f n)) < 18446744073709551616" and "length (measured f ns) < 2 ^ 64"
    using Cons.prems by (simp_all add: measured_def)
  then show ?case
    using Cons.IH transferred_figures [of f n]
    by (auto simp: allDurations_def countedNodes_def measured_def nodeMeans_def) (simp_all add: transferred_def)
qed (simp add: allDurations_def countedNodes_def measured_def nodeMeans_def)

lemma nodeMeans_few: "length (nodeMeans f ns) \<le> length (measured f ns)" "nodeMeans f ns = [] \<longleftrightarrow> measured f ns = []"
proof -
  show "length (nodeMeans f ns) \<le> length (measured f ns)"
  proof (induction ns)
    case (Cons n ns)
    then show ?case by (cases "measurements (f n)") (simp_all add: nodeMeans_def measured_def)
  qed (simp add: nodeMeans_def)
  show "nodeMeans f ns = [] \<longleftrightarrow> measured f ns = []"
    by (auto simp: nodeMeans_def measured_def filter_empty_conv)
qed

definition latencyFigures :: "int \<Rightarrow> (DhtNode \<Rightarrow> NodeLatency) \<Rightarrow> DhtNode list \<Rightarrow> GeneralLatency \<Rightarrow> bool" where
  "latencyFigures w f ns G \<longleftrightarrow>
     summarises real_of_int longQuot w (measured f ns) (generalStatistics G)
     \<and> summarises (\<lambda>x. x) doubleQuot 0 (nodeMeans f ns) (meansStatistics G)
     \<and> (latencyNodes G = [] \<longleftrightarrow> measured f ns = [])"

lemma latency_figures:
  assumes "mset Ns = mset (map (\<lambda>n. transferred (f n)) ns)" and "length (measured f ns) < 2 ^ 64"
  shows "latencyFigures w f ns (fold GeneralLatency_push Ns (newGeneralLatency w))"
proof -
  note nodes = transferred_nodes [OF assms(2)]
  have counted: "mset (countedNodes Ns) = mset (countedNodes (map (\<lambda>n. transferred (f n)) ns))"
    using assms(1) unfolding countedNodes_def by simp
  then have same: "mset (allDurations Ns) = mset (measured f ns)"
    unfolding nodes [THEN conjunct1, symmetric] allDurations_def mset_concat_map by simp
  then have "length (allDurations Ns) < 18446744073709551616"
    using assms(2) by (simp flip: size_mset)
  then have "summarises real_of_int longQuot w (allDurations Ns) (generalStatistics (fold GeneralLatency_push Ns (newGeneralLatency w)))"
    unfolding GeneralLatency_fold by (simp del: pushAll_simps add: newGeneralLatency_def summarises_pushAll)
  moreover have means: "mset (map meanInMicroseconds (countedNodes Ns)) = mset (nodeMeans f ns)"
    unfolding nodes [THEN conjunct2, symmetric] using counted by (simp add: mset_map)
  then have "length (countedNodes Ns) = length (nodeMeans f ns)"
    using mset_eq_length by fastforce
  then have "length (map meanInMicroseconds (countedNodes Ns)) < 18446744073709551616" and "countedNodes Ns = [] \<longleftrightarrow> measured f ns = []"
    using nodeMeans_few [of f ns] assms(2) by auto
  then have "summarises (\<lambda>x. x) doubleQuot 0 (map meanInMicroseconds (countedNodes Ns)) (meansStatistics (fold GeneralLatency_push Ns (newGeneralLatency w)))"
    and "latencyNodes (fold GeneralLatency_push Ns (newGeneralLatency w)) = [] \<longleftrightarrow> measured f ns = []"
    unfolding GeneralLatency_fold by (simp_all del: pushAll_simps add: newGeneralLatency_def summarises_pushAll)
  ultimately show ?thesis
    unfolding latencyFigures_def using summarises_mset [OF same] summarises_mset [OF means] by blast
qed

definition measuredRates :: "(DhtNode \<Rightarrow> NodeSuccessRate) \<Rightarrow> DhtNode list \<Rightarrow> real list" where
  "measuredRates f ns = map successRate (filter (\<lambda>r. NodeSuccessRate_count r \<noteq> 0) (map f ns))"

lemma rate_figures:
  assumes "mset rs = mset (map f ns)" and "length ns < 2 ^ 64"
  shows "summarises (\<lambda>x. x) doubleQuot 0 (measuredRates f ns) (rateStatistics (fold GeneralSuccessRate_push rs newGeneralSuccessRate))"
proof -
  let ?rates = "map successRate (filter (\<lambda>r. NodeSuccessRate_count r \<noteq> 0) rs)"
  have same: "mset ?rates = mset (measuredRates f ns)"
    unfolding measuredRates_def mset_map mset_filter assms(1) by simp
  have "length rs = length ns"
    using mset_eq_length [OF assms(1)] by simp
  then have "length ?rates < 18446744073709551616"
    using assms(2) by (simp add: order.strict_trans1 [OF length_filter_le])
  then have "summarises (\<lambda>x. x) doubleQuot 0 ?rates (rateStatistics (fold GeneralSuccessRate_push rs newGeneralSuccessRate))"
    unfolding GeneralSuccessRate_fold by (simp del: pushAll_simps add: newGeneralSuccessRate_def summarises_pushAll)
  then show ?thesis
    using summarises_mset [OF same] by blast
qed

section \<open>The run\<close>

text \<open>
  The events after the last controller has connected: those of controller \<open>i\<close> are the reads that deliver
  the reports of its node and \<open>Finish\<close>, in this order, and at most the completions of its three writes;
  the events of different controllers are interleaved in any way. The loop ends with a read.
\<close>

definition completeDelivery :: "'b boost_scheme \<Rightarrow> endian \<Rightarrow> DhtNode list \<Rightarrow> masterEvent list \<Rightarrow> bool" where
  "completeDelivery B en ns es \<longleftrightarrow>
     (\<forall>i < length ns. filter (readOf i) es = deliveryOfAll en i (reportsOf B (ns ! i)) \<and> length (filter (writeOf i) es) \<le> 3)
     \<and> (\<forall>e \<in> set es. \<exists>i < length ns. readOf i e \<or> writeOf i e)
     \<and> (\<exists>i < length ns. readOf i (last es))"

definition sendableReports :: "'b boost_scheme \<Rightarrow> endian \<Rightarrow> DhtNode \<Rightarrow> bool" where
  "sendableReports B en n \<longleftrightarrow> (\<forall>(t, r) \<in> set (reportsOf B n). sendable en (Report t r))"

lemma short_reports:
  "\<forall>(type, reported) \<in> set (reportsOf B n). length reported < 4294967000 \<Longrightarrow> sendableReports B en n"
  by (simp add: sendableReports_def reportsOf_def sendable_def)

lemma delivery_starts:
  assumes "completeDelivery B en ns es"
    and "\<forall>n \<in> set ns. sendableReports B en n"
    and "length (controllers M) = length ns" and "length ns = unat (nodes (masterWorkload M))" and "ns \<noteq> []"
    and "\<forall>c \<in> set (controllers M). peerConnected c \<and> reading c = HeaderRead \<and> pendingWrites c = 3"
    and "finishedControllers M = 0" and "\<not> stopped M"
  shows "runState en es (map (reportsOf B) ns) M"
proof -
  have ready: "peerConnected (controllers M ! i) \<and> reading (controllers M ! i) = HeaderRead \<and> pendingWrites (controllers M ! i) = 3"
    if "i < length ns" for i
    using assms(3,6) that by simp
  have "expects en i (controllers M ! i) (reportsOf B (ns ! i)) (deliveryOfAll en i (reportsOf B (ns ! i)))" if "i < length ns" for i
    using ready [OF that] nth_mem [OF that] assms(2) by (intro expects.header) (auto simp: sendableReports_def)
  then have each: "peerConnected (controllers M ! i) \<and> expects en i (controllers M ! i) (map (reportsOf B) ns ! i) (filter (readOf i) es)
      \<and> length (filter (writeOf i) es) \<le> pendingWrites (controllers M ! i)" if "i < length ns" for i
    using assms(1) ready [OF that] that by (simp add: completeDelivery_def)
  have "idle (controllers M) = 0"
    using assms(6) by (simp add: idle_def filter_empty_conv)
  moreover have "nodes (masterWorkload M) \<noteq> 0"
    using assms(4,5) by auto
  moreover have "length (controllers M) = unat (nodes (masterWorkload M))"
    using assms(3,4) by simp
  ultimately show ?thesis
    using assms(1,3,7,8) each unfolding runState_def completeDelivery_def by (simp del: length_greater_0_conv)
qed

lemma ofType_reports:
  "ofType ''JoinLatency'' (concat (map (reportsOf B) ns)) = map (\<lambda>n. NodeLatency_toString B (joinLatency n)) ns"
  "ofType ''LeaveLatency'' (concat (map (reportsOf B) ns)) = map (\<lambda>n. NodeLatency_toString B (leaveLatency n)) ns"
  "ofType ''PutLatency'' (concat (map (reportsOf B) ns)) = map (\<lambda>n. NodeLatency_toString B (putLatency n)) ns"
  "ofType ''GetLatency'' (concat (map (reportsOf B) ns)) = map (\<lambda>n. NodeLatency_toString B (getLatency n)) ns"
  "ofType ''JoinSuccessRate'' (concat (map (reportsOf B) ns)) = map (\<lambda>n. NodeSuccessRate_toString (joinSuccessRate n)) ns"
  "ofType ''GetSuccessRate'' (concat (map (reportsOf B) ns)) = map (\<lambda>n. NodeSuccessRate_toString (getSuccessRate n)) ns"
  by (induction ns) (simp_all add: reportsOf_def)

lemma parsed_reports:
  assumes "split_documented B" and "time_documented B" and "\<forall>n \<in> set ns. validNode n"
    and "\<forall>n. f n \<in> {joinLatency n, leaveLatency n, putLatency n, getLatency n}"
    and "mset rs = mset (concat (map (reportsOf B) ns))"
    and "ofType t (concat (map (reportsOf B) ns)) = map (\<lambda>n. NodeLatency_toString B (f n)) ns"
  shows "mset (map (parsedLatency B) (ofType t rs)) = mset (map (\<lambda>n. transferred (f n)) ns)"
proof -
  have "mset (ofType t rs) = mset (map (\<lambda>n. NodeLatency_toString B (f n)) ns)"
    using mset_ofType [OF assms(5), of t] assms(6) by simp
  then have "mset (map (parsedLatency B) (ofType t rs)) = mset (map (\<lambda>n. parsedLatency B (NodeLatency_toString B (f n))) ns)"
    by (simp add: multiset.map_comp o_def)
  moreover have "parsedLatency B (NodeLatency_toString B (f n)) = transferred (f n)" if "n \<in> set ns" for n
    using transferred_latencies [OF assms(1,2) bspec [OF assms(3) that] spec [OF assms(4)]] by (simp add: parsedLatency_def)
  ultimately show ?thesis
    by (simp cong: map_cong)
qed

lemma parsed_rates:
  assumes "mset rs = mset (concat (map (reportsOf B) ns))"
    and "ofType t (concat (map (reportsOf B) ns)) = map (\<lambda>n. NodeSuccessRate_toString (f n)) ns"
  shows "mset (map NodeSuccessRate_fromString (ofType t rs)) = mset (map f ns)"
proof -
  have "mset (ofType t rs) = mset (map (\<lambda>n. NodeSuccessRate_toString (f n)) ns)"
    using mset_ofType [OF assms(1), of t] assms(2) by simp
  then show ?thesis
    by (simp add: multiset.map_comp o_def rate_fromString_toString)
qed

lemma reports_push:
  assumes "split_documented B" and "time_documented B" and "\<forall>n \<in> set ns. validNode n"
  shows "\<forall>(t, r) \<in> set (concat (map (reportsOf B) ns)). \<forall>R. \<exists>R'. pushResult B t r R = Inr R'"
proof -
  have "\<exists>R'. pushResult B t r R = Inr R'" if "n \<in> set ns" and "(t, r) \<in> set (reportsOf B n)" for n t r R
  proof -
    note latency = transferred_latencies [OF assms(1,2) bspec [OF assms(3) that(1)]]
    have "NodeLatency_fromString B (NodeLatency_toString B (joinLatency n)) = Inr (transferred (joinLatency n))"
      "NodeLatency_fromString B (NodeLatency_toString B (leaveLatency n)) = Inr (transferred (leaveLatency n))"
      "NodeLatency_fromString B (NodeLatency_toString B (putLatency n)) = Inr (transferred (putLatency n))"
      "NodeLatency_fromString B (NodeLatency_toString B (getLatency n)) = Inr (transferred (getLatency n))"
      by (rule latency, simp)+
    then have "\<forall>p \<in> set (reportsOf B n). \<exists>R'. pushResult B (fst p) (snd p) R = Inr R'"
      by (simp add: reportsOf_def pushResult_def pushLatency_def pushSuccessRate_def)
    from bspec [OF this that(2)] show ?thesis by simp
  qed
  then show ?thesis by auto
qed

text \<open>The figures of a result processor summarise what the nodes measured.\<close>

definition figuresOf :: "bool \<Rightarrow> DhtNode list \<Rightarrow> ResultProcessor \<Rightarrow> bool" where
  "figuresOf low ns R \<longleftrightarrow>
     (let slow = (if low then 250000 else 500000); fast = (if low then 10000 else 50000) in
      latencyFigures slow joinLatency ns (joinLatencies R)
      \<and> latencyFigures slow leaveLatency ns (leaveLatencies R)
      \<and> latencyFigures fast putLatency ns (putLatencies R)
      \<and> latencyFigures fast getLatency ns (getLatencies R)
      \<and> summarises (\<lambda>x. x) doubleQuot 0 (measuredRates joinSuccessRate ns) (rateStatistics (joinSuccessRates R))
      \<and> summarises (\<lambda>x. x) doubleQuot 0 (measuredRates getSuccessRate ns) (rateStatistics (getSuccessRates R)))"

lemma reports_summarised:
  assumes "split_documented B" and "time_documented B" and "\<forall>n \<in> set ns. validNode n"
    and "\<forall>f \<in> {joinLatency, leaveLatency, putLatency, getLatency}. length (measured f ns) < 2 ^ 64"
    and "length ns < 2 ^ 64" and "mset rs = mset (concat (map (reportsOf B) ns))"
    and "pushReports B rs (newResultProcessor t low) = Inr R"
  shows "figuresOf low ns R"
proof -
  note latency = parsed_reports [OF assms(1-3) _ assms(6)]
  note rate = parsed_rates [OF assms(6)]
  have few: "length (measured joinLatency ns) < 2 ^ 64" "length (measured leaveLatency ns) < 2 ^ 64"
    "length (measured putLatency ns) < 2 ^ 64" "length (measured getLatency ns) < 2 ^ 64"
    using assms(4) by blast+
  have "mset (map (parsedLatency B) (ofType ''JoinLatency'' rs)) = mset (map (\<lambda>n. transferred (joinLatency n)) ns)"
    "mset (map (parsedLatency B) (ofType ''LeaveLatency'' rs)) = mset (map (\<lambda>n. transferred (leaveLatency n)) ns)"
    "mset (map (parsedLatency B) (ofType ''PutLatency'' rs)) = mset (map (\<lambda>n. transferred (putLatency n)) ns)"
    "mset (map (parsedLatency B) (ofType ''GetLatency'' rs)) = mset (map (\<lambda>n. transferred (getLatency n)) ns)"
    by (rule latency [OF _ ofType_reports(1)] latency [OF _ ofType_reports(2)] latency [OF _ ofType_reports(3)]
        latency [OF _ ofType_reports(4)]; simp)+
  note latencies = latency_figures [OF this(1) few(1)] latency_figures [OF this(2) few(2)]
    latency_figures [OF this(3) few(3)] latency_figures [OF this(4) few(4)]
  note rates = rate_figures [OF rate [OF ofType_reports(5)] assms(5)] rate_figures [OF rate [OF ofType_reports(6)] assms(5)]
  show ?thesis
    using pushReports_figures [OF assms(7)] latencies rates
    by (simp add: figuresOf_def newResultProcessor_def Let_def)
qed

lemma started_run:
  assumes "loadWorkloadFile B written k (newDhtperfMaster t low) = Inr M0"
    and "sendableSetup en M0 hosts" and "length hosts = unat (nodes (masterWorkload M0))"
  obtains cs where "eventLoop B en (acceptAll hosts @ es) (asyncAccept M0) =
      eventLoop B en es (M0\<lparr>accepting := False, controllers := cs, startMessagesSent := True\<rparr>)"
    and "masterReaches B en (asyncAccept M0) (M0\<lparr>accepting := False, controllers := cs, startMessagesSent := True\<rparr>)"
    and "map peerHost cs = hosts" and "\<forall>c \<in> set cs. peerConnected c \<and> reading c = HeaderRead \<and> pendingWrites c = 3"
    and "finishedControllers M0 = 0" and "failedControllers M0 = 0" and "\<not> stopped M0" and "hosts \<noteq> []"
    and "resultProcessor M0 = newResultProcessor t low"
proof -
  have ready: "controllers M0 = []" "finishedControllers M0 = 0" "failedControllers M0 = 0" "\<not> stopped M0"
      "nodes (masterWorkload M0) \<noteq> 0"
    using loadWorkloadFile_ready(1) [OF assms(1)] by (simp_all add: readyMaster_def)
  have results: "resultProcessor M0 = newResultProcessor t low"
    using assms(1) by (auto simp: loadWorkloadFile_def andThen_Inr_iff newDhtperfMaster_def)
  have "hosts \<noteq> []"
    using assms(3) ready(5) by (auto simp: unat_eq_zero)
  moreover have "sendableSetup en (asyncAccept M0) hosts"
    using assms(2) by (simp add: sendableSetup_def asyncAccept_def)
  ultimately show thesis
    using accept_phase [of en "asyncAccept M0" hosts B es] ready results assms(3) that
    by (auto simp: asyncAccept_def hostsOf_def)
qed

text \<open>The whole run, with the state in which it ends.\<close>

lemma complete_run:
  assumes "split_documented B" and "time_documented B"
    and "loadWorkloadFile B written k (newDhtperfMaster t low) = Inr M0"
    and "sendableSetup en M0 hosts" and "length hosts = unat (nodes (masterWorkload M0))" and "length ns = length hosts"
    and "completeDelivery B en ns es" and "\<forall>n \<in> set ns. validNode n" and "\<forall>n \<in> set ns. sendableReports B en n"
  obtains M rs where "eventLoop B en (acceptAll hosts @ es) (asyncAccept M0) = Some (Inr M)"
    and "finishedControllers M = nodes (masterWorkload M0)" and "failedControllers M = 0"
    and "mset rs = mset (concat (map (reportsOf B) ns))"
    and "pushReports B rs (newResultProcessor t low) = Inr (resultProcessor M)"
    and "assembled en hosts M" and "masterRunning B en t (masterWorkload M0) M"
proof -
  obtain cs where loop: "eventLoop B en (acceptAll hosts @ es) (asyncAccept M0) =
      eventLoop B en es (M0\<lparr>accepting := False, controllers := cs, startMessagesSent := True\<rparr>)"
    and reach: "masterReaches B en (asyncAccept M0) (M0\<lparr>accepting := False, controllers := cs, startMessagesSent := True\<rparr>)"
    and cs: "map peerHost cs = hosts" "\<forall>c \<in> set cs. peerConnected c \<and> reading c = HeaderRead \<and> pendingWrites c = 3"
    and M0: "finishedControllers M0 = 0" "failedControllers M0 = 0" "\<not> stopped M0" "hosts \<noteq> []"
      "resultProcessor M0 = newResultProcessor t low"
    by (rule started_run [OF assms(3-5)])
  let ?M = "M0\<lparr>accepting := False, controllers := cs, startMessagesSent := True\<rparr>"
  have "length cs = length ns"
    using cs(1) assms(6) by (metis length_map)
  moreover have "ns \<noteq> []"
    using M0(4) assms(6) by auto
  ultimately have "runState en es (map (reportsOf B) ns) ?M"
    using assms(5,6) cs(2) M0(1,3) by (intro delivery_starts [OF assms(7,9)]) simp_all
  from read_phase [OF this reports_push [OF assms(1,2,8)]] obtain M rs where
    M: "eventLoop B en es ?M = Some (Inr M)" "finishedControllers M = nodes (masterWorkload ?M)" "failedControllers M = failedControllers ?M"
    and rs: "mset rs = mset (concat (map (reportsOf B) ns))" "pushReports B rs (resultProcessor ?M) = Inr (resultProcessor M)"
    by blast
  have "assembled en hosts ?M"
    using masterReaches_inv [OF reach readyMaster_inv [OF loadWorkloadFile_ready(1) [OF assms(3)]]] cs(1)
    by (simp add: assembled_def hostsOf_def)
  then have "assembled en hosts M"
    by (rule masterAssembled.inv_reachable [OF eventLoop_reaches [OF M(1), unfolded masterReaches_def]])
  moreover have "masterReaches B en (asyncAccept M0) M"
    using reach eventLoop_reaches [OF M(1)] unfolding masterReaches_def by (rule rtranclp_trans)
  then have "masterRunning B en t (masterWorkload M0) M"
    using assms(3) unfolding masterRunning_def by blast
  ultimately show thesis
    using that [of M rs] loop M M0(2,5) rs by simp
qed

section \<open>Properties\<close>

text \<open>
  C4. A run in which nothing fails collects everything: the controllers connect, are configured and
  started, and each reports what its node measured; in whatever order the reads of the controllers
  interleave, the event loop of the master takes every event, stops with the last one, counts all
  controllers as finished and none as failed, and its figures are the statistics of all durations and all
  success rates that all nodes measured.
\<close>

theorem run_collects_everything:
  assumes "split_documented B" and "time_documented B"
    and "loadWorkloadFile B written k (newDhtperfMaster t low) = Inr M0"
    and "sendableSetup en M0 hosts" and "length hosts = unat (nodes (masterWorkload M0))" and "length ns = length hosts"
    and "completeDelivery B en ns es" and "\<forall>n \<in> set ns. validNode n"
    and "\<forall>n \<in> set ns. \<forall>(type, reported) \<in> set (reportsOf B n). length reported < 4294967000"
    and "\<forall>f \<in> {joinLatency, leaveLatency, putLatency, getLatency}. length (measured f ns) < 2 ^ 64"
  shows "\<exists>M. eventLoop B en (acceptAll hosts @ es) (asyncAccept M0) = Some (Inr M)
    \<and> finishedControllers M = nodes (masterWorkload M0) \<and> failedControllers M = 0
    \<and> figuresOf low ns (resultProcessor M)"
proof -
  have "\<forall>n \<in> set ns. sendableReports B en n"
    using assms(9) short_reports by blast
  from complete_run [OF assms(1-8) this] obtain M rs where
    M: "eventLoop B en (acceptAll hosts @ es) (asyncAccept M0) = Some (Inr M)"
      "finishedControllers M = nodes (masterWorkload M0)" "failedControllers M = 0"
    and rs: "mset rs = mset (concat (map (reportsOf B) ns))" "pushReports B rs (newResultProcessor t low) = Inr (resultProcessor M)"
    by metis
  have "length ns < 2 ^ 64"
    using assms(5,6) unat_u32_bound [of "nodes (masterWorkload M0)"] by simp
  from reports_summarised [OF assms(1,2,8,10) this rs] show ?thesis
    using M by blast
qed

text \<open>Two controllers on one host; the reads of one are interrupted by a write and the reads of the other.\<close>

definition exampleEvents :: "masterEvent list" where
  "exampleEvents =
     (let d = deliveryOfAll LittleEndian 0 (reportsOf refBoost measuredNode)
      in take 1 d @ WriteDone 1 False # deliveryOfAll LittleEndian 1 (reportsOf refBoost measuredNode) @ drop 1 d)"

lemma exampleEvents_complete: "completeDelivery refBoost LittleEndian [measuredNode, measuredNode] exampleEvents"
proof -
  let ?d = "\<lambda>i. deliveryOfAll LittleEndian i (reportsOf refBoost measuredNode)"
  have only: "(readOf j e \<longleftrightarrow> i = j) \<and> \<not> writeOf j e" if "e \<in> set (?d i)" for e i j
    using delivery_events that by blast
  have part: "filter (readOf j) es = (if i = j then es else [])" "filter (writeOf j) es = []" if "set es \<subseteq> set (?d i)" for es i j
    using only that by (auto simp: filter_empty_conv filter_id_conv)
  have sub: "set (take 1 (?d 0)) \<subseteq> set (?d 0)" "set (drop 1 (?d 0)) \<subseteq> set (?d 0)"
    by (rule set_take_subset, rule set_drop_subset)
  note parts = part [OF sub(1)] part [OF sub(2)] part [OF subset_refl, where i = 1]
  have "last exampleEvents \<in> set (?d 0)"
  proof -
    have "drop 1 (?d 0) \<noteq> []"
      by (simp add: reportsOf_def deliveryOfAll_simps)
    then have "last exampleEvents = last (?d 0)"
      unfolding exampleEvents_def Let_def by (simp add: last_drop)
    then show ?thesis using last_in_set [OF delivery_nonempty(1)] by metis
  qed
  moreover have "\<exists>i. (i = 0 \<or> i = 1) \<and> (readOf i e \<or> writeOf i e)" if e: "e \<in> set exampleEvents" for e
  proof -
    from e consider "e \<in> set (?d 0)" | "e = WriteDone 1 False" | "e \<in> set (?d 1)"
      unfolding exampleEvents_def Let_def using sub by auto
    then show ?thesis
      by cases (auto simp: only intro: exI [of _ 0] exI [of _ 1])
  qed
  moreover have "filter (readOf i) exampleEvents = ?d i \<and> length (filter (writeOf i) exampleEvents) \<le> 3" if "i = 0 \<or> i = 1" for i
    using that by (elim disjE) (simp_all add: exampleEvents_def Let_def parts del: One_nat_def)
  moreover have "i < length [measuredNode, measuredNode] \<longleftrightarrow> i = 0 \<or> i = 1" and "i = 0 \<or> i = 1 \<Longrightarrow> [measuredNode, measuredNode] ! i = measuredNode" for i
    by auto
  ultimately show ?thesis
    unfolding completeDelivery_def using only [of "last exampleEvents" 0 0] by fastforce
qed

theorem run_collects_everything_witness:
  "\<exists>M0 M. loadWorkloadFile refBoost (Some (linesText (configLines 2 60 exampleProfiles ''a'' []))) 0 (newDhtperfMaster ''dummy'' False) = Inr M0
     \<and> eventLoop refBoost LittleEndian (acceptAll [''10.0.0.1'', ''10.0.0.1''] @ exampleEvents) (asyncAccept M0) = Some (Inr M)
     \<and> finishedControllers M = 2 \<and> failedControllers M = 0
     \<and> elementCount (generalStatistics (joinLatencies (resultProcessor M))) = 2
     \<and> maxValue (generalStatistics (joinLatencies (resultProcessor M))) = Some 30"
proof -
  obtain W where W: "loadConfig refBoost (Some (linesText (configLines 2 60 exampleProfiles ''a'' []))) 0 newMasterWorkload = Inr (True, W)"
    and n: "nodes W = 2" and prof: "\<And>i. i < 2 \<Longrightarrow> getNodeProfile (of_nat i) W = Inr (''now'', ''none'', ''none'', ''none'')"
    using exampleWorkload by blast
  let ?M0 = "newDhtperfMaster ''dummy'' False\<lparr>masterWorkload := W\<rparr>" and ?hosts = "[''10.0.0.1'', ''10.0.0.1'']"
    and ?ns = "[measuredNode, measuredNode]"
  have load: "loadWorkloadFile refBoost (Some (linesText (configLines 2 60 exampleProfiles ''a'' []))) 0 (newDhtperfMaster ''dummy'' False) = Inr ?M0"
    using W by (simp add: loadWorkloadFile_def newDhtperfMaster_def)
  have ready: "sendableSetup LittleEndian ?M0 ?hosts" and hosts: "length ?hosts = unat (nodes (masterWorkload ?M0))"
    using prof n by (simp_all add: sendableSetup_def newDhtperfMaster_def)
  have valid: "\<forall>n \<in> set ?ns. validNode n"
    and short: "\<forall>n \<in> set ?ns. \<forall>(type, reported) \<in> set (reportsOf refBoost n). length reported < 4294967000"
    using measuredNode_facts(2,3) by simp_all
  have few: "\<forall>f \<in> {joinLatency, leaveLatency, putLatency, getLatency}. length (measured f ?ns) < 2 ^ 64"
    by (simp add: measured_def measuredNode_def newDhtNode_def NodeLatency_push_def push_with_time_def newNodeLatency_def mapEmpty_def)
  have "measured joinLatency ?ns = [30, 30]"
    using measuredNode_facts(1) by (simp add: measured_def)
  with run_collects_everything [OF refBoost_split refBoost_time load ready hosts _ exampleEvents_complete valid short few]
  show ?thesis
    using load n by (force simp: figuresOf_def latencyFigures_def Let_def summarises_def)
qed

end
