(* ===== verification/SystemRun.thy ===== *)
theory SystemRun
  imports WholeRun
begin

text \<open>
  The programs together: a master and its controllers, joined by the bytes of their connections. The
  controllers run \<open>DhtperfController::run\<close> on what the master writes to them, and the master reads what
  they write, in any interleaving.
\<close>

section \<open>Connections\<close>

definition messageBytes :: "endian \<Rightarrow> Message \<Rightarrow> bytes" where
  "messageBytes en m = headerBytes en (messageHeader en m) @ bodyBytes en m"

lemma sent_bytes: "sendable en m \<Longrightarrow> toBits en m = Inr (messageBytes en m)"
  using sendable_bits(1) by (simp add: messageBytes_def)

text \<open>
  The reads of the connection of controller \<open>i\<close> on a stream: eight bytes for a header, then as many as the
  header says. Bytes that do not complete a read are never delivered.
\<close>

function readsOf :: "endian \<Rightarrow> nat \<Rightarrow> bytes \<Rightarrow> masterEvent list" where
  "readsOf en i bs =
     (if length bs < headerSize then []
      else let header = take headerSize bs; rest = drop headerSize bs; n = unat (bodySize (headerOfBytes en header))
           in HeaderDone i (Some header)
              # (if n = 0 then readsOf en i rest
                 else if length rest < n then []
                 else BodyDone i (Some (take n rest)) # readsOf en i (drop n rest)))"
  by pat_completeness auto
termination
  by (relation "measure (\<lambda>(en, i, bs). length bs)") (auto simp: headerSize_def)

declare readsOf.simps [simp del]

lemma readsOf_message:
  assumes "sendable en m"
  shows "readsOf en i (messageBytes en m @ bs) = deliveryOf en i m @ readsOf en i bs"
proof (cases "bodyBytes en m = []")
  case True
  have "unat (bodySize (messageHeader en m)) = 0"
    using sendable_bits(2) [OF assms] True by simp
  then show ?thesis
    using True by (subst readsOf.simps) (simp add: messageBytes_def deliveryOf_def headerSize_def Let_def)
next
  case False
  have "unat (bodySize (messageHeader en m)) = length (bodyBytes en m)"
    using sendable_bits(2) [OF assms] by simp
  then show ?thesis
    using False
    by (subst readsOf.simps) (simp add: messageBytes_def deliveryOf_def headerSize_def Let_def del: bodyBytes.simps messageHeader_simps)
qed

lemma readsOf_nil: "readsOf en i [] = []"
  by (subst readsOf.simps) (simp add: headerSize_def)

text \<open>The messages that a controller writes about its node.\<close>

definition reportMessages :: "'b boost_scheme \<Rightarrow> DhtNode \<Rightarrow> Message list" where
  "reportMessages B n = map (\<lambda>(t, r). Report t r) (reportsOf B n) @ [Finish]"

lemma readsOf_reports:
  assumes "\<forall>m \<in> set (reportMessages B n). sendable en m"
  shows "readsOf en i (concat (map (messageBytes en) (reportMessages B n))) = deliveryOfAll en i (reportsOf B n)"
proof -
  have reads: "readsOf en i (concat (map (messageBytes en) ms)) = concat (map (deliveryOf en i) ms)"
    if "\<forall>m \<in> set ms. sendable en m" for ms
    using that by (induction ms) (simp_all add: readsOf_message readsOf_nil)
  show ?thesis
    unfolding reads [OF assms] by (simp add: reportMessages_def deliveryOfAll_def map_concat comp_def split_def)
qed

lemma reportMessages_sendable: "\<forall>m \<in> set (reportMessages B n). sendable en m \<Longrightarrow> sendableReports B en n"
  by (auto simp: reportMessages_def sendableReports_def)

section \<open>One controller\<close>

lemma writes_result:
  assumes "foldResult (\<lambda>C m. writeMessage writeFails en m C) C ms = Inr C'" and "\<forall>m \<in> set ms. fieldsFit m"
  shows "(\<forall>m \<in> set ms. sendable en m)
    \<and> C' = C\<lparr>toMaster := toMaster C @ concat (map (messageBytes en) ms), writes := writes C + length ms\<rparr>"
  using assms
proof (induction ms arbitrary: C)
  case (Cons m ms)
  obtain C1 where C1: "writeMessage writeFails en m C = Inr C1"
    and rest: "foldResult (\<lambda>C m. writeMessage writeFails en m C) C1 ms = Inr C'"
    using Cons.prems(1) by (auto simp: andThen_Inr_iff)
  obtain bits where bits: "toBits en m = Inr bits" and eq: "C1 = C\<lparr>toMaster := toMaster C @ bits, writes := writes C + 1\<rparr>"
    using C1 by (auto simp: writeMessage_def andThen_Inr_iff)
  have m: "sendable en m"
    using sendable_if_sent [OF bits] Cons.prems(2) by simp
  then have "bits = messageBytes en m"
    using bits sent_bytes by simp
  then show ?case
    using Cons.IH [OF rest] Cons.prems(2) m eq by simp
qed simp

lemma andThen_return: "andThen m Inr = m"
  by (cases m) simp_all

lemma reports_result:
  assumes "andThen (reportResults B writeFails en C) (sendFinishMessage writeFails en) = Inr C'" and "dhtNode C = Some n"
  shows "(\<forall>m \<in> set (reportMessages B n). sendable en m)
    \<and> C' = C\<lparr>toMaster := toMaster C @ concat (map (messageBytes en) (reportMessages B n)), writes := writes C + 7\<rparr>"
proof -
  have "foldResult (\<lambda>C m. writeMessage writeFails en m C) C (reportMessages B n) =
      andThen (reportResults B writeFails en C) (sendFinishMessage writeFails en)"
    by (simp add: reportMessages_def reportsOf_def reportResults_def sendFinishMessage_def [abs_def] getResults_def assms(2) andThen_assoc andThen_return)
  then have "foldResult (\<lambda>C m. writeMessage writeFails en m C) C (reportMessages B n) = Inr C'"
    using assms(1) by simp
  from writes_result [OF this] show ?thesis
    by (simp add: reportMessages_def reportsOf_def)
qed

lemma makeNode_new: "makeNode t fs = Inr (n, fs') \<Longrightarrow> \<exists>b. n = newDhtNode b"
  by (auto simp: makeNode_def newDummyDht_def newKaddemo_def newOpenchord_def newOwdhtshell_def newPastConsole_def
      newWrapperNode_def newDhtNode_def andThen_Inr_iff Let_def split: if_splits)

lemma setProfiles_toMaster: "setProfiles B ps C = Inr C' \<Longrightarrow> toMaster C' = toMaster C"
proof (induction ps arbitrary: C)
  case (Cons p ps)
  obtain op t where p: "p = (op, t)" by (cases p)
  obtain b W k where "setProfiles B ps (C\<lparr>profile := W, draws := k\<rparr>) = Inr C'"
    using Cons.prems by (auto simp: p setProfiles_simps andThen_Inr_iff)
  from Cons.IH [OF this] show ?case by simp
qed (simp add: setProfiles_simps)

lemma profileFor_duration: "profileFor op (W\<lparr>duration := d\<rparr>) = profileFor op W"
  by (cases op) simp_all

lemma setProfiles_ok:
  assumes "setProfiles B [(Join, j), (Leave, l), (Put, p), (Get, g)] C = Inr C'"
  shows "workloadOk (profile C')"
proof -
  obtain PJ PL PP PG k1 k2 k3 k4 where
    P: "makeProfile B Join j (draws C) = Inr (PJ, k1)" "makeProfile B Leave l k1 = Inr (PL, k2)"
      "makeProfile B Put p k2 = Inr (PP, k3)" "makeProfile B Get g k3 = Inr (PG, k4)"
    and C': "profile C' = storeProfile Get PG (storeProfile Put PP (storeProfile Leave PL (storeProfile Join PJ (profile C))))"
    using assms by (auto simp: setProfiles_simps setProfile_def andThen_Inr_iff)
  have "holdsProfile op (profile C')" for op
    using P [THEN makeProfile_ok] by (cases op) (simp_all add: holdsProfile_def C')
  then show ?thesis by (simp add: workloadOk_def)
qed

text \<open>Whatever the master sends: the state in which the event loop starts is well formed.\<close>

lemma configured_state:
  assumes "getDhtType en C = Inr C1" and "Controller_getProfile B en C1 = Inr C2" and "waitForStartMessage en C2 = Inr C3"
  shows "\<exists>n1 n. dhtNode C1 = Some n1 \<and> dhtNode C3 = Some n \<and> nodeOk n \<and> backend n = backend n1 \<and> workloadOk (profile C3)"
proof -
  obtain t n1 fs' where "makeNode t (files C) = Inr (n1, fs')" and n1: "dhtNode C1 = Some n1"
    using assms(1) by (auto simp: getDhtType_def andThen_Inr_iff split_def)
  then obtain b where b: "n1 = newDhtNode b"
    using makeNode_new by blast
  obtain j l p g C0 where set: "setProfiles B [(Join, j), (Leave, l), (Put, p), (Get, g)] C0 = Inr C2" and C0: "dhtNode C0 = dhtNode C1"
    using assms(2) by (auto simp: Controller_getProfile_def andThen_Inr_iff split_def)
  have n2: "dhtNode C2 = Some n1"
    using setProfiles_dhtNode [OF set] C0 n1 by simp
  obtain d h eo so where C3: "dhtNode C3 = Some (setSelfPortOffset so (setEntryPoint h eo n1))" "profile C3 = setDuration d (profile C2)"
    using assms(3) n2 by (auto simp: waitForStartMessage_def andThen_Inr_iff split_def Let_def)
  have "nodeOk (setSelfPortOffset so (setEntryPoint h eo n1))" "backend (setSelfPortOffset so (setEntryPoint h eo n1)) = backend n1"
    using newDhtNode_ok [of b] by (simp_all add: b nodeOk_defs setSelfPortOffset_def setEntryPoint_def)
  moreover have "workloadOk (profile C3)"
    using setProfiles_ok [OF set] by (simp add: C3 workloadOk_def holdsProfile_def setDuration_def profileFor_duration)
  ultimately show ?thesis
    using n1 C3 by blast
qed

text \<open>What the master writes to controller \<open>i\<close> when the hosts of the controllers are \<open>hosts\<close>.\<close>

definition configurationOf :: "endian \<Rightarrow> DhtperfMaster \<Rightarrow> string list \<Rightarrow> nat \<Rightarrow> bytes" where
  "configurationOf en M hosts i =
     (case getNodeProfile (of_nat i) (masterWorkload M) of
        Inl err \<Rightarrow> []
      | Inr (j, l, p, g) \<Rightarrow> concat (map (messageBytes en)
          [DhtType (masterDhtType M), Profile j l p g,
           Start (workloadDuration (masterWorkload M)) (if i = 0 then '''' else hosts ! 0) 0
             (of_nat (earlierOnHost hosts i))]))"

text \<open>
  A run of the controller program that returns: its node is of the class that the factory makes for the
  type that the master sent, it has the duration of the workload, and it has written the reports of its
  node and \<open>Finish\<close>.
\<close>

lemma controller_run:
  assumes "run B E left writeFails en resolved (newDhtperfController input w fs) = Some (Inr C')"
    and input: "input = concat (map (messageBytes en) [DhtType t, Profile j l p g, Start d h eo so])"
    and ok: "sendable en (DhtType t)" "sendable en (Profile j l p g)" "sendable en (Start d h eo so)"
  shows "\<exists>n b fs'. makeNode t fs = Inr (newDhtNode b, fs') \<and> dhtNode C' = Some n \<and> nodeOk n \<and> backend n = b
    \<and> (\<forall>m \<in> set (reportMessages B n). sendable en m) \<and> duration (profile C') = d
    \<and> toMaster C' = concat (map (messageBytes en) (reportMessages B n))"
proof -
  let ?C = "newDhtperfController input w fs"
  obtain C1 C2 where conf: "readConfiguration B en ?C = Inr C1" and st: "start B E left C1 = Some (Inr C2)"
    and rep: "andThen (reportResults B writeFails en C2) (sendFinishMessage writeFails en) = Inr C'"
    using assms(1) by (auto simp: run_def thenRun_Inr_iff readConfiguration_def)
  have "fromMaster ?C = messageBytes en (DhtType t) @ messageBytes en (Profile j l p g) @ messageBytes en (Start d h eo so)"
    by (simp add: newDhtperfController_def input)
  from readConfiguration_sent [OF ok(1) sent_bytes [OF ok(1)] ok(2) sent_bytes [OF ok(2)] ok(3) sent_bytes [OF ok(3)] this, of B] conf
  obtain n0 fs' C3 where n0: "makeNode t fs = Inr (n0, fs')"
    and C3: "setProfiles B [(Join, j), (Leave, l), (Put, p), (Get, g)] (?C\<lparr>dhtNode := Some n0, files := fs', fromMaster := []\<rparr>) = Inr C3"
    and C1: "C1 = C3\<lparr>profile := setDuration d (profile C3), dhtNode := Some (setSelfPortOffset so (setEntryPoint h eo n0))\<rparr>"
    by (auto simp: andThen_Inr_iff newDhtperfController_def)
  obtain b where b: "n0 = newDhtNode b"
    using makeNode_new [OF n0] by blast
  let ?n1 = "setSelfPortOffset so (setEntryPoint h eo n0)"
  have n1: "nodeOk ?n1" "backend ?n1 = b"
    using newDhtNode_ok [of b] by (simp_all add: b nodeOk_defs setSelfPortOffset_def setEntryPoint_def) (simp add: newDhtNode_def)
  have "workloadOk (profile C1)"
    using setProfiles_ok [OF C3] by (simp add: C1 workloadOk_def holdsProfile_def setDuration_def profileFor_duration)
  moreover have "dhtNode C1 = Some ?n1" "duration (profile C1) = d" "toMaster C1 = []"
    using setProfiles_toMaster [OF C3] by (simp_all add: C1 setDuration_def newDhtperfController_def)
  ultimately obtain n where n: "dhtNode C2 = Some n" "nodeOk n" "backend n = b"
    and C2: "duration (profile C2) = d" "toMaster C2 = []"
    using start_result(1,3,4) [OF st, of ?n1] n1 by auto
  from reports_result [OF rep n(1)] show ?thesis
    using n0 b n C2 by auto
qed

section \<open>All programs\<close>

text \<open>
  The events of the loop after the last connection: the reads of connection \<open>i\<close> are those of the stream
  that controller \<open>i\<close> wrote, and of the three writes to it some or all complete; the connections are
  interleaved in any way.
\<close>

definition arriveFrom :: "endian \<Rightarrow> nat \<Rightarrow> (nat \<Rightarrow> bytes) \<Rightarrow> masterEvent list \<Rightarrow> bool" where
  "arriveFrom en n out es \<longleftrightarrow>
     (\<forall>i < n. filter (readOf i) es = readsOf en i (out i) \<and> length (filter (writeOf i) es) \<le> 3)
     \<and> (\<forall>e \<in> set es. \<exists>i < n. readOf i e \<or> writeOf i e) \<and> (\<exists>i < n. readOf i (last es))"

lemma configuration_sendable:
  assumes "sendableSetup en M hosts" and "i < unat (nodes (masterWorkload M))" and "length hosts = unat (nodes (masterWorkload M))"
    and "\<forall>j l p g. getNodeProfile (of_nat i) (masterWorkload M) = Inr (j, l, p, g) \<longrightarrow> (\<forall>x \<in> {j, l, p, g}. length x < 2147483648)"
  obtains j l p g where "getNodeProfile (of_nat i) (masterWorkload M) = Inr (j, l, p, g)"
    and "sendable en (DhtType (masterDhtType M))" and "sendable en (Profile j l p g)"
    and "sendable en (Start d (if i = 0 then '''' else hosts ! 0) 0 so)"
proof -
  obtain j l p g where prof: "getNodeProfile (of_nat i) (masterWorkload M) = Inr (j, l, p, g)"
    and small: "length (bodyBytes en (Profile j l p g)) < 4294967296"
    using assms(1,2) unfolding sendableSetup_def by blast
  have "sendable en (DhtType (masterDhtType M))"
    using assms(1) by (simp add: sendableSetup_def sendable_def)
  moreover have "sendable en (Profile j l p g)"
    using small assms(4) prof by (simp add: sendable_def)
  moreover have "sendable en (Start d (if i = 0 then '''' else hosts ! 0) 0 so)"
  proof -
    have "hosts ! 0 \<in> set hosts" using assms(2,3) by (intro nth_mem) simp
    then have "length (hosts ! 0) < 4294967288" using assms(1) by (simp add: sendableSetup_def)
    then show ?thesis by (simp add: sendable_def)
  qed
  ultimately show thesis using that prof by blast
qed

lemma configuration_written:
  assumes "masterRunning B en (masterDhtType M0) (masterWorkload M0) M" and "assembled en hosts M" and "i < length (controllers M)"
    and "getNodeProfile (of_nat i) (masterWorkload M0) = Inr (j, l, p, g)"
    and "sendable en (DhtType (masterDhtType M0))" and "sendable en (Profile j l p g)"
    and "sendable en (Start (workloadDuration (masterWorkload M0)) (if i = 0 then '''' else hosts ! 0) 0 (of_nat (earlierOnHost hosts i)))"
  shows "concat (writesStarted (controllers M ! i)) = configurationOf en M0 hosts i"
proof -
  let ?ms = "[DhtType (masterDhtType M0), Profile j l p g, Start (workloadDuration (masterWorkload M0))
    (if i = 0 then '''' else hosts ! 0) 0 (of_nat (earlierOnHost hosts i))]"
  have "startMessagesSent M" and hosts: "hostsOf M = hosts"
    using assms(2) by (simp_all add: assembled_def)
  have "0 < length (controllers M)" using assms(3) by linarith
  then have first: "peerHost (controllers M ! 0) = hosts ! 0"
    using hostsOf_nth [of 0 M] hosts by simp
  from controllers_configured [OF assms(1) \<open>startMessagesSent M\<close> assms(3)]
  have "map Inr (writesStarted (controllers M ! i)) = map (toBits en) ?ms"
    using assms(4) unfolding hosts first by auto
  also have "\<dots> = map Inr (map (messageBytes en) ?ms)"
    using assms(5-7) [THEN sent_bytes] by (simp del: toBits.simps)
  finally have "writesStarted (controllers M ! i) = map (messageBytes en) ?ms"
    by (rule map_injective) (simp add: inj_def)
  then show ?thesis
    using assms(4) by (simp add: configurationOf_def)
qed

text \<open>Every controller is configured as the workload says, and writes what its node measured.\<close>

lemma controllers_ran:
  assumes "loadWorkloadFile B written k (newDhtperfMaster t low) = Inr M0"
    and "sendableSetup en M0 hosts" and "length hosts = unat (nodes (masterWorkload M0))"
    and "\<forall>i < length hosts. \<forall>j l p g. getNodeProfile (of_nat i) (masterWorkload M0) = Inr (j, l, p, g) \<longrightarrow>
      (\<forall>x \<in> {j, l, p, g}. length x < 2147483648)"
    and "run B E left writeFails en resolved (newDhtperfController (configurationOf en M0 hosts i) w fs) = Some (Inr C)"
    and "i < length hosts"
  shows "\<exists>j l p g. getNodeProfile (of_nat i) (masterWorkload M0) = Inr (j, l, p, g)
      \<and> sendable en (DhtType t) \<and> sendable en (Profile j l p g)
      \<and> sendable en (Start (workloadDuration (masterWorkload M0)) (if i = 0 then '''' else hosts ! 0) 0 (of_nat (earlierOnHost hosts i)))"
    and "\<exists>n. dhtNode C = Some n \<and> nodeOk n \<and> (\<exists>fs'. makeNode t fs = Inr (newDhtNode (backend n), fs'))
      \<and> (\<forall>m \<in> set (reportMessages B n). sendable en m) \<and> duration (profile C) = workloadDuration (masterWorkload M0)
      \<and> toMaster C = concat (map (messageBytes en) (reportMessages B n))"
proof -
  have t: "masterDhtType M0 = t"
    by (rule loadWorkloadFile_ready(2) [OF assms(1)])
  show sent: "\<exists>j l p g. getNodeProfile (of_nat i) (masterWorkload M0) = Inr (j, l, p, g)
      \<and> sendable en (DhtType t) \<and> sendable en (Profile j l p g)
      \<and> sendable en (Start (workloadDuration (masterWorkload M0)) (if i = 0 then '''' else hosts ! 0) 0 (of_nat (earlierOnHost hosts i)))"
    by (rule configuration_sendable [OF assms(2) _ assms(3), of i]) (use assms(3,4,6) t in auto)
  then obtain j l p g where s: "getNodeProfile (of_nat i) (masterWorkload M0) = Inr (j, l, p, g)" "sendable en (DhtType t)"
    "sendable en (Profile j l p g)" "sendable en (Start (workloadDuration (masterWorkload M0)) (if i = 0 then '''' else hosts ! 0) 0 (of_nat (earlierOnHost hosts i)))"
    by blast
  show "\<exists>n. dhtNode C = Some n \<and> nodeOk n \<and> (\<exists>fs'. makeNode t fs = Inr (newDhtNode (backend n), fs'))
      \<and> (\<forall>m \<in> set (reportMessages B n). sendable en m) \<and> duration (profile C) = workloadDuration (masterWorkload M0)
      \<and> toMaster C = concat (map (messageBytes en) (reportMessages B n))"
    using controller_run [OF assms(5) _ s(2-4)] s(1) by (fastforce simp: configurationOf_def t)
qed

lemma system_core:
  assumes "split_documented B" and "time_documented B"
    and "loadWorkloadFile B written k (newDhtperfMaster t low) = Inr M0"
    and "sendableSetup en M0 hosts" and "length hosts = unat (nodes (masterWorkload M0))"
    and "\<forall>i < length hosts. \<forall>j l p g. getNodeProfile (of_nat i) (masterWorkload M0) = Inr (j, l, p, g) \<longrightarrow>
      (\<forall>x \<in> {j, l, p, g}. length x < 2147483648)"
    and "\<forall>i < length hosts. run B (E i) (left i) (writeFails i) en (resolved i)
      (newDhtperfController (configurationOf en M0 hosts i) (w i) (fs i)) = Some (Inr (C i))"
    and "arriveFrom en (length hosts) (\<lambda>i. toMaster (C i)) es"
    and "ns = map (\<lambda>i. the (dhtNode (C i))) [0..<length hosts]"
    and "\<forall>f \<in> {joinLatency, leaveLatency, putLatency, getLatency}. length (measured f ns) < 2 ^ 64"
  shows "\<exists>M. eventLoop B en (acceptAll hosts @ es) (asyncAccept M0) = Some (Inr M)
    \<and> finishedControllers M = nodes (masterWorkload M0) \<and> failedControllers M = 0
    \<and> figuresOf low ns (resultProcessor M)
    \<and> masterWorkload M = masterWorkload M0 \<and> resultDhtType (resultProcessor M) = t
    \<and> (\<forall>i < length hosts. concat (writesStarted (controllers M ! i)) = configurationOf en M0 hosts i
         \<and> (\<exists>fs'. makeNode t (fs i) = Inr (newDhtNode (backend (ns ! i)), fs')) \<and> nodeOk (ns ! i)
         \<and> duration (profile (C i)) = workloadDuration (masterWorkload M0))"
proof -
  note controller = controllers_ran [OF assms(3-6) assms(7) [rule_format]]
  have ran: "dhtNode (C i) = Some (ns ! i) \<and> nodeOk (ns ! i) \<and> (\<exists>fs'. makeNode t (fs i) = Inr (newDhtNode (backend (ns ! i)), fs'))
      \<and> (\<forall>m \<in> set (reportMessages B (ns ! i)). sendable en m) \<and> duration (profile (C i)) = workloadDuration (masterWorkload M0)
      \<and> toMaster (C i) = concat (map (messageBytes en) (reportMessages B (ns ! i)))"
    if "i < length hosts" for i
    using controller(2) [OF that that] that by (auto simp: assms(9))
  have len: "length ns = length hosts" by (simp add: assms(9))
  have node: "validNode n \<and> sendableReports B en n" if n: "n \<in> set ns" for n
  proof -
    obtain i where i: "i < length hosts" "n = ns ! i" using n len by (metis in_set_conv_nth)
    then show ?thesis using ran [OF i(1)] reportMessages_sendable [of B "ns ! i" en] unfolding nodeOk_def by blast
  qed
  have valid: "\<forall>n \<in> set ns. validNode n" and sendable: "\<forall>n \<in> set ns. sendableReports B en n"
    using node by blast+
  have "readsOf en i (toMaster (C i)) = deliveryOfAll en i (reportsOf B (ns ! i))" if "i < length hosts" for i
    using ran [OF that] readsOf_reports [of B "ns ! i" en i] by metis
  then have "completeDelivery B en ns es"
    using assms(8) unfolding completeDelivery_def arriveFrom_def len by simp
  from complete_run [OF assms(1-5) len this valid sendable] obtain M rs where
    M: "eventLoop B en (acceptAll hosts @ es) (asyncAccept M0) = Some (Inr M)"
      "finishedControllers M = nodes (masterWorkload M0)" "failedControllers M = 0"
    and rs: "mset rs = mset (concat (map (reportsOf B) ns))" "pushReports B rs (newResultProcessor t low) = Inr (resultProcessor M)"
    and asm: "assembled en hosts M" and running: "masterRunning B en t (masterWorkload M0) M"
    by metis
  have "length ns < 2 ^ 64"
    using assms(5) len unat_u32_bound [of "nodes (masterWorkload M0)"] by simp
  then have figures: "figuresOf low ns (resultProcessor M)"
    by (rule reports_summarised [OF assms(1,2) valid assms(10) _ rs])
  have t: "masterDhtType M0 = t"
    by (rule loadWorkloadFile_ready(2) [OF assms(3)])
  have "length (controllers M) = length hosts"
    using asm by (auto simp: assembled_def hostsOf_def)
  then have "concat (writesStarted (controllers M ! i)) = configurationOf en M0 hosts i" if "i < length hosts" for i
    using controller(1) [OF that that] configuration_written [OF running [folded t] asm, of i] that t by auto
  moreover have "resultDhtType (resultProcessor M) = t"
    using pushReports_dhtType [OF rs(2)] by (simp add: newResultProcessor_def Let_def)
  ultimately show ?thesis
    using M figures ran masterRunning_facts(2) [OF running] by blast
qed

section \<open>An example\<close>

lemma readsOf_only: "\<forall>e \<in> set (readsOf en i bs). (readOf j e \<longleftrightarrow> i = j) \<and> \<not> writeOf j e"
proof (induction en i bs rule: readsOf.induct)
  case (1 en i bs)
  then show ?case
    by (subst readsOf.simps) (auto simp: Let_def split: if_splits)
qed

lemma arrive_in_turn:
  assumes "readsOf en 1 (out 1) \<noteq> []"
  shows "arriveFrom en 2 out (readsOf en 0 (out 0) @ readsOf en 1 (out 1))"
proof -
  have only: "(readOf j e \<longleftrightarrow> i = j) \<and> \<not> writeOf j e" if "e \<in> set (readsOf en i (out i))" for e i j
    using readsOf_only that by blast
  then have parts: "filter (readOf j) (readsOf en i (out i)) = (if i = j then readsOf en i (out i) else [])"
    "filter (writeOf j) (readsOf en i (out i)) = []" for i j
    by (auto simp: filter_empty_conv filter_id_conv)
  let ?es = "readsOf en 0 (out 0) @ readsOf en 1 (out 1)"
  have all: "\<exists>i < 2. readOf i e" if "e \<in> set ?es" for e
  proof -
    from that consider "readOf 0 e" | "readOf 1 e"
      using only by (auto simp del: One_nat_def)
    then show ?thesis
      by cases (auto intro: exI [of _ 0] exI [of _ 1])
  qed
  moreover have "?es \<noteq> []"
    using assms by simp
  then have "last ?es \<in> set ?es"
    by (rule last_in_set)
  then have "\<exists>i < 2. readOf i (last ?es)"
    by (rule all)
  moreover have "filter (readOf i) ?es = readsOf en i (out i) \<and> length (filter (writeOf i) ?es) \<le> 3" if "i < 2" for i
    using that by (cases i) (auto simp: parts less_Suc_eq)
  ultimately show ?thesis
    unfolding arriveFrom_def by blast
qed

lemma run_phases:
  "run B E left writeFails en resolved C =
     thenRun (Some (connect resolved)) (\<lambda>_. thenRun (Some (readConfiguration B en C)) (\<lambda>C.
     thenRun (start B E left C) (\<lambda>C. Some (andThen (reportResults B writeFails en C) (sendFinishMessage writeFails en)))))"
  by (simp add: run_def readConfiguration_def thenRun_def andThen_def split: sum.splits option.splits)

definition exampleEnvironment :: environment where
  "exampleEnvironment = \<lparr>clock = (\<lambda>i. 30 * int i), peerReply = (\<lambda>host port. None)\<rparr>"

definition exampleTimer :: "nat \<Rightarrow> int" where
  "exampleTimer i = 60000000 - int i * 29900000"

definition exampleFiles :: fileSystem where
  "exampleFiles = files (quietController 0)"

text \<open>The part of the run between the configuration and the reports, for controller \<open>i\<close>.\<close>

definition exampleStart :: "nat \<Rightarrow> DhtperfController result option" where
  "exampleStart i = thenRun (Some (setProfiles refBoost [(Join, ''exact 1''), (Leave, ''none''), (Put, ''none''), (Get, ''none'')]
       ((newDhtperfController [] quietWorld exampleFiles)\<lparr>dhtNode := Some (newDhtNode DummyDht)\<rparr>)))
     (\<lambda>C. start refBoost exampleEnvironment exampleTimer
       (C\<lparr>profile := setDuration 60 (profile C), dhtNode := Some (setSelfPortOffset (of_nat i)
         (setEntryPoint (if i = 0 then '''' else ''10.0.0.1'') 0 (newDhtNode DummyDht)))\<rparr>))"

definition exampleNodeOk :: "DhtperfController result option \<Rightarrow> bool" where
  "exampleNodeOk r = (case r of
     Some (Inr C) \<Rightarrow> (case dhtNode C of
       Some n \<Rightarrow> measurements (joinLatency n) = [(60, 30)] \<and> measurements (leaveLatency n) = []
         \<and> measurements (putLatency n) = [] \<and> measurements (getLatency n) = []
         \<and> list_all (\<lambda>p. length (snd p) < 1000) (reportsOf refBoost n)
     | None \<Rightarrow> False)
   | _ \<Rightarrow> False)"

lemma exampleStart_ends: "exampleNodeOk (exampleStart 0)" "exampleNodeOk (exampleStart 1)"
  by code_simp+

lemma example_controller:
  assumes "i < 2" and "input = concat (map (messageBytes LittleEndian)
      [DhtType ''dummy'', Profile ''exact 1'' ''none'' ''none'' ''none'', Start 60 (if i = 0 then '''' else ''10.0.0.1'') 0 (of_nat i)])"
  shows "\<exists>C n. run refBoost exampleEnvironment exampleTimer (\<lambda>k. False) LittleEndian (Some [True])
        (newDhtperfController input quietWorld exampleFiles) = Some (Inr C) \<and> dhtNode C = Some n
      \<and> measurements (joinLatency n) = [(60, 30)] \<and> measurements (leaveLatency n) = []
      \<and> measurements (putLatency n) = [] \<and> measurements (getLatency n) = []
      \<and> readsOf LittleEndian i (toMaster C) \<noteq> []"
proof -
  let ?C0 = "newDhtperfController input quietWorld exampleFiles"
  let ?h = "if i = 0 then '''' else ''10.0.0.1''"
  have "exampleNodeOk (exampleStart i)"
    using exampleStart_ends assms(1) by (cases i) (auto simp: less_Suc_eq numeral_2_eq_2)
  then obtain C n where C: "exampleStart i = Some (Inr C)" and n: "dhtNode C = Some n"
    and m: "measurements (joinLatency n) = [(60, 30)]" "measurements (leaveLatency n) = []"
      "measurements (putLatency n) = []" "measurements (getLatency n) = []"
    and short: "\<forall>p \<in> set (reportsOf refBoost n). length (snd p) < 1000"
    by (auto simp: exampleNodeOk_def list_all_iff split: option.splits sum.splits)
  obtain C1 where C1: "setProfiles refBoost [(Join, ''exact 1''), (Leave, ''none''), (Put, ''none''), (Get, ''none'')]
      ((newDhtperfController [] quietWorld exampleFiles)\<lparr>dhtNode := Some (newDhtNode DummyDht)\<rparr>) = Inr C1"
    and st: "start refBoost exampleEnvironment exampleTimer (C1\<lparr>profile := setDuration 60 (profile C1),
      dhtNode := Some (setSelfPortOffset (of_nat i) (setEntryPoint ?h 0 (newDhtNode DummyDht)))\<rparr>) = Some (Inr C)"
    using C by (auto simp: exampleStart_def thenRun_Inr_iff)
  have ok: "sendable LittleEndian (DhtType ''dummy'')" "sendable LittleEndian (Profile ''exact 1'' ''none'' ''none'' ''none'')"
    "sendable LittleEndian (Start 60 ?h 0 (of_nat i))"
    by (simp_all add: sendable_def)
  have "fromMaster ?C0 = messageBytes LittleEndian (DhtType ''dummy'')
      @ messageBytes LittleEndian (Profile ''exact 1'' ''none'' ''none'' ''none'') @ messageBytes LittleEndian (Start 60 ?h 0 (of_nat i))"
    by (simp add: newDhtperfController_def assms(2) del: bodyBytes.simps)
  from readConfiguration_sent [OF ok(1) sent_bytes [OF ok(1)] ok(2) sent_bytes [OF ok(2)] ok(3) sent_bytes [OF ok(3)] this, of refBoost]
  have conf: "readConfiguration refBoost LittleEndian ?C0 = Inr (C1\<lparr>profile := setDuration 60 (profile C1),
      dhtNode := Some (setSelfPortOffset (of_nat i) (setEntryPoint ?h 0 (newDhtNode DummyDht)))\<rparr>)"
    using C1 by (simp add: makeNode_def newDummyDht_def newDhtperfController_def)
  have "\<forall>(type, reported) \<in> set (reportsOf refBoost n). sendable LittleEndian (Report type reported)"
    using short by (simp add: reportsOf_def sendable_def)
  from reports_written [OF n _ this, of "\<lambda>k. False" 0]
  obtain C' where C': "andThen (reportResults refBoost (\<lambda>k. False) LittleEndian C) (sendFinishMessage (\<lambda>k. False) LittleEndian) = Inr C'"
    "dhtNode C' = Some n"
    using n by simp
  have "connect (Some [True]) = Inr ()"
    by (simp add: connect_def require_def)
  then have ran: "run refBoost exampleEnvironment exampleTimer (\<lambda>k. False) LittleEndian (Some [True]) ?C0 = Some (Inr C')"
    using conf st C'(1) by (simp add: run_phases)
  have "readsOf LittleEndian i (toMaster C') \<noteq> []"
    using controller_run [OF ran assms(2) ok] readsOf_reports by fastforce
  then show ?thesis
    using ran C'(2) m by blast
qed

lemma exampleSystem:
  "\<exists>M0. loadWorkloadFile refBoost (Some (linesText (configLines 2 60 exampleProfiles ''b'' []))) 0 (newDhtperfMaster ''dummy'' False) = Inr M0
     \<and> nodes (masterWorkload M0) = 2 \<and> workloadDuration (masterWorkload M0) = 60 \<and> masterDhtType M0 = ''dummy''
     \<and> (\<forall>i < 2. getNodeProfile (of_nat i) (masterWorkload M0) = Inr (''exact 1'', ''none'', ''none'', ''none''))"
proof -
  have b: "''b'' \<in> fst ` set exampleProfiles"
    by (simp add: exampleProfiles_def)
  obtain W where W: "loadConfig refBoost (Some (linesText (configLines 2 60 exampleProfiles ''b'' []))) 0 newMasterWorkload = Inr (True, W)"
    and n: "nodes W = 2" "workloadDuration W = 60" and st: "store W = map storedProfile exampleProfiles"
    and np: "\<And>i. i < unat (2 :: u32) \<Longrightarrow> mapFind (nodeProfiles W) (of_nat i) = Some (chosenProfile ''b'' [] (of_nat i))"
    and at: "\<And>k. k < length exampleProfiles \<Longrightarrow> mapFind (profiles W) (fst (exampleProfiles ! k)) = Some k"
    by (rule written_config_loads [OF refBoost_regex refBoost_cast _ _ exampleProfiles_good(1,2) b, of 2 60 "[]"]) simp_all
  have "getNodeProfile (of_nat i) W = Inr (''exact 1'', ''none'', ''none'', ''none'')" if "i < 2" for i
    using np [of i] at [of 1] st that
    by (simp add: getNodeProfile_def mapAt_def chosenProfile_def vectorAt_def exampleProfiles_def MasterProfile_getProfile_def)
  then show ?thesis
    using W n by (intro exI [of _ "newDhtperfMaster ''dummy'' False\<lparr>masterWorkload := W\<rparr>"])
      (simp add: loadWorkloadFile_def newDhtperfMaster_def)
qed

text \<open>Two nodes on one host, one after the other; all that the properties ask of a system.\<close>

lemma exampleSystem_runs:
  obtains M0 C and N :: "nat \<Rightarrow> DhtNode" and es where
    "loadWorkloadFile refBoost (Some (linesText (configLines 2 60 exampleProfiles ''b'' []))) 0 (newDhtperfMaster ''dummy'' False) = Inr M0"
    and "sendableSetup LittleEndian M0 [''10.0.0.1'', ''10.0.0.1'']" and "length [''10.0.0.1'', ''10.0.0.1''] = unat (nodes (masterWorkload M0))"
    and "\<forall>i < length [''10.0.0.1'', ''10.0.0.1'']. \<forall>j l p g. getNodeProfile (of_nat i) (masterWorkload M0) = Inr (j, l, p, g) \<longrightarrow>
      (\<forall>x \<in> {j, l, p, g}. length x < 2147483648)"
    and "\<forall>i < length [''10.0.0.1'', ''10.0.0.1'']. run refBoost exampleEnvironment exampleTimer (\<lambda>k. False) LittleEndian (Some [True])
      (newDhtperfController (configurationOf LittleEndian M0 [''10.0.0.1'', ''10.0.0.1''] i) quietWorld exampleFiles) = Some (Inr (C i))"
    and "arriveFrom LittleEndian (length [''10.0.0.1'', ''10.0.0.1'']) (\<lambda>i. toMaster (C i)) es"
    and "[N 0, N 1] = map (\<lambda>i. the (dhtNode (C i))) [0..<length [''10.0.0.1'', ''10.0.0.1'']]"
    and "\<forall>f \<in> {joinLatency, leaveLatency, putLatency, getLatency}. length (measured f [N 0, N 1]) < 2 ^ 64"
    and "measured joinLatency [N 0, N 1] = [30, 30]"
    and "\<forall>f \<in> {joinLatency, leaveLatency, putLatency, getLatency}. \<forall>d \<in> set (measured f [N 0, N 1]). 0 \<le> d"
proof -
  let ?hosts = "[''10.0.0.1'', ''10.0.0.1'']" and ?B = refBoost and ?en = LittleEndian
  obtain M0 where load: "loadWorkloadFile ?B (Some (linesText (configLines 2 60 exampleProfiles ''b'' []))) 0 (newDhtperfMaster ''dummy'' False) = Inr M0"
    and M0: "nodes (masterWorkload M0) = 2" "workloadDuration (masterWorkload M0) = 60" "masterDhtType M0 = ''dummy''"
    and prof: "\<And>i. i < 2 \<Longrightarrow> getNodeProfile (of_nat i) (masterWorkload M0) = Inr (''exact 1'', ''none'', ''none'', ''none'')"
    using exampleSystem by blast
  have ready: "sendableSetup ?en M0 ?hosts" and hosts: "length ?hosts = unat (nodes (masterWorkload M0))"
    using prof M0 by (simp_all add: sendableSetup_def)
  have texts: "\<forall>i < length ?hosts. \<forall>j l p g. getNodeProfile (of_nat i) (masterWorkload M0) = Inr (j, l, p, g) \<longrightarrow>
      (\<forall>x \<in> {j, l, p, g}. length x < 2147483648)"
    using prof by simp
  have "configurationOf ?en M0 ?hosts i = concat (map (messageBytes ?en)
      [DhtType ''dummy'', Profile ''exact 1'' ''none'' ''none'' ''none'', Start 60 (if i = 0 then '''' else ''10.0.0.1'') 0 (of_nat i)])"
    if "i < 2" for i
    using prof [OF that] M0 that
    by (auto simp: configurationOf_def earlierOnHost_def less_Suc_eq numeral_2_eq_2)
  then have "\<forall>i \<in> {..<2}. \<exists>C n. run ?B exampleEnvironment exampleTimer (\<lambda>k. False) ?en (Some [True])
        (newDhtperfController (configurationOf ?en M0 ?hosts i) quietWorld exampleFiles) = Some (Inr C) \<and> dhtNode C = Some n
      \<and> measurements (joinLatency n) = [(60, 30)] \<and> measurements (leaveLatency n) = []
      \<and> measurements (putLatency n) = [] \<and> measurements (getLatency n) = [] \<and> readsOf ?en i (toMaster C) \<noteq> []"
    using example_controller by simp
  then obtain C N where C: "\<forall>i < length ?hosts. run ?B exampleEnvironment exampleTimer (\<lambda>k. False) ?en (Some [True])
        (newDhtperfController (configurationOf ?en M0 ?hosts i) quietWorld exampleFiles) = Some (Inr (C i))"
    and N: "\<And>i. i < 2 \<Longrightarrow> dhtNode (C i) = Some (N i) \<and> measurements (joinLatency (N i)) = [(60, 30)]
      \<and> measurements (leaveLatency (N i)) = [] \<and> measurements (putLatency (N i)) = [] \<and> measurements (getLatency (N i)) = []
      \<and> readsOf ?en i (toMaster (C i)) \<noteq> []"
    unfolding bchoice_iff by (auto simp: numeral_2_eq_2)
  let ?es = "readsOf ?en 0 (toMaster (C 0)) @ readsOf ?en 1 (toMaster (C 1))"
  have arrive: "arriveFrom ?en 2 (\<lambda>i. toMaster (C i)) ?es"
    using arrive_in_turn [of ?en "\<lambda>i. toMaster (C i)"] N [of 1] by simp
  have few: "\<forall>f \<in> {joinLatency, leaveLatency, putLatency, getLatency}. length (measured f [N 0, N 1]) < 2 ^ 64"
    using N [of 0] N [of 1] by (simp add: measured_def)
  have ns: "[N 0, N 1] = map (\<lambda>i. the (dhtNode (C i))) [0..<length ?hosts]"
    using N [of 0] N [of 1] by simp
  have arrive': "arriveFrom ?en (length ?hosts) (\<lambda>i. toMaster (C i)) ?es"
    using arrive by (simp add: numeral_2_eq_2)
  have joins: "measured joinLatency [N 0, N 1] = [30, 30]"
    using N [of 0] N [of 1] by (simp add: measured_def)
  have "\<forall>f \<in> {joinLatency, leaveLatency, putLatency, getLatency}. \<forall>d \<in> set (measured f [N 0, N 1]). 0 \<le> d"
    using N [of 0] N [of 1] by (simp add: measured_def)
  from that [OF load ready hosts texts C arrive' ns few joins this] show thesis .
qed

section \<open>Properties\<close>





end
