(* ===== verification/ResultFiles.thy ===== *)
theory ResultFiles
  imports SystemRun
begin

text \<open>
  The end of a run: what \<open>ResultProcessor::process\<close> appends to the result files, as tables of the
  measurements of the nodes, and the whole way from the workload file to these files.
\<close>

section \<open>The tables\<close>

text \<open>Without elements the program prints zeros.\<close>

definition lowest :: "'a::{linorder,zero} list \<Rightarrow> 'a" where
  "lowest xs = (if xs = [] then 0 else Min (set xs))"

definition highest :: "'a::{linorder,zero} list \<Rightarrow> 'a" where
  "highest xs = (if xs = [] then 0 else Max (set xs))"

definition latencyRow :: "string \<Rightarrow> int list \<Rightarrow> real list \<Rightarrow> cell list" where
  "latencyRow t ds means =
     [Label (quoted t), Whole (lowest ds), Decimals (lowest means), Decimals (average (map real_of_int ds)),
      Decimals (average means), Decimals (highest means), Whole (highest ds)]"

definition rateRow :: "string \<Rightarrow> real list \<Rightarrow> cell list" where
  "rateRow t rates = [Label (quoted t), Decimals (lowest rates), Decimals (average rates), Decimals (highest rates)]"

text \<open>The lines of a file after a table with a header is appended, and after the table of a distribution.\<close>

definition headed :: "cell list \<Rightarrow> cell list \<Rightarrow> table \<Rightarrow> table" where
  "headed header row old = old @ (if old = [] then [header] else []) @ [row]"

definition withCdf :: "string \<Rightarrow> int \<Rightarrow> int list \<Rightarrow> table \<Rightarrow> table" where
  "withCdf t w ds old = old @ (if old = [] then [[Label ''# Range '', Label ''CDF'']] else [[], []])
     @ [[Label (''# ['' @ t @ '']'')]] @ cdfTable w ds"

definition rateHeader :: "cell list" where
  "rateHeader = map Label [''# DHT type'', ''Min'', ''Mean'', ''Max'']"

definition statusHeader :: "cell list" where
  "statusHeader = map Label [''# DHT type '', ''Finished'', ''Failed'', ''Unfinished'']"

text \<open>What the latencies of one operation, and a whole run, change in the files.\<close>

definition latencyChanges :: "string \<Rightarrow> string \<Rightarrow> (DhtNode \<Rightarrow> NodeLatency) \<Rightarrow> int \<Rightarrow> DhtNode list \<Rightarrow> (string \<times> (table \<Rightarrow> table)) list" where
  "latencyChanges t op f w ns =
     [(op @ ''-latency.csv'', headed latencyHeader (latencyRow t (measured f ns) (nodeMeans f ns))),
      (op @ ''-latency-cdf.csv'', withCdf t w (measured f ns))]"

definition resultChanges :: "string \<Rightarrow> bool \<Rightarrow> DhtNode list \<Rightarrow> NodesStatus \<Rightarrow> (string \<times> (table \<Rightarrow> table)) list" where
  "resultChanges t low ns N =
     (let slow = (if low then 250000 else 500000); fast = (if low then 10000 else 50000) in
      latencyChanges t ''join'' joinLatency slow ns @ latencyChanges t ''leave'' leaveLatency slow ns
      @ latencyChanges t ''put'' putLatency fast ns @ latencyChanges t ''get'' getLatency fast ns
      @ [(''join-success-rate.csv'', headed rateHeader (rateRow t (measuredRates joinSuccessRate ns))),
         (''get-success-rate.csv'', headed rateHeader (rateRow t (measuredRates getSuccessRate ns))),
         (''nodes-status.csv'', headed statusHeader [Label (quoted t), Whole (finished N), Whole (failed N), Whole (unfinished N)])])"

text \<open>Files that are changed one after the other.\<close>

definition changeFiles :: "(string \<times> (table \<Rightarrow> table)) list \<Rightarrow> outputFiles \<Rightarrow> outputFiles" where
  "changeFiles us F = fold (\<lambda>(name, g) F. F\<lparr>contents := (contents F)(name := g (contents F name))\<rparr>) us F"

lemma changeFiles_simps:
  "changeFiles [] F = F"
  "changeFiles ((name, g) # us) F = changeFiles us (F\<lparr>contents := (contents F)(name := g (contents F name))\<rparr>)"
  "changeFiles us' (changeFiles us F) = changeFiles (us @ us') F"
  by (simp_all add: changeFiles_def)

lemma changeFiles_openFails [simp]: "openFails (changeFiles us F) = openFails F"
  by (induction us arbitrary: F) (auto simp: changeFiles_simps)

lemma changeFiles_other: "name \<notin> fst ` set us \<Longrightarrow> contents (changeFiles us F) name = contents F name"
  by (induction us arbitrary: F) (auto simp: changeFiles_simps)

lemma changeFiles_one:
  assumes "distinct (map fst us)" and "(name, g) \<in> set us"
  shows "contents (changeFiles us F) name = g (contents F name)"
  using assms
proof (induction us arbitrary: F)
  case (Cons u us)
  obtain m h where u: "u = (m, h)" by (cases u)
  show ?case
  proof (cases "(name, g) \<in> set us")
    case True
    then have "m \<noteq> name" using Cons.prems(1) by (force simp: u)
    then show ?thesis using Cons True by (simp add: u changeFiles_simps)
  next
    case False
    then show ?thesis using Cons.prems by (simp add: u changeFiles_simps changeFiles_other)
  qed
qed simp

section \<open>One operation\<close>

lemma latency_queries:
  assumes "latencyFigures w f ns G"
  shows "generalMinInMicroseconds G = Inr (lowest (measured f ns))" "generalMaxInMicroseconds G = Inr (highest (measured f ns))"
    and "minMeanInMicroseconds G = Inr (lowest (nodeMeans f ns))" "maxMeanInMicroseconds G = Inr (highest (nodeMeans f ns))"
    and "generalMeanInMicroseconds G = average (map real_of_int (measured f ns))"
    and "meanOfMeansInMicroseconds G = average (nodeMeans f ns)"
  using assms nodeMeans_few(2) [of f ns]
  by (simp_all add: latencyFigures_def summarises_def generalMinInMicroseconds_def generalMaxInMicroseconds_def
      minMeanInMicroseconds_def maxMeanInMicroseconds_def generalMeanInMicroseconds_def meanOfMeansInMicroseconds_def
      Statistics_min_def Statistics_max_def Statistics_mean_def lowest_def highest_def average_def)

lemma processLatency_files:
  assumes "latencyFigures w f ns G" and "0 < w" and "\<forall>d \<in> set (measured f ns). 0 \<le> d" and "length (measured f ns) < 2 ^ 64"
    and "\<forall>name. \<not> openFails F name"
  shows "processLatency op G t F = Inr (changeFiles (latencyChanges t op f w ns) F)"
proof -
  have "cdfRows G = cdfTable w (measured f ns)"
    using assms(1) by (intro cdfRows_table [OF _ _ assms(4,2,3)]) (simp_all add: latencyFigures_def)
  then show ?thesis
    using assms(5) latency_queries [OF assms(1)]
    by (simp add: processLatency_def appendRows_def headed_def withCdf_def latencyRow_def latencyChanges_def changeFiles_simps)
qed

lemma processSuccessRate_files:
  assumes "summarises (\<lambda>x. x) doubleQuot 0 rates (rateStatistics G)" and "length rates < 2 ^ 64" and "\<forall>name. \<not> openFails F name"
  shows "processSuccessRate op G t F = Inr (changeFiles [(op @ ''-success-rate.csv'', headed rateHeader (rateRow t rates))] F)"
proof -
  have "unat (elementCount (rateStatistics G)) = length rates"
    using assms(1,2) by (simp add: summarises_def unat_of_nat)
  then have "elementCount (rateStatistics G) = 0 \<longleftrightarrow> rates = []"
    by (simp flip: unat_eq_zero)
  then show ?thesis
    using assms(1,3)
    by (simp add: processSuccessRate_def rateMin_def rateMax_def rateMean_def Statistics_count_def Statistics_min_def
        Statistics_max_def Statistics_mean_def appendRows_def headed_def rateHeader_def rateRow_def summarises_def changeFiles_simps
        lowest_def highest_def average_def)
qed

lemma processNodesStatus_files:
  "\<not> openFails F ''nodes-status.csv'' \<Longrightarrow> processNodesStatus N t F = Inr (changeFiles
     [(''nodes-status.csv'', headed statusHeader [Label (quoted t), Whole (finished N), Whole (failed N), Whole (unfinished N)])] F)"
  by (simp add: processNodesStatus_def appendRows_def headed_def statusHeader_def changeFiles_simps)

section \<open>All operations\<close>

lemma resultChanges_names: "distinct (map fst (resultChanges t low ns N))"
  by (simp add: resultChanges_def latencyChanges_def Let_def)

lemma resultChanges_files: "fst ` set (resultChanges t low ns N) \<subseteq> resultFiles"
proof -
  have "fst ` set (latencyChanges t op f w ns) \<subseteq> resultFiles" if "op \<in> {''join'', ''leave'', ''put'', ''get''}" for op f w
    using resultFiles_names(1,2) [OF that] by (simp add: latencyChanges_def)
  then show ?thesis
    using resultFiles_names(3) [of "''join''"] resultFiles_names(3) [of "''get''"] resultFiles_names(4)
    unfolding resultChanges_def Let_def set_append image_Un by (intro Un_least) simp_all
qed

lemma measuredRates_few: "length (measuredRates f ns) \<le> length ns"
  unfolding measuredRates_def using length_filter_le [of _ "map f ns"] by (metis length_map)

lemma process_results:
  assumes "figuresOf low ns R" and "length ns < 2 ^ 64"
    and "\<forall>f \<in> {joinLatency, leaveLatency, putLatency, getLatency}.
      length (measured f ns) < 2 ^ 64 \<and> (\<forall>d \<in> set (measured f ns). 0 \<le> d)"
    and "\<forall>name. \<not> openFails F name"
  shows "process R F = Inr (changeFiles (resultChanges (resultDhtType R) low ns (nodesStatus R)) F)"
proof -
  let ?slow = "if low then 250000 else 500000 :: int" and ?fast = "if low then 10000 else 50000 :: int"
  have G: "latencyFigures ?slow joinLatency ns (joinLatencies R)" "latencyFigures ?slow leaveLatency ns (leaveLatencies R)"
    "latencyFigures ?fast putLatency ns (putLatencies R)" "latencyFigures ?fast getLatency ns (getLatencies R)"
    and S: "summarises (\<lambda>x. x) doubleQuot 0 (measuredRates joinSuccessRate ns) (rateStatistics (joinSuccessRates R))"
    "summarises (\<lambda>x. x) doubleQuot 0 (measuredRates getSuccessRate ns) (rateStatistics (getSuccessRates R))"
    using assms(1) by (simp_all add: figuresOf_def Let_def)
  have few: "length (measuredRates f ns) < 2 ^ 64" for f
    using measuredRates_few assms(2) order.strict_trans1 by blast
  have w: "0 < ?slow" "0 < ?fast" by simp_all
  have latency: "processLatency op G t F' = Inr (changeFiles (latencyChanges t op f w ns) F')"
    if "latencyFigures w f ns G" and "0 < w" and "f \<in> {joinLatency, leaveLatency, putLatency, getLatency}"
      and "openFails F' = openFails F" for op t w f G F'
    using assms(3,4) that(3,4) by (intro processLatency_files [OF that(1,2)]) auto
  have rate: "processSuccessRate op G t F' = Inr (changeFiles [(op @ ''-success-rate.csv'', headed rateHeader (rateRow t (measuredRates f ns)))] F')"
    if "summarises (\<lambda>x. x) doubleQuot 0 (measuredRates f ns) (rateStatistics G)" and "openFails F' = openFails F" for op t f G F'
    using assms(4) that(2) by (intro processSuccessRate_files [OF that(1) few]) simp
  note steps = latency [OF G(1) w(1)] latency [OF G(2) w(1)] latency [OF G(3) w(2)] latency [OF G(4) w(2)] rate [OF S(1)] rate [OF S(2)]
  show ?thesis
    using assms(4)
    by (simp add: process_def Let_def steps processNodesStatus_files changeFiles_simps(3) resultChanges_def del: if_split)
qed

section \<open>The end of the run\<close>

lemma status_pushed:
  assumes "unat (nodes (masterWorkload M)) < 2147483648" and "finishedControllers M = nodes (masterWorkload M)"
    and "failedControllers M = 0"
  shows "pushNodesStatus B (closeConnections M) = Inr (M\<lparr>controllers := [], resultProcessor := (resultProcessor M)
    \<lparr>nodesStatus := \<lparr>finished = int (unat (nodes (masterWorkload M))), failed = 0, unfinished = 0\<rparr>\<rparr>\<rparr>)"
proof -
  define n where "n = int (unat (nodes (masterWorkload M)))"
  have n: "0 \<le> n" "n < 2147483648"
    using assms(1) unfolding n_def by linarith+
  have "sint (nodes (masterWorkload M)) = n"
    unfolding n_def using sint_of_nat_u32 [OF assms(1)] by simp
  then have "nodesStatusText (closeConnections M) = showInt n @ '' '' @ showInt 0 @ '' '' @ showInt 0"
    using assms(2,3) by (simp add: nodesStatusText_def closeConnections_def Let_def)
  moreover have "NodesStatus_set (showInt n @ '' '' @ showInt 0 @ '' '' @ showInt 0) N =
      \<lparr>finished = n, failed = 0, unfinished = 0\<rparr>" for N
    using n by (intro nodesStatus_read) simp_all
  ultimately show ?thesis
    unfolding n_def [symmetric] by (simp add: pushNodesStatus_def pushResult_def pushStatus_def closeConnections_def)
qed

section \<open>Properties\<close>



end
