(* ===== verification/MasterSpec.thy ===== *)
theory MasterSpec
  imports MasterRun
begin

text \<open>
  What the master promises, as a machine of a few lines, and the proof that the completion handlers of
  \<open>master/DhtperfMaster.cpp\<close> and \<open>master/ControllerConnection.cpp\<close> implement it: every step of the event
  loop is a step of the machine, or one that the machine does not see.
\<close>

section \<open>Refinement mappings\<close>

text \<open>A step relation with an invariant under which a function on states maps steps to steps.\<close>

locale refinement_mapping = event_driven step inv
  for step :: "'s \<Rightarrow> 's \<Rightarrow> bool" and inv :: "'s \<Rightarrow> bool" +
  fixes specStep :: "'a \<Rightarrow> 'a \<Rightarrow> bool" and abs :: "'s \<Rightarrow> 'a"
  assumes simulation: "step s s' \<Longrightarrow> inv s \<Longrightarrow> specStep (abs s) (abs s') \<or> abs s' = abs s"
begin

lemma run_refines:
  assumes "step\<^sup>*\<^sup>* s s'" and "inv s"
  shows "specStep\<^sup>*\<^sup>* (abs s) (abs s')"
  using assms
proof (induction rule: rtranclp_induct)
  case (step s1 s2)
  have "inv s1" using step.hyps(1) step.prems by (rule inv_reachable)
  from simulation [OF step.hyps(2) this] show ?case
    using step.IH [OF step.prems] by (auto intro: rtranclp.rtrancl_into_rtrancl)
qed simp

end

section \<open>The specification\<close>

text \<open>
  Controllers are numbered in the order in which they connect. \<open>waiting\<close> are those whose end is still
  to come, \<open>lost\<close> the number of those that were disconnected.
\<close>

record masterSpec =
  expected :: nat
  present :: nat
  waiting :: "nat set"
  lost :: nat
  figures :: ResultProcessor
  over :: bool

inductive specStep :: "'b boost_scheme \<Rightarrow> masterSpec \<Rightarrow> masterSpec \<Rightarrow> bool" for B :: "'b boost_scheme" where
  join: "\<not> over S \<Longrightarrow> present S + 1 < expected S \<Longrightarrow> specStep B S (S\<lparr>present := present S + 1\<rparr>)"
| begin_all: "\<not> over S \<Longrightarrow> present S + 1 = expected S \<Longrightarrow>
    specStep B S (S\<lparr>present := expected S, waiting := {..<expected S}\<rparr>)"
| report: "\<not> over S \<Longrightarrow> i \<in> waiting S \<Longrightarrow> pushResult B type reported (figures S) = Inr R \<Longrightarrow>
    specStep B S (S\<lparr>figures := R\<rparr>)"
| finish: "\<not> over S \<Longrightarrow> i \<in> waiting S \<Longrightarrow>
    specStep B S (S\<lparr>waiting := waiting S - {i}, over := waiting S - {i} = {}\<rparr>)"
| lose: "\<not> over S \<Longrightarrow> i \<in> waiting S \<Longrightarrow>
    specStep B S (S\<lparr>waiting := waiting S - {i}, lost := lost S + 1, over := waiting S - {i} = {}\<rparr>)"
| timeout: "\<not> over S \<Longrightarrow> present S = expected S \<Longrightarrow> specStep B S (S\<lparr>over := True\<rparr>)"

inductive_cases specStepE: "specStep B S S'"

definition specInit :: "nat \<Rightarrow> ResultProcessor \<Rightarrow> masterSpec" where
  "specInit n R = \<lparr>expected = n, present = 0, waiting = {}, lost = 0, figures = R, over = False\<rparr>"

text \<open>What holds of the machine by itself.\<close>

definition specInv :: "masterSpec \<Rightarrow> bool" where
  "specInv S \<longleftrightarrow> present S \<le> expected S \<and> waiting S \<subseteq> {..<expected S} \<and> lost S + card (waiting S) \<le> expected S
     \<and> (present S < expected S \<longrightarrow> waiting S = {} \<and> lost S = 0 \<and> \<not> over S)
     \<and> (present S = expected S \<and> waiting S = {} \<longrightarrow> over S)"

lemma specStep_inv:
  assumes "specStep B S S'" and "specInv S"
  shows "specInv S'"
proof -
  have fin: "finite (waiting S)"
    using assms(2) finite_subset by (auto simp: specInv_def)
  show ?thesis
    using assms
  proof (cases rule: specStep.cases)
    case (finish i)
    then show ?thesis
      using assms(2) card_Diff1_le [of "waiting S" i] by (auto simp: specInv_def)
  next
    case (lose i)
    then have "Suc (card (waiting S - {i})) = card (waiting S)"
      using fin by (intro card_Suc_Diff1)
    then show ?thesis
      using assms(2) lose by (auto simp: specInv_def)
  qed (use assms(2) in \<open>auto simp: specInv_def lessThan_empty_iff\<close>)
qed

interpretation spec: event_driven "specStep B" specInv for B :: "'b boost_scheme"
  by unfold_locales (rule specStep_inv)

section \<open>The mapping\<close>

definition waitingFor :: "ControllerConnection list \<Rightarrow> nat set" where
  "waitingFor cs = {i. i < length cs \<and> reading (cs ! i) \<noteq> NoRead}"

definition masterAbs :: "DhtperfMaster \<Rightarrow> masterSpec" where
  "masterAbs M =
     \<lparr>expected = unat (nodes (masterWorkload M)), present = length (controllers M),
      waiting = waitingFor (controllers M), lost = unat (failedControllers M),
      figures = resultProcessor M, over = stopped M\<rparr>"

lemma masterAbs_sel [simp]:
  "expected (masterAbs M) = unat (nodes (masterWorkload M))" "present (masterAbs M) = length (controllers M)"
  "waiting (masterAbs M) = waitingFor (controllers M)" "lost (masterAbs M) = unat (failedControllers M)"
  "figures (masterAbs M) = resultProcessor M" "over (masterAbs M) = stopped M"
  by (simp_all add: masterAbs_def)

lemma waitingFor_update:
  "i < length cs \<Longrightarrow>
     waitingFor (cs[i := c]) = (if reading c = NoRead then waitingFor cs - {i} else insert i (waitingFor cs))"
  by (auto simp: waitingFor_def nth_list_update)

lemma waitingFor_empty: "waitingFor cs = {} \<longleftrightarrow> idle cs = length cs"
proof
  assume "waitingFor cs = {}"
  then have "\<forall>c \<in> set cs. reading c = NoRead" by (auto simp: waitingFor_def in_set_conv_nth)
  then show "idle cs = length cs" by (simp add: idle_def)
next
  assume "idle cs = length cs"
  then show "waitingFor cs = {}" using idle_all [of cs] by (auto simp: waitingFor_def)
qed

text \<open>Changes of a connection that keep whether it is waited for are not seen.\<close>

lemma masterAbs_quiet:
  assumes "i < length (controllers M)" and "reading c = NoRead \<longleftrightarrow> reading (controllers M ! i) = NoRead"
  shows "masterAbs (M\<lparr>controllers := (controllers M)[i := c]\<rparr>) = masterAbs M"
proof -
  have "i \<in> waitingFor (controllers M) \<longleftrightarrow> reading (controllers M ! i) \<noteq> NoRead"
    using assms(1) by (simp add: waitingFor_def)
  then have "waitingFor ((controllers M)[i := c]) = waitingFor (controllers M)"
    using assms by (auto simp: waitingFor_update)
  then show ?thesis
    using assms(1) by (simp add: masterAbs_def)
qed

lemma finished_sim:
  assumes "masterInv en M" and "\<not> stopped M" and i: "i < length (controllers M)"
    and c: "peerHost c = peerHost (controllers M ! i)" "writesStarted c = writesStarted (controllers M ! i)"
    and "reading c = NoRead" and wait: "reading (controllers M ! i) \<noteq> NoRead"
    and M1: "M1 = M\<lparr>controllers := (controllers M)[i := c]\<rparr>"
  shows "specStep B (masterAbs M) (masterAbs (controllerFinished M1))"
    and "specStep B (masterAbs M) (masterAbs (handleDisconnection M1))"
proof -
  let ?w = "waitingFor (controllers M)"
  have started: "startMessagesSent M"
    using assms(1) wait idle_all [of "controllers M" i, OF _ i] by (auto simp: masterInv_def split: if_splits)
  have count: "unat (finishedControllers M) = idle (controllers M)" "length (controllers M) = unat (nodes (masterWorkload M))"
    using assms(1) started by (simp_all add: masterInv_def)
  have "i \<in> ?w" using i wait by (simp add: waitingFor_def)
  have w: "waitingFor ((controllers M)[i := c]) = ?w - {i}"
    using i assms(6) by (simp add: waitingFor_update)
  have idle: "idle ((controllers M)[i := c]) = Suc (idle (controllers M))"
    using idle_update [OF i, of c] assms(6) wait by simp
  have le: "Suc (idle (controllers M)) \<le> unat (nodes (masterWorkload M))"
    using idle_le [of "(controllers M)[i := c]"] idle count(2) by simp
  then have bound: "Suc (unat (finishedControllers M)) < 4294967296"
    using count(1) unat_u32_bound [of "nodes (masterWorkload M)"] by linarith
  then have "unat (finishedControllers M + 1) = Suc (idle (controllers M))"
    using count(1) by (simp add: unat_word_ariths)
  then have last: "finishedControllers M + 1 = nodes (masterWorkload M) \<longleftrightarrow> ?w - {i} = {}"
    unfolding w [symmetric] waitingFor_empty word_unat_eq_iff using idle count(2) by simp
  have "unat (failedControllers M) \<le> unat (finishedControllers M)"
    using assms(1) by (simp add: masterInv_def)
  then have failed: "unat (failedControllers M + 1) = unat (failedControllers M) + 1"
    using bound by (simp add: unat_word_ariths)
  have "masterAbs (controllerFinished M1) = (masterAbs M)\<lparr>waiting := ?w - {i}, over := ?w - {i} = {}\<rparr>"
    using assms(2) w last by (simp add: masterAbs_def controllerFinished_def M1 Let_def)
  then show "specStep B (masterAbs M) (masterAbs (controllerFinished M1))"
    using specStep.finish [of "masterAbs M" i B] assms(2) \<open>i \<in> ?w\<close> by simp
  have "masterAbs (handleDisconnection M1) =
      (masterAbs M)\<lparr>waiting := ?w - {i}, lost := unat (failedControllers M) + 1, over := ?w - {i} = {}\<rparr>"
    using assms(2) w last failed by (simp add: masterAbs_def handleDisconnection_def controllerFinished_def M1 Let_def)
  then show "specStep B (masterAbs M) (masterAbs (handleDisconnection M1))"
    using specStep.lose [of "masterAbs M" i B] assms(2) \<open>i \<in> ?w\<close> by simp
qed

lemma handleAccept_sim:
  assumes "handleAccept en accepted M = Inr M'" and "masterInv en M" and "accepting M" and "\<not> stopped M"
  shows "specStep B (masterAbs M) (masterAbs M')"
proof -
  let ?n = "length (controllers M)"
  have inv: "?n < unat (nodes (masterWorkload M))" "idle (controllers M) = ?n"
    using assms(2,3) by (auto simp: masterInv_def split: if_splits)
  obtain host M1 M2 where g: "sendDhtTypeMessage en ?n (M\<lparr>accepting := False, controllers := controllers M @ [newControllerConnection host]\<rparr>) = Inr M1"
      "sendProfileMessage en ?n M1 = Inr M2"
    and r: "(if length (controllers M2) < unat (nodes (masterWorkload M2)) then Inr (asyncAccept M2) else sendStartMessages en M2) = Inr M'"
    using assms(1) by (auto simp: handleAccept_def Let_def andThen_Inr_iff split: option.splits)
  from g obtain c where M2: "M2 = M\<lparr>accepting := False, controllers := controllers M @ [c]\<rparr>" and c: "reading c = NoRead"
    by (rule greet_controller) auto
  have none: "waitingFor (controllers M) = {}"
    using inv(2) by (simp add: waitingFor_empty)
  have none2: "waitingFor (controllers M2) = {}"
    using inv(2) c by (simp add: waitingFor_empty M2 idle_def)
  show ?thesis
  proof (cases "Suc ?n < unat (nodes (masterWorkload M))")
    case True
    then have "masterAbs M' = (masterAbs M)\<lparr>present := ?n + 1\<rparr>"
      using r none none2 by (auto simp: masterAbs_def M2 asyncAccept_def)
    then show ?thesis
      using specStep.join [of "masterAbs M" B] assms(4) True by simp
  next
    case False
    then have "sendStartMessages en M2 = Inr M'" using r by (simp add: M2)
    then obtain perHost M3 where up: "startedUpto en M2 (length (controllers M2)) (perHost, M3)"
      and M': "M' = M3\<lparr>startMessagesSent := True\<rparr>"
      by (rule sendStartMessages_upto)
    then have M3: "M3 = M2\<lparr>controllers := controllers M3\<rparr>" "length (controllers M3) = unat (nodes (masterWorkload M))"
      and all: "\<forall>j < length (controllers M3). reading (controllers M3 ! j) = HeaderRead"
      using False inv(1) by (auto simp: startedUpto_def M2)
    have "waitingFor (controllers M3) = {..<unat (nodes (masterWorkload M))}"
      using all M3(2) by (auto simp: waitingFor_def)
    moreover have "masterWorkload M3 = masterWorkload M" "failedControllers M3 = failedControllers M"
      "resultProcessor M3 = resultProcessor M" "stopped M3 = stopped M"
      by (subst M3(1), simp add: M2)+
    ultimately have "masterAbs M' = (masterAbs M)\<lparr>present := expected (masterAbs M), waiting := {..<expected (masterAbs M)}\<rparr>"
      using M3(2) by (simp add: masterAbs_def M')
    then show ?thesis
      using specStep.begin_all [of "masterAbs M" B] assms(4) False inv(1) by simp
  qed
qed

lemma masterStep_sim:
  assumes "masterStep B en M M'" and "masterInv en M"
  shows "specStep B (masterAbs M) (masterAbs M') \<or> masterAbs M' = masterAbs M"
  using assms(1)
proof (cases rule: masterStep_cases)
  case (accept accepted)
  then show ?thesis using handleAccept_sim assms(2) by blast
next
  case (quiet i c)
  then show ?thesis using masterAbs_quiet [of i M c] by simp
next
  case (report i c type reported R)
  have "masterAbs M' = (masterAbs M)\<lparr>figures := R\<rparr>"
    using masterAbs_quiet [of i "M\<lparr>resultProcessor := R\<rparr>" c] report by (simp add: masterAbs_def)
  then show ?thesis
    using specStep.report [of "masterAbs M" i B type reported R] report by (simp add: waitingFor_def)
next
  case (ended i c M1)
  then show ?thesis using finished_sim [OF assms(2) ended(1-7)] by blast
next
  case timer
  then have "masterAbs M' = (masterAbs M)\<lparr>over := True\<rparr>" and "present (masterAbs M) = expected (masterAbs M)"
    using assms(2) by (simp_all add: masterAbs_def masterInv_def)
  then show ?thesis
    using specStep.timeout [of "masterAbs M" B] timer(1) by simp
qed

interpretation masterRefinement: refinement_mapping "masterStep B en" "masterInv en" "specStep B" masterAbs
  for B :: "'b boost_scheme" and en :: endian
  by unfold_locales (rule masterStep_sim)

text \<open>The figures of the machine are those of the reports that it took, in this order.\<close>

lemma spec_figures:
  assumes "(specStep B)\<^sup>*\<^sup>* S S'"
  shows "\<exists>rs. pushReports B rs (figures S) = Inr (figures S')"
  using assms
proof (induction rule: rtranclp_induct)
  case base
  show ?case by (rule exI [of _ "[]"]) (simp add: pushReports_simps)
next
  case (step S1 S2)
  then obtain rs where rs: "pushReports B rs (figures S) = Inr (figures S1)" by blast
  from step.hyps(2) show ?case
  proof (cases rule: specStep.cases)
    case (report i type reported R)
    then have "pushReports B (rs @ [(type, reported)]) (figures S) = Inr (figures S2)"
      using rs by (simp add: pushReports_append pushReports_simps)
    then show ?thesis by blast
  qed (use rs in auto)
qed

section \<open>Properties\<close>

text \<open>
  C3. The master implements its specification: from a loaded workload file on, every state that the event
  loop reaches, in whatever order connections, reads, failed reads, writes, lost connections and the timer
  come, is the image of a run of the machine \<open>specStep\<close>. So the controllers connect one by one, nobody is
  waited for before all are there and then everybody is; only reports of controllers that are waited for
  count, each controller leaves once, finished or lost, and the run is over with the last of them or with
  the timer.
\<close>

theorem master_implements_spec:
  assumes "masterRunning B en t W M"
  shows "\<exists>low. (specStep B)\<^sup>*\<^sup>* (specInit (unat (nodes W)) (newResultProcessor t low)) (masterAbs M)
    \<and> specInv (masterAbs M) \<and> (\<exists>rs. pushReports B rs (newResultProcessor t low) = Inr (resultProcessor M))"
proof -
  obtain written k low M0 where load: "loadWorkloadFile B written k (newDhtperfMaster t low) = Inr M0"
    and W: "W = masterWorkload M0" and reach: "masterReaches B en (asyncAccept M0) M"
    using assms by (auto simp: masterRunning_def)
  have ready: "readyMaster M0"
    by (rule loadWorkloadFile_ready(1) [OF load])
  have "resultProcessor M0 = newResultProcessor t low"
    using load by (auto simp: loadWorkloadFile_def andThen_Inr_iff newDhtperfMaster_def)
  then have start: "masterAbs (asyncAccept M0) = specInit (unat (nodes W)) (newResultProcessor t low)"
    using ready by (simp add: masterAbs_def specInit_def readyMaster_def asyncAccept_def waitingFor_def W)
  have run: "(specStep B)\<^sup>*\<^sup>* (specInit (unat (nodes W)) (newResultProcessor t low)) (masterAbs M)"
    using masterRefinement.run_refines [OF reach [unfolded masterReaches_def] readyMaster_inv [OF ready]]
    unfolding start .
  have "0 < unat (nodes W)"
    using ready by (simp add: readyMaster_def W unat_gt_0)
  then have "specInv (specInit (unat (nodes W)) (newResultProcessor t low))"
    by (simp add: specInv_def specInit_def)
  with spec.inv_reachable [OF run] have "specInv (masterAbs M)" .
  moreover have "\<exists>rs. pushReports B rs (newResultProcessor t low) = Inr (resultProcessor M)"
    using spec_figures [OF run] by (simp add: specInit_def)
  ultimately show ?thesis using run by blast
qed

theorem master_implements_spec_witness:
  "\<exists>W M low. masterRunning refBoost LittleEndian ''dummy'' W M
     \<and> (specStep refBoost)\<^sup>*\<^sup>* (specInit 2 (newResultProcessor ''dummy'' low)) (masterAbs M)
     \<and> present (masterAbs M) = 2"
proof -
  obtain W M where r: "masterRunning refBoost LittleEndian ''dummy'' W M" "length (controllers M) = 2" "unat (nodes W) = 2"
    using exampleRun by blast
  from master_implements_spec [OF r(1)] show ?thesis using r by auto
qed

end
