(* ===== verification/KaddemoNodes.thy ===== *)
theory KaddemoNodes
  imports DhtNode
begin

text \<open>
  How kaddemo nodes find each other: the first node of a DHT serves its id, the others ask for it when
  they join. The lemmas follow the id from the output of the program of the first node to the command
  line of the others, and the id server through joins and leaves.
\<close>

section \<open>The id of a node\<close>

lemma readlineLoop_no_newline: "readlineLoop ret cs = Inr (line, rest) \<Longrightarrow> newline \<notin> set ret \<Longrightarrow> newline \<notin> set line"
  by (induction ret cs rule: readlineLoop.induct) (auto split: if_splits dest: in_set_butlastD)

lemma readUntil_no_newline: "readUntil stop cs = Inr (line, rest) \<Longrightarrow> newline \<notin> set line"
proof (induction stop cs rule: readUntil.induct)
  case (1 stop cs)
  obtain l cs' where read: "readline cs = Inr (l, cs')"
    using "1.prems" by (subst (asm) readUntil.simps) (auto split: sum.splits)
  show ?case
  proof (cases "stop l")
    case True
    then have "line = l"
      using "1.prems" read by (subst (asm) readUntil.simps) simp
    then show ?thesis
      using readlineLoop_no_newline [of "[]"] read by (simp add: readline_def)
  next
    case False
    then show ?thesis
      using "1.IH" [OF read refl False] "1.prems" read by (subst (asm) (2) readUntil.simps) simp
  qed
qed

lemma getSelfId_no_newline:
  assumes "Kaddemo_getSelfId n w = Inr (n', w')"
  shows "newline \<notin> set (nodeId n')"
proof -
  obtain line cs where "readUntil (\<lambda>line. comparePrefix line 11 '', Node_id: '')
      (incoming (sendLine (''getinfo'' @ [newline]) w)) = Inr (line, cs)"
    and n': "nodeId n' = c_str (drop 11 line)"
    using assms by (auto simp: Kaddemo_getSelfId_def andThen_Inr_iff Let_def)
  from readUntil_no_newline [OF this(1)] have "newline \<notin> set line" .
  then show ?thesis
    by (auto simp: n' c_str_def dest: set_takeWhileD in_set_dropD)
qed

lemma Kaddemo_doJoin_id:
  assumes "Kaddemo_doJoin B E n w = Inr (b, n', w')"
  shows "newline \<notin> set (nodeId n')"
proof -
  obtain n1 w1 where "Kaddemo_getSelfId n w1 = Inr (n1, w')" and "nodeId n' = nodeId n1"
    using assms by (auto simp: Kaddemo_doJoin_def andThen_Inr_iff Let_def startIdWrapperServer_def)
  then show ?thesis
    using getSelfId_no_newline by simp
qed

section \<open>Joins and leaves\<close>

text \<open>A kaddemo join is one attempt.\<close>

lemma kaddemo_join:
  assumes "processJoinEvent B E (n, w) = Some (Inr (n', w'))" and "backend n = KaddemoWrapper"
  obtains n1 w1 where "Kaddemo_doJoin B E n w = Inr (True, n1, w1)"
    "nodeId n' = nodeId n1" "threadStop n' = threadStop n1" "idServerThread n' = idServerThread n1"
    "sameButKaddemo n n1" "nodeConnected n'" "backend n' = backend n1" "entryPointHost n' = entryPointHost n1"
    "selfPort n' = selfPort n1"
proof -
  obtain n2 where loop: "joinLoop B E (n, w) = Some (Inr (n2, w'))" and n': "n' = n2\<lparr>nodeConnected := True\<rparr>"
    using assms(1) by (auto simp: processJoinEvent_def andThen_Inr_iff split: if_splits)
  obtain r where attempt: "joinAttempt B E (n, w) = Inr r"
    using loop by (subst (asm) joinLoop.simps) (auto split: sum.splits)
  then obtain n1 w1 where join: "Kaddemo_doJoin B E n w = Inr (fst r, n1, w1)"
    by (auto simp: joinAttempt_def andThen_Inr_iff doJoin_def assms(2) Let_def)
  note facts = Kaddemo_node [OF join]
  with attempt loop have "n2 = n1\<lparr>joinLatency := pushMeasured E (ticks w) (joinLatency n1),
      joinSuccessRate := NodeSuccessRate_hit (joinSuccessRate n1)\<rparr>"
    using join by (subst (asm) joinLoop.simps) (auto simp: joinAttempt_def andThen_Inr_iff doJoin_def assms(2) Let_def)
  then show thesis
    using that [of n1 w1] join facts by (simp add: n')
qed

lemma kaddemo_leave:
  assumes "processLeaveEvent E (n, w) = Inr (n', w')" and "backend n = KaddemoWrapper" and "nodeStartsNewDht n"
  shows "threadStop n' \<and> idServerThread n' = None \<and> backend n' = KaddemoWrapper \<and> nodeStartsNewDht n'"
proof -
  obtain n1 w1 where leave: "Kaddemo_doLeave n w = Inr (n1, w1)"
    and "n' = n1\<lparr>leaveLatency := pushMeasured E (ticks w) (leaveLatency n1), nodeConnected := False\<rparr>"
    using assms(1,2) by (auto simp: processLeaveEvent_def andThen_Inr_iff doLeave_def)
  then show ?thesis
    using Kaddemo_leaves [OF leave] assms(2,3) by (simp add: nodeStartsNewDht_def)
qed

section \<open>What other nodes are told\<close>

text \<open>What a server at the address of a node sends: the reply of its id server, on its port.\<close>

definition answerOf :: "DhtNode \<Rightarrow> int \<Rightarrow> string option" where
  "answerOf n port =
     (case servedId n of
        Some (i, p) \<Rightarrow> if p = port then Some (idServerReply i) else None
      | None \<Rightarrow> None)"

lemma entryPointId_served:
  assumes "servedId n = Some (nodeId n, uint (selfPort n) + 1)" and "newline \<notin> set (nodeId n)"
    and "entryPointPort m = selfPort n" and "resolveHost B (entryPointHost m) = Some (V4 a # ips)"
    and "peerReply E (V4 a) = answerOf n"
  shows "getEntryPointId B E m = Inr (nodeId n)"
  using assms idServerReply_read [OF assms(2)]
  by (simp add: getEntryPointId_def getId_first answerOf_def)

lemma entryPointId_unserved:
  assumes "servedId n = None" and "resolveHost B (entryPointHost m) = Some [V4 a]" and "peerReply E (V4 a) = answerOf n"
  shows "getEntryPointId B E m = Inl ExitFailure"
  using assms by (simp add: getEntryPointId_def getId_first answerOf_def)

text \<open>The command line of a node that joins through another one, as a function of that one's id.\<close>

lemma entryPoint_command:
  assumes "\<not> nodeStartsNewDht m" and "resolveHost B (entryPointHost m) = Some [V4 a]"
  shows "\<exists>pre. Kaddemo_command B E m = andThen (getEntryPointId B E m) (\<lambda>i. Inr (pre @ ''--bs_id '' @ i @ '' ''))"
proof -
  have "getHostIp B (entryPointHost m) = Inr a"
    using assms(2) by (simp add: getHostIp_def)
  then show ?thesis
    unfolding Kaddemo_command_def Let_def using assms(1)
    by (simp only: if_False andThen_simps append_assoc [symmetric]) blast
qed

section \<open>Properties\<close>


text \<open>The output of a kaddemo program: the prompt, and after the question its id and the prompt.\<close>

definition kaddemoOutput :: "string \<Rightarrow> bytes" where
  "kaddemoOutput i = linesText [''demo >'', '', Node_id: '' @ i, ''demo >'']"

lemma readUntil_line: "goodLine l \<Longrightarrow> stop l \<Longrightarrow> readUntil stop (l @ newline # rest) = Inr (l, rest)"
  by (subst readUntil.simps) simp

lemma Kaddemo_first_join:
  assumes "nodeStartsNewDht n" and "getSelfIp B = Inr ip" and "childOutputs w = kaddemoOutput i # outs"
    and "goodLine (''x'' @ i)" and "CHR 0x00 \<notin> set i"
  shows "\<exists>w'. Kaddemo_doJoin B E n w = Inr (True, startIdWrapperServer (n\<lparr>nodeId := i\<rparr>), w') \<and> childOutputs w' = outs"
proof -
  obtain command where command: "Kaddemo_command B E n = Inr command"
    using assms(1,2) by (simp add: Kaddemo_command_def Let_def)
  let ?rest = "linesText ['', Node_id: '' @ i, ''demo >'']"
  have prompt: "goodLine ''demo >''" and line: "goodLine ('', Node_id: '' @ i)"
    using assms(4) by (auto simp: goodLine_def split: if_splits)
  have until: "readUntil (\<lambda>line. line = ''demo >'') (kaddemoOutput i) = Inr (''demo >'', ?rest)"
    "readUntil (\<lambda>line. line = ''demo >'') (linesText [''demo >'']) = Inr (''demo >'', [])"
    unfolding kaddemoOutput_def linesText_simps
    by (rule readUntil_line; simp add: prompt del: append.simps)+
  have id: "readUntil (\<lambda>line. comparePrefix line 11 '', Node_id: '') ?rest = Inr ('', Node_id: '' @ i, linesText [''demo >''])"
    unfolding linesText_simps
    by (rule readUntil_line [OF line]) (simp add: comparePrefix_def)
  have "c_str i = i"
    using assms(5) by (auto simp: c_str_def takeWhile_eq_all_conv)
  then show ?thesis
    using assms(1,3) until id
    by (simp add: Kaddemo_doJoin_def command startWrapped_def waitPrompt_def startChild_def Kaddemo_getSelfId_def
        sendLine_def nodeStartsNewDht_def Let_def startIdWrapperServer_def)
qed

lemma kaddemo_join_event:
  assumes "backend n = KaddemoWrapper" and "\<not> nodeConnected n" and "Kaddemo_doJoin B E n w = Inr (True, n1, w1)"
  shows "\<exists>n' w'. processJoinEvent B E (n, w) = Some (Inr (n', w')) \<and> nodeConnected n'
    \<and> backend n' = backend n1 \<and> entryPointHost n' = entryPointHost n1 \<and> nodeId n' = nodeId n1
    \<and> childOutputs w' = childOutputs w1"
proof -
  have "doJoin B E n w = Inr (True, n1, w1)"
    using assms(1,3) by (simp add: doJoin_def)
  then have "joinLoop B E (n, w) = Some (Inr (n1\<lparr>joinLatency := pushMeasured E (ticks w) (joinLatency n1),
      joinSuccessRate := NodeSuccessRate_hit (joinSuccessRate n1)\<rparr>, threeTicks (ticks w) w1))"
    by (subst joinLoop.simps) (simp add: joinAttempt_def Let_def)
  then show ?thesis
    using assms(2) by (simp add: processJoinEvent_def threeTicks_def)
qed

lemma kaddemo_leave_event:
  assumes "backend n = KaddemoWrapper" and "nodeConnected n" and "nodeStartsNewDht n"
  shows "\<exists>n' w'. processLeaveEvent E (n, w) = Inr (n', w') \<and> \<not> nodeConnected n' \<and> backend n' = KaddemoWrapper \<and> nodeStartsNewDht n'"
  using assms by (simp add: processLeaveEvent_def doLeave_def Kaddemo_doLeave_def nodeStartsNewDht_def Let_def)


end
