(* ===== verification/RubyWrapper.thy ===== *)
theory RubyWrapper
  imports NodeState
begin

text \<open>
  \<open>src/src/controller/dhtnodes/GenericRubyWrapper.cpp\<close>: the wrapper of the programs that speak the
  line protocol of \<open>generic-wrapper.rb\<close>. The factory does not make nodes of this class any more.
\<close>

section \<open>The class\<close>

record GenericRubyWrapper =
  rubyDhtType :: string
  rubySelfPort :: u16
  rubyEntryPointHost :: string
  rubyEntryPointPort :: u16
  rubyConnected :: bool

definition newGenericRubyWrapper :: "string \<Rightarrow> GenericRubyWrapper" where
  "newGenericRubyWrapper dhtType =
     \<lparr>rubyDhtType = dhtType, rubySelfPort = 0, rubyEntryPointHost = '''', rubyEntryPointPort = 0, rubyConnected = False\<rparr>"

definition Ruby_portOffsetToPort :: "u16 \<Rightarrow> u16" where
  "Ruby_portOffsetToPort offset = offset * 2 + 5000"

definition Ruby_waitPrompt :: "'w pipes_scheme \<Rightarrow> 'w pipes_scheme result" where
  "Ruby_waitPrompt w =
     andThen (readUntil (\<lambda>line. line = ''w:$'') (incoming w)) (\<lambda>(line, cs). Inr (w\<lparr>incoming := cs\<rparr>))"

text \<open>\<open>line[0]\<close> of an empty line is the terminator, which is not a hash.\<close>

definition isComment :: "string \<Rightarrow> bool" where
  "isComment line \<longleftrightarrow> line \<noteq> [] \<and> hd line = CHR ''#''"

definition getNonCommentLine :: "bytes \<Rightarrow> (string \<times> bytes) result" where
  "getNonCommentLine cs = readUntil (\<lambda>line. \<not> isComment line) cs"

definition Ruby_joinCommand :: "GenericRubyWrapper \<Rightarrow> string" where
  "Ruby_joinCommand n =
     rubyDhtType n @ ''-wrapper --sp '' @ showPort (rubySelfPort n)
     @ (if rubyEntryPointHost n = '''' then []
        else '' --eph '' @ rubyEntryPointHost n @ '' --epp '' @ showPort (rubyEntryPointPort n))"

definition Ruby_doJoin :: "GenericRubyWrapper \<Rightarrow> 'w pipes_scheme \<Rightarrow> (bool \<times> 'w pipes_scheme) result" where
  "Ruby_doJoin n w =
     andThen (Ruby_waitPrompt (startChild (shellCommand (Ruby_joinCommand n)) w)) (\<lambda>w. Inr (True, w))"

function Ruby_leaveLoop :: "bytes \<Rightarrow> bytes result" where
  "Ruby_leaveLoop cs =
     (case getNonCommentLine cs of
        Inl e \<Rightarrow> Inl e
      | Inr (line, cs') \<Rightarrow> if line = ''Bye =)'' then Inr cs' else Ruby_leaveLoop cs')"
  by pat_completeness auto

lemma readUntil_shorter: "readUntil stop cs = Inr (line, cs') \<Longrightarrow> length cs' < length cs"
proof (induction stop cs rule: readUntil.induct)
  case (1 stop cs)
  obtain l cs1 where read: "readline cs = Inr (l, cs1)"
    using "1.prems" by (subst (asm) readUntil.simps) (auto split: sum.splits)
  note shorter = readline_shorter [OF read]
  show ?case
  proof (cases "stop l")
    case True
    then show ?thesis
      using "1.prems" read shorter by (subst (asm) readUntil.simps) simp
  next
    case False
    then have "readUntil stop cs1 = Inr (line, cs')"
      using "1.prems" read by (subst (asm) readUntil.simps) simp
    then show ?thesis
      using "1.IH" [OF read refl False] shorter by simp
  qed
qed

termination Ruby_leaveLoop
  by (relation "measure length") (auto simp: getNonCommentLine_def dest: readUntil_shorter)

declare Ruby_leaveLoop.simps [simp del]

definition Ruby_doLeave :: "GenericRubyWrapper \<Rightarrow> 'w pipes_scheme \<Rightarrow> 'w pipes_scheme result" where
  "Ruby_doLeave n w =
     (let w = sendLine (''stop'' @ [newline]) w
      in andThen (Ruby_leaveLoop (incoming w)) (\<lambda>cs. Inr (w\<lparr>incoming := cs\<rparr>)))"

definition Ruby_doPut :: "string \<Rightarrow> string \<Rightarrow> 'w pipes_scheme \<Rightarrow> 'w pipes_scheme result" where
  "Ruby_doPut k v w = Ruby_waitPrompt (sendLine (''put '' @ k @ '' '' @ v @ [newline]) w)"

function Ruby_getLoop :: "bytes \<Rightarrow> (bool \<times> bytes) result" where
  "Ruby_getLoop cs =
     (case getNonCommentLine cs of
        Inl e \<Rightarrow> Inl e
      | Inr (line, cs') \<Rightarrow>
          if line = ''Value not found'' then Inr (False, cs')
          else if line = ''Value found:'' then
            (case readline cs' of
               Inl e \<Rightarrow> Inl e
             | Inr (value, cs'') \<Rightarrow> Inr (True, cs''))
          else Ruby_getLoop cs')"
  by pat_completeness auto
termination
  by (relation "measure length") (auto simp: getNonCommentLine_def dest: readUntil_shorter)

declare Ruby_getLoop.simps [simp del]

definition Ruby_doGet :: "string \<Rightarrow> 'w pipes_scheme \<Rightarrow> (bool \<times> 'w pipes_scheme) result" where
  "Ruby_doGet k w =
     (let w = sendLine (''get '' @ k @ [newline]) w
      in andThen (Ruby_getLoop (incoming w)) (\<lambda>(ret, cs).
         andThen (Ruby_waitPrompt (w\<lparr>incoming := cs\<rparr>)) (\<lambda>w. Inr (ret, w))))"

section \<open>Lemmas on lines\<close>

lemma getNonCommentLine_lines:
  assumes "\<forall>l \<in> set ls. goodLine l \<and> isComment l" and "goodLine l" and "\<not> isComment l"
  shows "getNonCommentLine (linesText ls @ l @ newline # rest) = Inr (l, rest)"
  unfolding getNonCommentLine_def by (rule readUntil_lines) (use assms in auto)

text \<open>Lines of the kind that a loop passes over.\<close>

lemma leaveLoop_skips:
  assumes "goodLine l" and "l \<noteq> ''Bye =)''"
  shows "Ruby_leaveLoop (l @ newline # rest) = Ruby_leaveLoop rest"
proof (cases "isComment l")
  case True
  have "getNonCommentLine (l @ newline # rest) = getNonCommentLine rest"
    unfolding getNonCommentLine_def using assms(1) True by (subst readUntil.simps) simp
  then show ?thesis
    by (subst (1 2) Ruby_leaveLoop.simps) simp
next
  case False
  then have "getNonCommentLine (l @ newline # rest) = Inr (l, rest)"
    using getNonCommentLine_lines [of "[]" l rest] assms(1) by simp
  then show ?thesis
    using assms(2) by (subst Ruby_leaveLoop.simps) simp
qed

lemma getLoop_skips:
  assumes "goodLine l" and "l \<noteq> ''Value not found''" and "l \<noteq> ''Value found:''"
  shows "Ruby_getLoop (l @ newline # rest) = Ruby_getLoop rest"
proof (cases "isComment l")
  case True
  have "getNonCommentLine (l @ newline # rest) = getNonCommentLine rest"
    unfolding getNonCommentLine_def using assms(1) True by (subst readUntil.simps) simp
  then show ?thesis
    by (subst (1 2) Ruby_getLoop.simps) simp
next
  case False
  then have "getNonCommentLine (l @ newline # rest) = Inr (l, rest)"
    using getNonCommentLine_lines [of "[]" l rest] assms(1) by simp
  then show ?thesis
    using assms(2,3) by (subst Ruby_getLoop.simps) simp
qed

lemma getLoop_skips_lines:
  assumes "\<forall>l \<in> set ls. goodLine l \<and> l \<noteq> ''Value not found'' \<and> l \<noteq> ''Value found:''"
  shows "Ruby_getLoop (linesText ls @ rest) = Ruby_getLoop rest"
  using assms by (induction ls) (simp_all add: getLoop_skips)

lemma getLoop_answers:
  "Ruby_getLoop (''Value not found'' @ newline # rest) = Inr (False, rest)"
  "goodLine value \<Longrightarrow> Ruby_getLoop (''Value found:'' @ newline # value @ newline # rest) = Inr (True, rest)"
proof -
  have "getNonCommentLine (l @ newline # r) = Inr (l, r)" if "l \<in> {''Value not found'', ''Value found:''}" for l r
    using that getNonCommentLine_lines [of "[]" l r] by (auto simp: goodLine_def isComment_def)
  note line = this
  show "Ruby_getLoop (''Value not found'' @ newline # rest) = Inr (False, rest)"
    by (subst Ruby_getLoop.simps, subst line) simp_all
  show "Ruby_getLoop (''Value found:'' @ newline # value @ newline # rest) = Inr (True, rest)" if "goodLine value"
    by (subst Ruby_getLoop.simps, subst line) (simp_all add: that)
qed

lemma Ruby_prompt: "incoming w = ''w:$'' @ newline # rest \<Longrightarrow> Ruby_waitPrompt w = Inr (w\<lparr>incoming := rest\<rparr>)"
  using readUntil_lines [of "[]" "\<lambda>line. line = ''w:$''" "''w:$''" rest]
  by (simp add: Ruby_waitPrompt_def goodLine_def)

section \<open>Properties\<close>

text \<open>
  C30. A get through the ruby wrapper: whatever other lines and comments the program prints first, the
  answer is whether it announces a value, the value itself is skipped even if it reads like a
  comment, an answer or the prompt, and everything up to the prompt has been read.
\<close>

theorem ruby_get_answer:
  assumes "\<forall>l \<in> set ls. goodLine l \<and> l \<noteq> ''Value not found'' \<and> l \<noteq> ''Value found:''" and "goodLine value"
    and "incoming w = linesText (ls @ (if found then [''Value found:'', value] else [''Value not found'']) @ [''w:$'']) @ rest"
  shows "Ruby_doGet k w = Inr (found, w\<lparr>sent := sent w @ [c_str (''get '' @ k @ [newline])], incoming := rest\<rparr>)"
proof -
  let ?answer = "if found then [''Value found:'', value] else [''Value not found'']"
  have "incoming w = linesText ls @ linesText ?answer @ ''w:$'' @ newline # rest"
    unfolding assms(3) by (simp add: linesText_def)
  then have "Ruby_getLoop (incoming w) = Ruby_getLoop (linesText ?answer @ ''w:$'' @ newline # rest)"
    using getLoop_skips_lines [OF assms(1)] by simp
  also have "\<dots> = Inr (found, ''w:$'' @ newline # rest)"
    using getLoop_answers(1) [of "''w:$'' @ newline # rest"] getLoop_answers(2) [OF assms(2), of "''w:$'' @ newline # rest"]
    by simp
  finally have "Ruby_getLoop (incoming w) = Inr (found, ''w:$'' @ newline # rest)" .
  then show ?thesis
    using Ruby_prompt [of "w\<lparr>sent := sent w @ [c_str (''get '' @ k @ [newline])], incoming := ''w:$'' @ newline # rest\<rparr>" rest]
    by (simp add: Ruby_doGet_def sendLine_def Let_def)
qed

theorem ruby_get_answer_witness:
  "\<exists>w :: pipes. Ruby_doGet ''k'' w = Inr (True, w\<lparr>sent := [c_str (''get k'' @ [newline])], incoming := []\<rparr>)
    \<and> incoming w = linesText [''# asking'', ''Value found:'', ''w:$'', ''w:$'']"
proof -
  let ?w = "\<lparr>childOutputs = [], incoming = linesText ([''# asking''] @ [''Value found:'', ''w:$''] @ [''w:$'']) @ [], sent = [], commands = []\<rparr>"
  have "\<forall>l \<in> set [''# asking'']. goodLine l \<and> l \<noteq> ''Value not found'' \<and> l \<noteq> ''Value found:''" "goodLine ''w:$''"
    by (simp_all add: goodLine_def)
  from ruby_get_answer [OF this, of ?w True "[]" "''k''"] show ?thesis
    by (intro exI [of _ ?w]) simp
qed

text \<open>Leaving reads up to the farewell; a program that ends without it ends the controller.\<close>

lemma ruby_leave:
  assumes "\<forall>l \<in> set ls. goodLine l \<and> l \<noteq> ''Bye =)''"
  shows "Ruby_leaveLoop (linesText (ls @ [''Bye =)'']) @ rest) = Inr rest"
    and "Ruby_leaveLoop (linesText ls) = Inl RWPopenEOF"
proof -
  have skip: "Ruby_leaveLoop (linesText ls @ r) = Ruby_leaveLoop r" for r
    using assms by (induction ls) (simp_all add: leaveLoop_skips)
  have "getNonCommentLine (''Bye =)'' @ newline # rest) = Inr (''Bye =)'', rest)"
    using getNonCommentLine_lines [of "[]" "''Bye =)''" rest] by (simp add: goodLine_def isComment_def)
  then have "Ruby_leaveLoop (''Bye =)'' @ newline # rest) = Inr rest"
    by (subst Ruby_leaveLoop.simps) simp
  then show "Ruby_leaveLoop (linesText (ls @ [''Bye =)'']) @ rest) = Inr rest"
    using skip [of "''Bye =)'' @ newline # rest"] by (simp add: linesText_def)
  have "readUntil stop [] = Inl RWPopenEOF" for stop
    by (subst readUntil.simps) (simp add: readline_def)
  then have "Ruby_leaveLoop [] = Inl RWPopenEOF"
    by (subst Ruby_leaveLoop.simps) (simp add: getNonCommentLine_def)
  then show "Ruby_leaveLoop (linesText ls) = Inl RWPopenEOF"
    using skip [of "[]"] by simp
qed

end
