(* ===== verification/MetricsTest.thy ===== *)
theory MetricsTest
  imports GeneralMetrics
begin

text \<open>
  \<open>src/src/metrics/test.cpp\<close>: the test program of the metrics, as a function of the readings of the
  clock. Its assertions are checks on the model of the classes that it tests; a failed one is
  \<open>AssertionFailed\<close>. What it prints is left out. It declares its \<open>GeneralLatency\<close> objects without the
  interval that the constructor requires today: the interval is an argument here.
\<close>

section \<open>The program\<close>

record testGlobals =
  latencyGeneralMax :: int
  latencyGeneralMin :: int
  clockReads :: nat  (* readings of the clock made *)

definition newTestGlobals :: testGlobals where
  "newTestGlobals = \<lparr>latencyGeneralMax = -1, latencyGeneralMin = -1, clockReads = 0\<rparr>"

definition readClock :: "(nat \<Rightarrow> int) \<Rightarrow> testGlobals \<Rightarrow> int \<times> testGlobals" where
  "readClock now g = (now (clockReads g), g\<lparr>clockReads := clockReads g + 1\<rparr>)"

definition noteMax :: "int \<Rightarrow> testGlobals \<Rightarrow> testGlobals" where
  "noteMax d g = (if d > latencyGeneralMax g \<or> latencyGeneralMax g = -1 then g\<lparr>latencyGeneralMax := d\<rparr> else g)"

definition noteMin :: "int \<Rightarrow> testGlobals \<Rightarrow> testGlobals" where
  "noteMin d g = (if d < latencyGeneralMin g \<or> latencyGeneralMin g = -1 then g\<lparr>latencyGeneralMin := d\<rparr> else g)"

text \<open>\<open>assert(P(x))\<close> for an \<open>x\<close> whose computation can fail.\<close>

definition assertThat :: "'a result \<Rightarrow> ('a \<Rightarrow> bool) \<Rightarrow> unit result" where
  "assertThat m P = andThen m (\<lambda>x. require (P x) AssertionFailed)"

definition makeNodeLatency ::
    "'b boost_scheme \<Rightarrow> (nat \<Rightarrow> int) \<Rightarrow> NodeLatency \<Rightarrow> testGlobals \<Rightarrow> (NodeLatency \<times> testGlobals) result" where
  "makeNodeLatency B now nl g =
     (let (pt1, g) = readClock now g;
          (pt2, g) = readClock now g;
          (pt3, g) = readClock now g;
          td1 = pt2 - pt1;
          td2 = pt3 - pt1;
          g = noteMin td2 (noteMin td1 (noteMax td2 (noteMax td1 g)));
          (t, g) = readClock now g;
          nl = NodeLatency_push t td1 nl
      in andThen (require (meanInMicroseconds nl = real_of_int td1) AssertionFailed) (\<lambda>_.
         andThen (assertThat (minInMicroseconds nl) (\<lambda>m. m = td1)) (\<lambda>_.
         andThen (assertThat (maxInMicroseconds nl) (\<lambda>m. m = td1)) (\<lambda>_.
         let (t, g) = readClock now g;
             nl = NodeLatency_push t td2 nl
         in andThen (require (meanInMicroseconds nl \<ge> real_of_int td1) AssertionFailed) (\<lambda>_.
            andThen (require (meanInMicroseconds nl \<le> real_of_int td2) AssertionFailed) (\<lambda>_.
            andThen (assertThat (minInMicroseconds nl) (\<lambda>m. m = td1)) (\<lambda>_.
            andThen (assertThat (maxInMicroseconds nl) (\<lambda>m. m = td2)) (\<lambda>_.
            andThen (require (NodeLatency_count nl = 2) AssertionFailed) (\<lambda>_.
            andThen (NodeLatency_fromString B (NodeLatency_toString B nl)) (\<lambda>nl2.
            andThen (require (NodeLatency_toString B nl = NodeLatency_toString B nl2) AssertionFailed) (\<lambda>_.
            Inr (nl, g))))))))))))"

definition testEmptyLatency :: "'b boost_scheme \<Rightarrow> int \<Rightarrow> unit result" where
  "testEmptyLatency B interval =
     (let emptyNl = newNodeLatency
      in andThen (NodeLatency_fromString B (NodeLatency_toString B emptyNl)) (\<lambda>emptyNl2.
         let emptyGl = GeneralLatency_push emptyNl2 (newGeneralLatency interval)
         in andThen (assertThat (maxInMicroseconds emptyNl) (\<lambda>m. m = 0)) (\<lambda>_.
            andThen (assertThat (minInMicroseconds emptyNl) (\<lambda>m. m = 0)) (\<lambda>_.
            andThen (assertThat (generalMaxInMicroseconds emptyGl) (\<lambda>m. m = 0)) (\<lambda>_.
            assertThat (generalMinInMicroseconds emptyGl) (\<lambda>m. m = 0))))))"

definition testLatency :: "'b boost_scheme \<Rightarrow> int \<Rightarrow> (nat \<Rightarrow> int) \<Rightarrow> testGlobals \<Rightarrow> unit result" where
  "testLatency B interval now g =
     andThen (makeNodeLatency B now newNodeLatency g) (\<lambda>(nl1, g).
     andThen (makeNodeLatency B now newNodeLatency g) (\<lambda>(nl2, g).
     let gl = GeneralLatency_push nl2 (GeneralLatency_push nl1 (newGeneralLatency interval))
     in andThen (assertThat (generalMinInMicroseconds gl) (\<lambda>m. latencyGeneralMin g = m)) (\<lambda>_.
        andThen (assertThat (generalMaxInMicroseconds gl) (\<lambda>m. latencyGeneralMax g = m)) (\<lambda>_.
        andThen (require (GeneralLatency_count gl = 4) AssertionFailed) (\<lambda>_.
        testEmptyLatency B interval)))))"

definition testSuccessRate :: "unit result" where
  "testSuccessRate =
     (let nsr = (NodeSuccessRate_miss ^^ 9) ((NodeSuccessRate_hit ^^ 10) newNodeSuccessRate);
          nsr2 = NodeSuccessRate_fromString (NodeSuccessRate_toString nsr)
      in andThen (require (NodeSuccessRate_toString nsr = NodeSuccessRate_toString nsr2) AssertionFailed) (\<lambda>_.
         let gsr = GeneralSuccessRate_push nsr2 (GeneralSuccessRate_push nsr newGeneralSuccessRate)
         in andThen (rateMin gsr) (\<lambda>_.
            andThen (rateMax gsr) (\<lambda>_.
            let emptyNsr2 = NodeSuccessRate_fromString (NodeSuccessRate_toString newNodeSuccessRate);
                emptyGsr = GeneralSuccessRate_push emptyNsr2 newGeneralSuccessRate
            in andThen (assertThat (rateMin emptyGsr) (\<lambda>m. m = 0)) (\<lambda>_.
               andThen (assertThat (rateMax emptyGsr) (\<lambda>m. m = 0)) (\<lambda>_.
               require (rateMean emptyGsr = 0) AssertionFailed))))))"

definition metricsTestMain :: "'b boost_scheme \<Rightarrow> int \<Rightarrow> (nat \<Rightarrow> int) \<Rightarrow> int result" where
  "metricsTestMain B interval now =
     andThen (testLatency B interval now newTestGlobals) (\<lambda>_.
     andThen testSuccessRate (\<lambda>_. Inr 0))"

section \<open>The queries of a node that measured something\<close>

lemma latency_of_list:
  assumes "latencyStatistics N = pushAll real_of_int longQuot ds (newStatistics 0)" and "ds \<noteq> []"
    and "length ds < 18446744073709551616"
  shows "NodeLatency_count N = of_nat (length ds)"
    and "meanInMicroseconds N = (\<Sum>d\<leftarrow>ds. real_of_int d) / real (length ds)"
    and "minInMicroseconds N = Inr (Min (set ds))" and "maxInMicroseconds N = Inr (Max (set ds))"
proof -
  have s: "summarises real_of_int longQuot 0 ds (latencyStatistics N)"
    unfolding assms(1) by (rule summarises_pushAll [OF assms(3)])
  then show c: "NodeLatency_count N = of_nat (length ds)"
    by (simp add: NodeLatency_count_def Statistics_count_def summarises_def)
  have "unat (of_nat (length ds) :: u64) = length ds"
    using assms(3) by (simp add: unat_of_nat)
  then have "(of_nat (length ds) :: u64) \<noteq> 0"
    using assms(2) by (metis length_0_conv unat_0)
  then show "meanInMicroseconds N = (\<Sum>d\<leftarrow>ds. real_of_int d) / real (length ds)"
      "minInMicroseconds N = Inr (Min (set ds))" "maxInMicroseconds N = Inr (Max (set ds))"
    using s c assms(2)
    by (simp_all add: meanInMicroseconds_def minInMicroseconds_def maxInMicroseconds_def summarises_def
        Statistics_mean_def Statistics_min_def Statistics_max_def)
qed

text \<open>The node that \<open>makeNodeLatency\<close> fills, for the times of the two pushes.\<close>

definition filledNode :: "int \<Rightarrow> int \<Rightarrow> int \<Rightarrow> int \<Rightarrow> NodeLatency" where
  "filledNode t t' d d' = NodeLatency_push t' d' (NodeLatency_push t d newNodeLatency)"

lemma one_push:
  "latencyStatistics (NodeLatency_push t d newNodeLatency) = pushAll real_of_int longQuot [d] (newStatistics 0)"
  by (simp add: NodeLatency_push_def push_with_time_def newNodeLatency_def)

lemma two_pushes:
  "latencyStatistics (filledNode t t' d d') = pushAll real_of_int longQuot [d, d'] (newStatistics 0)"
  by (simp add: filledNode_def NodeLatency_push_def push_with_time_def newNodeLatency_def)

lemma filledNode_measurements:
  "measurements (filledNode t t' d d') =
     (if t' < t then [(t', d'), (t, d)] else if t' = t then [(t, d')] else [(t, d), (t', d')])"
  by (simp add: filledNode_def NodeLatency_push_def push_with_time_def newNodeLatency_def mapEmpty_def)

lemma filledNode_text:
  assumes "split_documented B" and "time_documented B"
  shows "\<exists>N. NodeLatency_fromString B (NodeLatency_toString B (filledNode t t' d d')) = Inr N
    \<and> NodeLatency_toString B N = NodeLatency_toString B (filledNode t t' d d')"
proof -
  have "mapValid (measurements (filledNode t t' d d'))"
    by (simp add: filledNode_measurements mapValid_def)
  from fromString_toString [OF assms this] show ?thesis
    by (simp add: NodeLatency_toString_def)
qed

definition noted :: "int \<Rightarrow> int \<Rightarrow> testGlobals \<Rightarrow> testGlobals" where
  "noted d d' g = noteMin d' (noteMin d (noteMax d' (noteMax d g)))"

lemma noted_clock [simp]:
  "clockReads (noted d d' g) = clockReads g" "noted d d' (g\<lparr>clockReads := k\<rparr>) = (noted d d' g)\<lparr>clockReads := k\<rparr>"
  by (simp_all add: noted_def noteMin_def noteMax_def)

lemma makeNodeLatency_succeeds:
  assumes docs: "split_documented B" "time_documented B" and r: "clockReads g = r"
    and mono: "now r \<le> now (r + 1)" "now (r + 1) \<le> now (r + 2)"
    and d: "d = now (r + 1) - now r" "d' = now (r + 2) - now r"
  shows "makeNodeLatency B now newNodeLatency g =
    Inr (filledNode (now (r + 3)) (now (r + 4)) d d', (noted d d' g)\<lparr>clockReads := r + 5\<rparr>)"
proof -
  let ?n = "NodeLatency_push (now (r + 3)) d newNodeLatency"
  let ?m = "filledNode (now (r + 3)) (now (r + 4)) d d'"
  have le: "d \<le> d'"
    using mono d by simp
  note one = latency_of_list [OF one_push [of "now (r + 3)" d]]
  note two = latency_of_list [OF two_pushes [of "now (r + 3)" "now (r + 4)" d d']]
  obtain N where N: "NodeLatency_fromString B (NodeLatency_toString B ?m) = Inr N"
      "NodeLatency_toString B N = NodeLatency_toString B ?m"
    using filledNode_text [OF docs] by blast
  have 1: "meanInMicroseconds ?n = real_of_int d" "minInMicroseconds ?n = Inr d" "maxInMicroseconds ?n = Inr d"
    using one by simp_all
  have 2: "real_of_int d \<le> meanInMicroseconds ?m" "meanInMicroseconds ?m \<le> real_of_int d'"
      "minInMicroseconds ?m = Inr d" "maxInMicroseconds ?m = Inr d'" "NodeLatency_count ?m = 2"
    using two le by (simp_all add: min_def max_def)
  have reads: "readClock now g = (now r, g\<lparr>clockReads := r + 1\<rparr>)"
      "readClock now (g'\<lparr>clockReads := k\<rparr>) = (now k, g'\<lparr>clockReads := k + 1\<rparr>)" for g' :: testGlobals and k
    using r by (simp_all add: readClock_def)
  have steps: "r + 1 + 1 = r + 2" "r + 2 + 1 = r + 3" "r + 3 + 1 = r + 4" "r + 4 + 1 = r + 5"
    by simp_all
  show ?thesis
    unfolding makeNodeLatency_def Let_def reads prod.case steps d [symmetric] noted_def [symmetric]
      noted_clock(2) filledNode_def [symmetric]
    using 1 2 N by (simp add: assertThat_def)
qed

section \<open>The general latency of the two nodes\<close>

lemma noted_extremes:
  assumes "0 \<le> d1" "d1 \<le> d1'" "0 \<le> d2" "d2 \<le> d2'"
  shows "latencyGeneralMin (noted d2 d2' (noted d1 d1' newTestGlobals)) = min d1 d2"
    and "latencyGeneralMax (noted d2 d2' (noted d1 d1' newTestGlobals)) = max d1' d2'"
  using assms by (auto simp: noted_def noteMin_def noteMax_def newTestGlobals_def)

lemma two_nodes:
  assumes "n1 = filledNode t1 t1' d1 d1'" and "n2 = filledNode t2 t2' d2 d2'"
    and "ds = map snd (measurements n1) @ map snd (measurements n2)"
    and "gl = GeneralLatency_push n2 (GeneralLatency_push n1 (newGeneralLatency interval))"
  shows "generalMinInMicroseconds gl = Inr (Min (set ds))" and "generalMaxInMicroseconds gl = Inr (Max (set ds))"
    and "GeneralLatency_count gl = of_nat (length ds)"
proof -
  have "NodeLatency_count (filledNode t t' d d') = 2" for t t' d d'
    using latency_of_list(1) [OF two_pushes] by simp
  then have counted: "countedNodes [n1, n2] = [n1, n2]"
    by (simp add: countedNodes_def assms)
  then have durations: "allDurations [n1, n2] = ds"
    by (simp add: allDurations_def assms(3))
  have "gl = fold GeneralLatency_push [n1, n2] (newGeneralLatency interval)"
    by (simp add: assms(4))
  also note GeneralLatency_fold
  finally have gl: "latencyNodes gl = [n1, n2]" "generalStatistics gl = pushAll real_of_int longQuot ds (newStatistics interval)"
    by (simp_all add: counted durations newGeneralLatency_def)
  have ds: "length ds < 18446744073709551616" "ds \<noteq> []"
    by (simp_all add: assms(1-3) filledNode_measurements)
  have "summarises real_of_int longQuot interval ds (generalStatistics gl)"
    unfolding gl by (rule summarises_pushAll [OF ds(1)])
  then show "generalMinInMicroseconds gl = Inr (Min (set ds))" "generalMaxInMicroseconds gl = Inr (Max (set ds))"
      "GeneralLatency_count gl = of_nat (length ds)"
    using ds(2) gl(1)
    by (simp_all add: summarises_def generalMinInMicroseconds_def generalMaxInMicroseconds_def
        GeneralLatency_count_def Statistics_min_def Statistics_max_def Statistics_count_def)
qed

lemma empty_latency_passes:
  assumes "split_documented B" and "time_documented B"
  shows "testEmptyLatency B interval = Inr ()"
proof -
  have "mapValid (measurements newNodeLatency)" and count: "NodeLatency_count newNodeLatency = 0"
    by (simp_all add: newNodeLatency_def mapValid_def mapEmpty_def NodeLatency_count_def Statistics_count_def newStatistics_def)
  with fromString_toString [OF assms] have "NodeLatency_fromString B (NodeLatency_toString B newNodeLatency) =
      Inr newNodeLatency"
    by (simp add: newNodeLatency_def mapEmpty_def)
  then show ?thesis
    using count
    by (simp add: testEmptyLatency_def assertThat_def maxInMicroseconds_def minInMicroseconds_def
        GeneralLatency_push_def newGeneralLatency_def generalMaxInMicroseconds_def generalMinInMicroseconds_def)
qed

lemma success_rate_passes: "testSuccessRate = Inr ()"
proof -
  have nsr: "(NodeSuccessRate_miss ^^ 9) ((NodeSuccessRate_hit ^^ 10) newNodeSuccessRate) = \<lparr>hits = 10, misses = 9\<rparr>"
    by (simp add: eval_nat_numeral NodeSuccessRate_hit_def NodeSuccessRate_miss_def newNodeSuccessRate_def)
  have count: "NodeSuccessRate_count \<lparr>hits = 10, misses = 9\<rparr> = 19" "NodeSuccessRate_count newNodeSuccessRate = 0"
    by (simp_all add: NodeSuccessRate_count_def newNodeSuccessRate_def)
  have empty: "GeneralSuccessRate_push newNodeSuccessRate newGeneralSuccessRate = newGeneralSuccessRate"
    by (simp add: GeneralSuccessRate_push_def count)
  let ?gsr = "GeneralSuccessRate_push \<lparr>hits = 10, misses = 9\<rparr>
      (GeneralSuccessRate_push \<lparr>hits = 10, misses = 9\<rparr> newGeneralSuccessRate)"
  have "\<exists>lo. rateMin ?gsr = Inr lo" "\<exists>hi. rateMax ?gsr = Inr hi"
    by (simp_all add: GeneralSuccessRate_push_def count newGeneralSuccessRate_def newStatistics_def
        Statistics_push_def Let_def rateMin_def rateMax_def Statistics_min_def Statistics_max_def Statistics_count_def)
  moreover have "rateMin newGeneralSuccessRate = Inr 0" "rateMax newGeneralSuccessRate = Inr 0"
      "rateMean newGeneralSuccessRate = 0"
    by (simp_all add: newGeneralSuccessRate_def newStatistics_def rateMin_def rateMax_def rateMean_def Statistics_count_def)
  ultimately show ?thesis
    by (auto simp: testSuccessRate_def nsr rate_fromString_toString Let_def empty assertThat_def)
qed

section \<open>The outcome\<close>



end
