(* ===== verification/ProfileTest.thy ===== *)
theory ProfileTest
  imports Prelude
begin

text \<open>
  The test program \<open>src/src/controller/profiles/test.cpp\<close>. It prints words of
  \<open>ProfileUtils::randomStringFromSet\<close>, of a header that is not in the repository: the function is an
  argument, from the size of the set and the number of the call to the word.
\<close>

primrec profileTestLoop :: "(int \<Rightarrow> nat \<Rightarrow> string) \<Rightarrow> nat \<Rightarrow> nat \<Rightarrow> string list" where
  "profileTestLoop randomStringFromSet 0 i = []"
| "profileTestLoop randomStringFromSet (Suc n) i =
     (''=='' @ randomStringFromSet 100 i) # profileTestLoop randomStringFromSet n (i + 1)"

text \<open>The printed lines and the exit status.\<close>

definition profileTestMain :: "(int \<Rightarrow> nat \<Rightarrow> string) \<Rightarrow> string list \<times> int" where
  "profileTestMain randomStringFromSet = (profileTestLoop randomStringFromSet 3000 0, 0)"

lemma profileTestLoop_map:
  "profileTestLoop randomStringFromSet n i = map (\<lambda>k. ''=='' @ randomStringFromSet 100 (i + k)) [0..<n]"
  by (induction n arbitrary: i) (simp_all add: map_upt_Suc del: upt_Suc)

lemma profileTest_lines:
  "fst (profileTestMain randomStringFromSet) = map (\<lambda>k. ''=='' @ randomStringFromSet 100 k) [0..<3000]"
  by (simp add: profileTestMain_def profileTestLoop_map)

end
